(* ===== verification/F64.thy ===== *)
theory F64
  imports Prelude "HOL-Library.Log_Nat"
begin

text \<open>
  Rust's \<open>f64\<close>: IEEE 754 binary64 with round-to-nearest-even. A finite value is the rational
  number it denotes; every operation computes the exact rational result and rounds it to a
  53-bit significand (subnormals included), overflowing to an infinity. The two zeros are one
  value: the program only compares values and divides by amounts it has checked to be
  positive or by the constants 1000 and 1000000, so it cannot tell the zeros apart.

  The lemmas are the ones a cost calculation needs: rounding is the identity on
  representable values, is monotone on non-negative numbers and keeps signs.
\<close>

named_theorems f64_simps \<open>evaluation of floating-point operations\<close>

section \<open>Values and rounding\<close>

datatype f64 = NaN | Infinity bool | Finite rat  \<comment> \<open>\<open>Infinity True\<close> is negative infinity\<close>

definition floor_log2 :: "rat \<Rightarrow> int" where
  "floor_log2 q =
     (let (a, b) = quotient_of q; k = bitlen a - bitlen b
      in if 2 powi k \<le> q then k else k - 1)"

definition round_half_even :: "rat \<Rightarrow> int" where
  "round_half_even x =
     (let n = \<lfloor>x\<rfloor>; d = x - of_int n
      in if d < 1 / 2 then n else if 1 / 2 < d then n + 1 else if even n then n else n + 1)"

definition f64_exp :: "rat \<Rightarrow> int" where
  "f64_exp q = max (floor_log2 \<bar>q\<bar>) (- 1022)"

definition f64_round :: "rat \<Rightarrow> f64" where
  "f64_round q =
     (if q = 0 then Finite 0
      else let u = 2 powi (f64_exp q - 52); r = of_int (round_half_even (q / u)) * u
           in if 2 powi 1024 \<le> \<bar>r\<bar> then Infinity (q < 0) else Finite r)"

text \<open>A value that an \<open>f64\<close> can hold.\<close>

fun is_f64 :: "f64 \<Rightarrow> bool" where
  "is_f64 NaN = True"
| "is_f64 (Infinity _) = True"
| "is_f64 (Finite q) = (f64_round q = Finite q)"

section \<open>Operations\<close>

fun f64_is_finite :: "f64 \<Rightarrow> bool" where
  "f64_is_finite (Finite _) = True"
| "f64_is_finite _ = False"

fun f64_le :: "f64 \<Rightarrow> f64 \<Rightarrow> bool" where
  "f64_le NaN _ = False"
| "f64_le _ NaN = False"
| "f64_le (Infinity s) (Infinity t) = (s \<or> \<not> t)"
| "f64_le (Infinity s) (Finite _) = s"
| "f64_le (Finite _) (Infinity t) = (\<not> t)"
| "f64_le (Finite p) (Finite q) = (p \<le> q)"

fun f64_lt :: "f64 \<Rightarrow> f64 \<Rightarrow> bool" where
  "f64_lt NaN _ = False"
| "f64_lt _ NaN = False"
| "f64_lt (Infinity s) (Infinity t) = (s \<and> \<not> t)"
| "f64_lt (Infinity s) (Finite _) = s"
| "f64_lt (Finite _) (Infinity t) = (\<not> t)"
| "f64_lt (Finite p) (Finite q) = (p < q)"

fun f64_eq :: "f64 \<Rightarrow> f64 \<Rightarrow> bool" where
  "f64_eq NaN _ = False"
| "f64_eq _ NaN = False"
| "f64_eq x y = (x = y)"

fun f64_add :: "f64 \<Rightarrow> f64 \<Rightarrow> f64" where
  "f64_add NaN _ = NaN"
| "f64_add _ NaN = NaN"
| "f64_add (Infinity s) (Infinity t) = (if s = t then Infinity s else NaN)"
| "f64_add (Infinity s) (Finite _) = Infinity s"
| "f64_add (Finite _) (Infinity t) = Infinity t"
| "f64_add (Finite p) (Finite q) = f64_round (p + q)"

fun f64_mul :: "f64 \<Rightarrow> f64 \<Rightarrow> f64" where
  "f64_mul NaN _ = NaN"
| "f64_mul _ NaN = NaN"
| "f64_mul (Infinity s) (Infinity t) = Infinity (s \<noteq> t)"
| "f64_mul (Infinity s) (Finite q) = (if q = 0 then NaN else Infinity (s \<noteq> (q < 0)))"
| "f64_mul (Finite p) (Infinity t) = (if p = 0 then NaN else Infinity ((p < 0) \<noteq> t))"
| "f64_mul (Finite p) (Finite q) = f64_round (p * q)"

fun f64_div :: "f64 \<Rightarrow> f64 \<Rightarrow> f64" where
  "f64_div NaN _ = NaN"
| "f64_div _ NaN = NaN"
| "f64_div (Infinity _) (Infinity _) = NaN"
| "f64_div (Infinity s) (Finite q) = Infinity (s \<noteq> (q < 0))"
| "f64_div (Finite _) (Infinity _) = Finite 0"
| "f64_div (Finite p) (Finite q) =
     (if q = 0 then (if p = 0 then NaN else Infinity (p < 0)) else f64_round (p / q))"

text \<open>The cast \<open>i64 as f64\<close>, \<open>f64::round\<close> (halves away from zero) and the saturating casts
  to unsigned integers.\<close>

definition f64_of_int :: "int \<Rightarrow> f64" where
  "f64_of_int i = f64_round (of_int i)"

definition round_half_away :: "rat \<Rightarrow> int" where
  "round_half_away q = (if 0 \<le> q then \<lfloor>q + 1 / 2\<rfloor> else - \<lfloor>- q + 1 / 2\<rfloor>)"

fun f64_round_away :: "f64 \<Rightarrow> f64" where
  "f64_round_away (Finite q) = f64_round (of_int (round_half_away q))"
| "f64_round_away x = x"

fun f64_as_uint :: "nat \<Rightarrow> f64 \<Rightarrow> nat" where
  "f64_as_uint hi NaN = 0"
| "f64_as_uint hi (Infinity s) = (if s then 0 else hi)"
| "f64_as_uint hi (Finite q) = min hi (nat \<lfloor>q\<rfloor>)"

abbreviation f64_0 :: f64 where "f64_0 \<equiv> Finite 0"

section \<open>Powers of two\<close>

lemma pow2_pos [simp]: "(0 :: rat) < 2 powi k"
  by (simp add: zero_less_power_int)

lemma pow2_nonzero [simp]: "(2 :: rat) powi k \<noteq> 0"
  by simp

lemma pow2_le_iff [simp]: "(2 :: rat) powi j \<le> 2 powi k \<longleftrightarrow> j \<le> k"
  by (metis linorder_not_less one_less_numeral_iff order_less_imp_le power_int_increasing
      power_int_strict_increasing semiring_norm(76) linorder_not_le)

lemma pow2_less_iff [simp]: "(2 :: rat) powi j < 2 powi k \<longleftrightarrow> j < k"
  by (meson linorder_not_le pow2_le_iff)

lemma pow2_add: "(2 :: rat) powi (j + k) = 2 powi j * 2 powi k"
  by (simp add: power_int_add)

lemma pow2_Suc: "(2 :: rat) powi (j + 1) = 2 * 2 powi j"
  by (simp add: power_int_add)

lemma pow2_int: "0 \<le> k \<Longrightarrow> (2 :: rat) powi k = of_int (2 ^ nat k)"
  by (simp add: power_int_nonneg_exp)

section \<open>The binary exponent\<close>

lemma bitlen_powi:
  assumes "0 < (x :: int)"
  shows "(2 :: rat) powi (bitlen x - 1) \<le> of_int x" "(of_int x :: rat) < 2 powi bitlen x"
proof -
  have b: "2 ^ nat (bitlen x - 1) \<le> x" "x < 2 ^ nat (bitlen x)"
    using bitlen_bounds [OF assms] by auto
  have "1 \<le> bitlen x" using assms by (auto simp: bitlen_alt_def)
  then show "(2 :: rat) powi (bitlen x - 1) \<le> of_int x" "(of_int x :: rat) < 2 powi bitlen x"
    using b by (simp_all only: pow2_int of_int_le_iff of_int_less_iff)
qed

lemma floor_log2_bounds:
  assumes "0 < q"
  shows "2 powi floor_log2 q \<le> q" "q < 2 powi (floor_log2 q + 1)"
proof -
  obtain a b where ab: "quotient_of q = (a, b)" by (cases "quotient_of q")
  then have b: "0 < b" and q: "q = of_int a / of_int b"
    by (auto intro: quotient_of_denom_pos quotient_of_div)
  from q b assms have a: "0 < a" by (simp add: zero_less_divide_iff)
  define k where "k = bitlen a - bitlen b"
  have lo: "2 powi (bitlen a - 1) \<le> (of_int a :: rat)" and hi: "(of_int a :: rat) < 2 powi bitlen a"
    using bitlen_powi [OF a] by auto
  have lo': "2 powi (bitlen b - 1) \<le> (of_int b :: rat)" and hi': "(of_int b :: rat) < 2 powi bitlen b"
    using bitlen_powi [OF b] by auto
  have b': "(0 :: rat) < of_int b" using b by simp
  have "(2 :: rat) powi (k - 1) * of_int b \<le> 2 powi (k - 1) * 2 powi bitlen b"
    using hi' by (intro mult_left_mono) (simp_all add: less_imp_le)
  also have "\<dots> = 2 powi (bitlen a - 1)" by (simp add: k_def flip: pow2_add)
  finally have "2 powi (k - 1) \<le> q" using lo q b' by (simp add: le_divide_eq)
  moreover have "q < 2 powi (k + 1)"
  proof -
    have "2 powi bitlen a = (2 :: rat) powi (k + 1) * 2 powi (bitlen b - 1)"
      by (simp add: k_def flip: pow2_add)
    also have "\<dots> \<le> 2 powi (k + 1) * of_int b"
      using lo' by (intro mult_left_mono) simp_all
    finally show ?thesis using hi q b' by (simp add: divide_less_eq)
  qed
  ultimately show "2 powi floor_log2 q \<le> q" "q < 2 powi (floor_log2 q + 1)"
    by (auto simp: floor_log2_def ab k_def Let_def)
qed

lemma floor_log2_eqI:
  assumes "2 powi k \<le> q" "q < 2 powi (k + 1)"
  shows "floor_log2 q = k"
proof -
  have "0 < q" using assms(1) pow2_pos [of k] by linarith
  from floor_log2_bounds [OF this] assms
  have "2 powi k < (2 :: rat) powi (floor_log2 q + 1)" "2 powi floor_log2 q < (2 :: rat) powi (k + 1)"
    by linarith+
  then show ?thesis by simp
qed

lemma f64_exp_bounds:
  assumes "q \<noteq> 0"
  shows "\<bar>q\<bar> < 2 powi (f64_exp q + 1)" "- 1022 \<le> f64_exp q"
    "f64_exp q \<noteq> - 1022 \<Longrightarrow> 2 powi f64_exp q \<le> \<bar>q\<bar>"
proof -
  have q: "0 < \<bar>q\<bar>" using assms by simp
  have "\<bar>q\<bar> < 2 powi (floor_log2 \<bar>q\<bar> + 1)" using floor_log2_bounds(2) [OF q] .
  also have "\<dots> \<le> 2 powi (f64_exp q + 1)" by (simp add: f64_exp_def)
  finally show "\<bar>q\<bar> < 2 powi (f64_exp q + 1)" .
  show "- 1022 \<le> f64_exp q" by (simp add: f64_exp_def)
  show "f64_exp q \<noteq> - 1022 \<Longrightarrow> 2 powi f64_exp q \<le> \<bar>q\<bar>"
    using floor_log2_bounds(1) [OF q] by (auto simp: f64_exp_def max_def split: if_splits)
qed

lemma f64_exp_mono:
  assumes "0 < p" "p \<le> q"
  shows "f64_exp p \<le> f64_exp q"
proof -
  have "2 powi floor_log2 p \<le> p" "q < 2 powi (floor_log2 q + 1)"
    using floor_log2_bounds assms by simp_all
  with assms have "2 powi floor_log2 p < (2 :: rat) powi (floor_log2 q + 1)" by linarith
  with assms show ?thesis by (simp add: f64_exp_def max_def)
qed

section \<open>Rounding to an integer significand\<close>

lemma round_half_even_int [simp]: "round_half_even (of_int i) = i"
  by (simp add: round_half_even_def)

lemma round_half_even_bounds: "of_int \<lfloor>x\<rfloor> \<le> (of_int (round_half_even x) :: rat)"
    "round_half_even x \<le> \<lfloor>x\<rfloor> + 1"
  by (auto simp: round_half_even_def Let_def)

lemma round_half_even_mono:
  assumes "x \<le> y"
  shows "round_half_even x \<le> round_half_even y"
proof (cases "\<lfloor>x\<rfloor> = \<lfloor>y\<rfloor>")
  case True
  with assms show ?thesis by (auto simp: round_half_even_def Let_def)
next
  case False
  with floor_mono [OF assms] have "\<lfloor>x\<rfloor> + 1 \<le> \<lfloor>y\<rfloor>" by linarith
  with round_half_even_bounds(2) [of x] round_half_even_bounds(1) [of y] show ?thesis
    by simp
qed

lemma round_half_even_nonneg: "0 \<le> x \<Longrightarrow> 0 \<le> round_half_even x"
  using round_half_even_mono [of 0 x] round_half_even_int [of 0] by simp

lemma round_half_even_le: "x \<le> of_int m \<Longrightarrow> round_half_even x \<le> m"
  using round_half_even_mono [of x "of_int m"] by simp

lemma round_half_even_ge: "of_int m \<le> x \<Longrightarrow> m \<le> round_half_even x"
  using round_half_even_mono [of "of_int m" x] by simp

text \<open>The significand that \<^const>\<open>f64_round\<close> keeps, as an exact rational.\<close>

definition f64_sig :: "rat \<Rightarrow> rat" where
  "f64_sig q = of_int (round_half_even (q / 2 powi (f64_exp q - 52))) * 2 powi (f64_exp q - 52)"

lemma f64_round_sig:
  "q \<noteq> 0 \<Longrightarrow> f64_round q = (if 2 powi 1024 \<le> \<bar>f64_sig q\<bar> then Infinity (q < 0) else Finite (f64_sig q))"
  by (simp add: f64_round_def f64_sig_def Let_def)

lemma f64_round_0 [simp]: "f64_round 0 = Finite 0"
  by (simp add: f64_round_def)

lemma f64_sig_nonneg: "0 \<le> q \<Longrightarrow> 0 \<le> f64_sig q"
  by (simp add: f64_sig_def round_half_even_nonneg)

lemma pow2_52: "(2 :: rat) powi (k - 52) * of_int (2 ^ 52) = 2 powi k"
  by (simp add: power_int_diff)

lemma pow2_53: "(2 :: rat) powi (k - 52) * of_int (2 ^ 53) = 2 powi (k + 1)"
  by (simp add: power_int_diff power_int_add)

lemma f64_sig_le:
  assumes "0 < q"
  shows "f64_sig q \<le> 2 powi (f64_exp q + 1)"
proof -
  let ?u = "(2 :: rat) powi (f64_exp q - 52)"
  have "q < 2 powi (f64_exp q + 1)" using f64_exp_bounds(1) [of q] assms by simp
  then have "q / ?u \<le> of_int (2 ^ 53)"
    using pow2_53 [of "f64_exp q"] by (simp add: divide_le_eq mult.commute)
  then have "round_half_even (q / ?u) \<le> 2 ^ 53" by (rule round_half_even_le)
  then have "of_int (round_half_even (q / ?u)) * ?u \<le> of_int (2 ^ 53) * ?u"
    by (intro mult_right_mono) (simp_all only: of_int_le_iff less_imp_le pow2_pos)
  also have "\<dots> = 2 powi (f64_exp q + 1)" by (subst mult.commute) (rule pow2_53)
  finally show ?thesis by (simp only: f64_sig_def)
qed

lemma f64_sig_ge:
  assumes "0 < q" "f64_exp q \<noteq> - 1022"
  shows "2 powi f64_exp q \<le> f64_sig q"
proof -
  let ?u = "(2 :: rat) powi (f64_exp q - 52)"
  have "2 powi f64_exp q \<le> q" using f64_exp_bounds(3) [of q] assms by simp
  then have "of_int (2 ^ 52) \<le> q / ?u"
    using pow2_52 [of "f64_exp q"] by (simp add: le_divide_eq mult.commute)
  then have "2 ^ 52 \<le> round_half_even (q / ?u)" by (rule round_half_even_ge)
  then have "of_int (2 ^ 52) * ?u \<le> of_int (round_half_even (q / ?u)) * ?u"
    by (intro mult_right_mono) (simp_all only: of_int_le_iff less_imp_le pow2_pos)
  moreover have "of_int (2 ^ 52) * ?u = 2 powi f64_exp q" by (subst mult.commute) (rule pow2_52)
  ultimately show ?thesis by (simp only: f64_sig_def)
qed

lemma f64_sig_mono:
  assumes "0 < p" "p \<le> q"
  shows "f64_sig p \<le> f64_sig q"
proof (cases "f64_exp p = f64_exp q")
  case True
  then show ?thesis using assms
    by (auto simp: f64_sig_def intro!: mult_right_mono round_half_even_mono divide_right_mono)
next
  case False
  with f64_exp_mono [OF assms] have lt: "f64_exp p + 1 \<le> f64_exp q" by simp
  moreover have "- 1022 \<le> f64_exp p" using assms by (simp add: f64_exp_def)
  ultimately have "f64_exp q \<noteq> - 1022" by simp
  then have "2 powi f64_exp q \<le> f64_sig q" using assms by (intro f64_sig_ge) auto
  moreover have "f64_sig p \<le> 2 powi (f64_exp p + 1)" using assms by (intro f64_sig_le)
  moreover have "(2 :: rat) powi (f64_exp p + 1) \<le> 2 powi f64_exp q" using lt by simp
  ultimately show ?thesis by linarith
qed

section \<open>Rounding is monotone and exact on representable values\<close>

lemma f64_round_mono:
  assumes "0 \<le> p" "p \<le> q"
  shows "f64_le (f64_round p) (f64_round q)"
proof (cases "p = 0")
  case True
  with assms f64_sig_nonneg [of q] show ?thesis
    by (cases "q = 0") (auto simp: f64_round_sig)
next
  case False
  with assms have "f64_sig p \<le> f64_sig q" "0 \<le> f64_sig p" "0 < p" "0 < q"
    by (auto intro: f64_sig_mono f64_sig_nonneg)
  then show ?thesis by (auto simp: f64_round_sig)
qed

lemma f64_sig_int: "r / 2 powi (f64_exp r - 52) = of_int i \<Longrightarrow> f64_sig r = r"
  by (metis f64_sig_def nonzero_divide_eq_eq pow2_nonzero round_half_even_int)

lemma f64_sig_exact:
  assumes "r = of_int m * 2 powi (e - 52)" "\<bar>m\<bar> \<le> 2 ^ 53" "- 1022 \<le> e" "r \<noteq> 0"
  shows "f64_sig r = r"
proof -
  have mle: "\<bar>of_int m :: rat\<bar> \<le> of_int (2 ^ 53)"
    using assms(2) by (metis of_int_abs of_int_le_iff)
  then have "\<bar>r\<bar> \<le> of_int (2 ^ 53) * 2 powi (e - 52)"
    using assms(1) by (simp add: abs_mult mult_right_mono)
  then have rle: "\<bar>r\<bar> \<le> 2 powi (e + 1)" using pow2_53 [of e] by (simp add: mult.commute)
  have ex: "f64_sig r = r" if "f64_exp r \<le> e"
  proof -
    define d where "d = nat (e - f64_exp r)"
    let ?v = "(2 :: rat) powi (f64_exp r - 52)"
    have "(2 :: rat) powi (e - 52) = ?v * 2 powi (e - f64_exp r)"
      by (simp flip: power_int_add)
    also have "2 powi (e - f64_exp r) = (of_int (2 ^ d) :: rat)"
      using that by (simp add: d_def power_int_nonneg_exp)
    finally have "r = of_int (m * 2 ^ d) * ?v"
      using assms(1) by (metis (no_types, lifting) mult.assoc mult.commute of_int_mult)
    then have "r / ?v = of_int (m * 2 ^ d)"
      by (metis nonzero_mult_div_cancel_right pow2_nonzero)
    then show ?thesis by (rule f64_sig_int)
  qed
  show ?thesis
  proof (cases "\<bar>r\<bar> = 2 powi (e + 1)")
    case True
    then have fl: "f64_exp r = e + 1"
      using assms(3) floor_log2_eqI [of "e + 1" "\<bar>r\<bar>"] by (simp add: f64_exp_def)
    then have "\<bar>r / 2 powi (f64_exp r - 52)\<bar> = of_int (2 ^ 52)"
      using True pow2_52 [of "e + 1"] by (simp add: abs_divide divide_eq_eq mult.commute)
    then have "r / 2 powi (f64_exp r - 52) = of_int (2 ^ 52) \<or>
        r / 2 powi (f64_exp r - 52) = of_int (- (2 ^ 52))"
      by linarith
    then obtain i where "r / 2 powi (f64_exp r - 52) = of_int i" by blast
    then show ?thesis by (rule f64_sig_int)
  next
    case False
    with rle have "\<bar>r\<bar> < 2 powi (e + 1)" by simp
    moreover have "2 powi floor_log2 \<bar>r\<bar> \<le> \<bar>r\<bar>" using assms(4) floor_log2_bounds(1) by simp
    ultimately have "(2 :: rat) powi floor_log2 \<bar>r\<bar> < 2 powi (e + 1)" by linarith
    then have "f64_exp r \<le> e" using assms(3) by (simp add: f64_exp_def)
    then show ?thesis by (rule ex)
  qed
qed

lemma f64_round_exact:
  assumes "r = of_int m * 2 powi (e - 52)" "\<bar>m\<bar> \<le> 2 ^ 53" "- 1022 \<le> e" "\<bar>r\<bar> < 2 powi 1024"
  shows "f64_round r = Finite r"
  using assms f64_sig_exact [OF assms(1-3)] by (cases "r = 0") (auto simp: f64_round_sig)

lemma round_half_even_abs_le:
  assumes "\<bar>x\<bar> \<le> of_int m"
  shows "\<bar>round_half_even x\<bar> \<le> m"
proof -
  have "round_half_even x \<le> m" using assms by (intro round_half_even_le) simp
  moreover have "- m \<le> round_half_even x" using assms by (intro round_half_even_ge) simp
  ultimately show ?thesis by simp
qed

lemma f64_round_idem: "f64_round q = Finite r \<Longrightarrow> f64_round r = Finite r"
proof (cases "q = 0")
  case False
  assume "f64_round q = Finite r"
  with False have r: "r = f64_sig q" "\<bar>r\<bar> < 2 powi 1024"
    by (auto simp: f64_round_sig split: if_splits)
  let ?u = "(2 :: rat) powi (f64_exp q - 52)"
  have "\<bar>q\<bar> < 2 powi (f64_exp q + 1)" using f64_exp_bounds(1) [OF False] .
  then have "\<bar>q / ?u\<bar> \<le> of_int (2 ^ 53)"
    using pow2_53 [of "f64_exp q"] by (simp add: abs_divide divide_le_eq mult.commute)
  then have "\<bar>round_half_even (q / ?u)\<bar> \<le> 2 ^ 53" by (rule round_half_even_abs_le)
  with r show ?thesis
    using f64_exp_bounds(2) [OF False]
    by (intro f64_round_exact [of _ "round_half_even (q / ?u)" "f64_exp q"]) (simp_all add: f64_sig_def)
qed simp

lemma is_f64_round [simp, intro]: "is_f64 (f64_round q)"
  by (cases "f64_round q") (auto intro: f64_round_idem)

lemma f64_round_int [f64_simps]:
  assumes "\<bar>i\<bar> \<le> 9007199254740992"
  shows "f64_round (of_int i) = Finite (of_int i)"
proof (rule f64_round_exact [of _ i 52])
  have "\<bar>of_int i :: rat\<bar> \<le> of_int 9007199254740992"
    using assms by (metis of_int_abs of_int_le_iff)
  also have "\<dots> < 2 powi 1024" by simp
  finally show "\<bar>of_int i :: rat\<bar> < 2 powi 1024" .
qed (use assms in simp_all)

section \<open>Non-negative arithmetic\<close>

lemma f64_le_refl [simp]: "x \<noteq> NaN \<Longrightarrow> f64_le x x"
  by (cases x) simp_all

lemma f64_le_trans: "f64_le x y \<Longrightarrow> f64_le y z \<Longrightarrow> f64_le x z"
  by (cases x; cases y; cases z) auto

lemma f64_le_total: "x \<noteq> NaN \<Longrightarrow> y \<noteq> NaN \<Longrightarrow> f64_le x y \<or> f64_le y x"
  by (cases x; cases y) auto

lemma f64_lt_le: "f64_lt x y \<Longrightarrow> f64_le x y"
  by (cases x; cases y) auto

lemma f64_not_lt_le: "x \<noteq> NaN \<Longrightarrow> y \<noteq> NaN \<Longrightarrow> \<not> f64_lt x y \<longleftrightarrow> f64_le y x"
  by (cases x; cases y) auto

lemma f64_le_not_NaN: "f64_le x y \<Longrightarrow> x \<noteq> NaN \<and> y \<noteq> NaN"
  by (cases x; cases y) auto

lemma f64_le_inf [simp]: "f64_le x (Infinity False) \<longleftrightarrow> x \<noteq> NaN"
  by (cases x) simp_all

lemma f64_round_not_NaN [simp]: "f64_round q \<noteq> NaN"
  by (simp add: f64_round_def Let_def)

lemma f64_round_nonneg: "0 \<le> q \<Longrightarrow> f64_le f64_0 (f64_round q)"
  using f64_round_mono [of 0 q] by simp

lemma f64_add_nonneg: "f64_le f64_0 x \<Longrightarrow> f64_le f64_0 y \<Longrightarrow> f64_le f64_0 (f64_add x y)"
  by (cases x; cases y) (auto intro: f64_round_nonneg)

lemma f64_mul_nonneg:
  "f64_le f64_0 x \<Longrightarrow> f64_le f64_0 y \<Longrightarrow> f64_is_finite x \<Longrightarrow> f64_is_finite y \<Longrightarrow> f64_le f64_0 (f64_mul x y)"
  by (cases x; cases y) (auto intro: f64_round_nonneg)

lemma f64_mul_nonneg_pos:
  "f64_le f64_0 x \<Longrightarrow> 0 < q \<Longrightarrow> f64_le f64_0 (f64_mul x (Finite q))"
  by (cases x) (auto intro: f64_round_nonneg)

lemma f64_div_nonneg: "f64_le f64_0 x \<Longrightarrow> 0 < q \<Longrightarrow> f64_le f64_0 (f64_div x (Finite q))"
  by (cases x) (auto intro: f64_round_nonneg)

lemma f64_round_away_nonneg: "f64_le f64_0 x \<Longrightarrow> f64_le f64_0 (f64_round_away x)"
  by (cases x) (auto simp: round_half_away_def intro: f64_round_nonneg)

lemma f64_of_int_nonneg: "0 \<le> i \<Longrightarrow> f64_le f64_0 (f64_of_int i)"
  by (simp add: f64_of_int_def f64_round_nonneg)

text \<open>Adding a non-negative amount never decreases a representable non-negative value.\<close>

lemma f64_add_increasing:
  assumes "is_f64 x" "f64_le f64_0 x" "f64_le f64_0 y"
  shows "f64_le x (f64_add x y)"
proof (cases "\<exists>p q. x = Finite p \<and> y = Finite q")
  case True
  then obtain p q where xy: "x = Finite p" "y = Finite q" by blast
  with assms have "f64_le (f64_round p) (f64_round (p + q))" by (intro f64_round_mono) auto
  with assms(1) xy show ?thesis by simp
next
  case False
  with assms show ?thesis by (cases x; cases y) auto
qed

lemma f64_div_mono:
  assumes "f64_le f64_0 x" "f64_le x y" "f64_lt f64_0 z" "f64_is_finite z"
  shows "f64_le (f64_div x z) (f64_div y z)"
  using assms by (cases x; cases y; cases z) (auto intro!: f64_round_mono divide_right_mono)

lemma is_f64_add [simp]: "is_f64 (f64_add x y)"
  by (cases x; cases y) auto

lemma is_f64_mul [simp]: "is_f64 (f64_mul x y)"
  by (cases x; cases y) auto

lemma is_f64_div [simp]: "is_f64 (f64_div x y)"
  by (cases x; cases y) auto

lemma f64_round_numeral [simp]:
  "n \<le> 9007199254740992 \<Longrightarrow> f64_round (of_nat n) = Finite (of_nat n)"
  using f64_round_int [of "int n"] by simp

lemma f64_of_int_exact [f64_simps]: "\<bar>i\<bar> \<le> 9007199254740992 \<Longrightarrow> f64_of_int i = Finite (of_int i)"
  by (simp add: f64_of_int_def f64_round_int)

text \<open>Every \<open>i64\<close> is a finite float, and the operations are monotone on non-negative values.\<close>

lemma f64_of_int_mono: "0 \<le> i \<Longrightarrow> i \<le> j \<Longrightarrow> f64_le (f64_of_int i) (f64_of_int j)"
  by (simp add: f64_of_int_def f64_round_mono)

lemma f64_of_int_finite:
  assumes "0 \<le> i" "i \<le> i64_max"
  shows "f64_is_finite (f64_of_int i)"
proof -
  have "f64_of_int 9223372036854775808 = Finite 9223372036854775808"
    using f64_round_exact [of 9223372036854775808 1 115] by (simp add: f64_of_int_def)
  moreover have "f64_le (f64_of_int i) (f64_of_int 9223372036854775808)" "f64_le f64_0 (f64_of_int i)"
    using assms by (auto intro: f64_of_int_mono f64_of_int_nonneg)
  ultimately show ?thesis by (cases "f64_of_int i") auto
qed

lemma f64_mul_mono:
  assumes "f64_le f64_0 x" "f64_le x y" "f64_is_finite y" "f64_le f64_0 z" "f64_is_finite z"
  shows "f64_le (f64_mul x z) (f64_mul y z)"
  using assms by (cases x; cases y; cases z) (auto intro!: f64_round_mono mult_right_mono)

lemma f64_mul_pos_mono:
  assumes "f64_le f64_0 x" "f64_le x y" "0 < q"
  shows "f64_le (f64_mul x (Finite q)) (f64_mul y (Finite q))"
  using assms by (cases x; cases y) (auto intro!: f64_round_mono mult_right_mono)

lemma f64_add_mono:
  assumes "f64_le f64_0 x" "f64_le x y" "f64_le f64_0 z" "f64_le z w"
  shows "f64_le (f64_add x z) (f64_add y w)"
  using assms by (cases x; cases y; cases z; cases w) (auto intro!: f64_round_mono add_mono)

lemma round_half_away_mono: "0 \<le> p \<Longrightarrow> p \<le> q \<Longrightarrow> round_half_away p \<le> round_half_away q"
  by (simp add: round_half_away_def floor_mono)

lemma f64_round_away_mono: "f64_le f64_0 x \<Longrightarrow> f64_le x y \<Longrightarrow> f64_le (f64_round_away x) (f64_round_away y)"
  by (cases x; cases y) (auto intro!: f64_round_mono floor_mono simp: round_half_away_def)

lemma f64_le_finite: "f64_le f64_0 x \<Longrightarrow> f64_le x y \<Longrightarrow> f64_is_finite y \<Longrightarrow> f64_is_finite x"
  by (cases x; cases y) auto

end
