(* ===== verification/Json.thy ===== *)
theory Json
  imports F64
begin

text \<open>
  The JSON values the gateway inspects (\<open>serde_json::Value\<close>) and the accessors it calls on
  them. A number is one of serde\_json's three representations; an object is the list of its
  entries in key order (the crate is built without \<open>preserve_order\<close>, so its map is a
  \<open>BTreeMap\<close>). Parsing and printing JSON text belong to the crate and are
  parameters of the definitions that need them.
\<close>

datatype jnumber = PosInt nat | NegInt int | Float f64

datatype json =
    JNull
  | JBool bool
  | JNumber jnumber
  | JString string
  | JArray "json list"
  | JObject "(string \<times> json) list"

fun json_get :: "json \<Rightarrow> string \<Rightarrow> json option" where
  "json_get (JObject m) k = map_of m k"
| "json_get _ k = None"

fun as_str :: "json \<Rightarrow> string option" where
  "as_str (JString s) = Some s"
| "as_str _ = None"

fun as_array :: "json \<Rightarrow> json list option" where
  "as_array (JArray xs) = Some xs"
| "as_array _ = None"

fun as_object :: "json \<Rightarrow> (string \<times> json) list option" where
  "as_object (JObject m) = Some m"
| "as_object _ = None"

fun num_as_i64 :: "jnumber \<Rightarrow> int option" where
  "num_as_i64 (PosInt n) = (if int n \<le> i64_max then Some (int n) else None)"
| "num_as_i64 (NegInt i) = Some i"
| "num_as_i64 (Float _) = None"

fun num_as_f64 :: "jnumber \<Rightarrow> f64" where
  "num_as_f64 (PosInt n) = f64_of_int (int n)"
| "num_as_f64 (NegInt i) = f64_of_int i"
| "num_as_f64 (Float x) = x"

fun as_i64 :: "json \<Rightarrow> int option" where
  "as_i64 (JNumber n) = num_as_i64 n"
| "as_i64 _ = None"

fun as_f64 :: "json \<Rightarrow> f64 option" where
  "as_f64 (JNumber n) = Some (num_as_f64 n)"
| "as_f64 _ = None"

text \<open>
  The values a parser returns: integers in range and in their canonical representation,
  finite floats, and objects with strictly increasing keys.
\<close>

fun jnumber_wf :: "jnumber \<Rightarrow> bool" where
  "jnumber_wf (PosInt n) = (n \<le> u64_max)"
| "jnumber_wf (NegInt i) = (i64_min \<le> i \<and> i < 0)"
| "jnumber_wf (Float x) = (f64_is_finite x \<and> is_f64 x)"

fun json_wf :: "json \<Rightarrow> bool" where
  "json_wf (JNumber n) = jnumber_wf n"
| "json_wf (JArray xs) = (\<forall>x \<in> set xs. json_wf x)"
| "json_wf (JObject m) = (sorted_wrt (<) (map fst m) \<and> (\<forall>kv \<in> set m. json_wf (snd kv)))"
| "json_wf _ = True"

text \<open>\<open>Map::insert\<close> keeps the entries in key order.\<close>

fun obj_insert :: "string \<Rightarrow> json \<Rightarrow> (string \<times> json) list \<Rightarrow> (string \<times> json) list" where
  "obj_insert k v [] = [(k, v)]"
| "obj_insert k v ((k', v') # m) =
     (if k < k' then (k, v) # (k', v') # m
      else if k = k' then (k, v) # m
      else (k', v') # obj_insert k v m)"

lemma map_of_obj_insert [simp]: "map_of (obj_insert k v m) = (map_of m)(k \<mapsto> v)"
  by (induction k v m rule: obj_insert.induct) (auto simp: fun_eq_iff)

lemma fst_set_obj_insert: "fst ` set (obj_insert k v m) = insert k (fst ` set m)"
  by (induction k v m rule: obj_insert.induct) auto

lemma sorted_obj_insert:
  "sorted_wrt (<) (map fst m) \<Longrightarrow> sorted_wrt (<) (map fst (obj_insert k v m))"
proof (induction k v m rule: obj_insert.induct)
  case (2 k v k' v' m)
  then show ?case
    by (auto simp: fst_set_obj_insert simp flip: set_map [of fst, symmetric] dest: less_trans)
qed simp

lemma as_i64_in_range: "json_wf v \<Longrightarrow> as_i64 v = Some i \<Longrightarrow> in_i64 i"
  by (cases v; simp) (rename_tac n, case_tac n, auto simp: in_i64_def split: if_splits)

end
