(* ===== verification/Errors.thy ===== *)
theory Errors
  imports Json
begin

text \<open>
  The three error enums of the gateway (\<open>gateway-storage/src/error.rs\<close>,
  \<open>gateway-core/src/error.rs\<close>, \<open>gateway-api/src/error.rs\<close>), the HTTP status and class each
  error maps to, its message, and the JSON error response built from it. A transparent wrapper around a
  library's error carries that error's message.
\<close>

section \<open>Definitions\<close>

datatype storage_error =
    SDatabase string | SMigration string | SSerde string | SNotFound | SConflict string
  | SInvalid string | SUnavailable string | SIo string | SOther string

datatype gateway_error =
    Unauthorized
  | Forbidden string
  | RateLimited
  | NotFound
  | NoRoute string
  | BadRequest string
  | ProviderUnknown string
  | UpstreamTimeout
  | UpstreamError nat "string option"
  | Internal string
  | Storage storage_error
  | Http string
  | Serde string
  | Other string

datatype api_error =
    Gateway gateway_error
  | ApiStorage storage_error
  | ApiBadRequest string
  | ApiUnauthorized

fun storage_error_display :: "storage_error \<Rightarrow> string" where
  "storage_error_display (SDatabase m) = ''database error: '' @ m"
| "storage_error_display (SMigration m) = ''migration error: '' @ m"
| "storage_error_display (SSerde m) = ''serialization error: '' @ m"
| "storage_error_display SNotFound = ''not found''"
| "storage_error_display (SConflict m) = ''conflict: '' @ m"
| "storage_error_display (SInvalid m) = ''invalid argument: '' @ m"
| "storage_error_display (SUnavailable m) = ''backend unavailable: '' @ m"
| "storage_error_display (SIo m) = ''io error: '' @ m"
| "storage_error_display (SOther m) = m"

text \<open>\<open>dbg\<close> is the \<open>Debug\<close> rendering of an optional string.\<close>

fun gateway_error_display :: "(string option \<Rightarrow> string) \<Rightarrow> gateway_error \<Rightarrow> string" where
  "gateway_error_display dbg Unauthorized = ''unauthorized''"
| "gateway_error_display dbg (Forbidden m) = ''forbidden: '' @ m"
| "gateway_error_display dbg RateLimited = ''rate limited''"
| "gateway_error_display dbg NotFound = ''not found''"
| "gateway_error_display dbg (NoRoute n) = ''no route configured for namespace '' @ [CHR 0x27] @ n @ [CHR 0x27]"
| "gateway_error_display dbg (BadRequest m) = ''invalid request: '' @ m"
| "gateway_error_display dbg (ProviderUnknown p) = ''provider not configured: '' @ p"
| "gateway_error_display dbg UpstreamTimeout = ''upstream timeout''"
| "gateway_error_display dbg (UpstreamError s b) =
     ''upstream error: status='' @ show_nat s @ '', body='' @ dbg b"
| "gateway_error_display dbg (Internal m) = ''internal: '' @ m"
| "gateway_error_display dbg (Storage e) = storage_error_display e"
| "gateway_error_display dbg (Http m) = m"
| "gateway_error_display dbg (Serde m) = m"
| "gateway_error_display dbg (Other m) = m"

fun status_code :: "gateway_error \<Rightarrow> nat" where
  "status_code Unauthorized = 401"
| "status_code (Forbidden _) = 403"
| "status_code RateLimited = 429"
| "status_code NotFound = 404"
| "status_code (NoRoute _) = 404"
| "status_code (BadRequest _) = 400"
| "status_code (ProviderUnknown _) = 400"
| "status_code UpstreamTimeout = 504"
| "status_code (UpstreamError status _) = status"
| "status_code _ = 500"

fun classification :: "gateway_error \<Rightarrow> string" where
  "classification Unauthorized = ''auth''"
| "classification (Forbidden _) = ''auth''"
| "classification RateLimited = ''rate_limited''"
| "classification (NoRoute _) = ''not_found''"
| "classification (BadRequest _) = ''bad_request''"
| "classification (ProviderUnknown _) = ''bad_request''"
| "classification UpstreamTimeout = ''timeout''"
| "classification (UpstreamError _ _) = ''upstream_error''"
| "classification _ = ''gateway_error''"

text \<open>\<open>StatusCode::from_u16\<close> accepts 100 to 999.\<close>

definition valid_status :: "nat \<Rightarrow> bool" where
  "valid_status s \<longleftrightarrow> 100 \<le> s \<and> s < 1000"

definition error_body :: "string \<Rightarrow> string \<Rightarrow> json" where
  "error_body code message =
     JObject [(''error'', JObject [(''code'', JString code), (''message'', JString message)])]"

fun into_response :: "(string option \<Rightarrow> string) \<Rightarrow> api_error \<Rightarrow> nat \<times> json" where
  "into_response dbg (Gateway e) =
     (if valid_status (status_code e) then status_code e else 500,
      error_body (classification e) (gateway_error_display dbg e))"
| "into_response dbg (ApiStorage e) = (500, error_body ''storage_error'' (storage_error_display e))"
| "into_response dbg (ApiBadRequest m) = (400, error_body ''bad_request'' m)"
| "into_response dbg ApiUnauthorized = (401, error_body ''unauthorized'' ''unauthorized'')"

section \<open>Every error response is an HTTP error\<close>

lemma into_response_valid: "valid_status (fst (into_response dbg e))"
  by (cases e) (auto simp: valid_status_def)

lemma status_code_error:
  "(\<forall>s b. e \<noteq> UpstreamError s b) \<Longrightarrow> 400 \<le> status_code e \<and> status_code e < 600"
  by (cases e) auto

end
