(* ===== verification/Config.thy ===== *)
theory Config
  imports Errors
begin

text \<open>
  The configuration data of \<open>gateway-core/src/config.rs\<close> with its defaults, the load-time
  validation and the resolution of key secrets. Deserialising YAML is the crate
  \<open>serde_yaml\<close>'s work and a parameter of \<open>load_from_str\<close>; environment variables are a
  parameter \<open>env\<close>.
\<close>

section \<open>Configuration records\<close>

record server_config =
  bind :: string
  request_timeout_ms :: nat
  default_project_id :: string

record sqlite_config =
  sqlite_path :: string
  max_size_mb :: nat
  log_retention_days :: nat

record postgres_config =
  pg_url :: string
  pg_max_connections :: nat

record redis_config =
  redis_url :: string

record cache_config =
  l1_memory_mb :: nat
  l2_max_size_mb :: nat

datatype storage_config =
    Lite sqlite_config cache_config
  | Standard postgres_config redis_config cache_config
  | Memory cache_config

record admin_config =
  root_token :: string
  password_login :: bool

record provider_config =
  pc_kind :: "string option"
  base_url :: string
  credential :: string
  pc_headers :: "(string, string) hmap"

record route_match =
  rm_namespace :: "string option"
  rm_model_prefix :: "string option"

record route_target =
  rt_provider :: string
  rt_model :: "string option"
  rt_trigger :: "string list"

record route_cache_config =
  cache_enabled :: bool
  cache_ttl :: nat
  allow_nondeterministic :: bool

record route_retry_config =
  max_attempts :: nat
  initial_backoff_ms :: nat

record route_config =
  route_match :: route_match
  primary :: route_target
  route_cache :: route_cache_config
  route_retry :: route_retry_config
  fallbacks :: "route_target list"

record limit_target =
  lt_kind :: string
  lt_id :: "string option"
  lt_key :: "string option"

record limit_config =
  lc_target :: limit_target
  rpm :: "nat option"
  tpm :: "nat option"
  concurrency :: "nat option"

record budget_target =
  bt_project_id :: "string option"
  bt_gateway_key_id :: "string option"

record budget_threshold =
  th_at :: f64
  th_action :: string
  th_webhook :: "string option"

record budget_config =
  bc_name :: string
  bc_target :: budget_target
  bc_period :: string
  bc_amount_usd :: f64
  bc_thresholds :: "budget_threshold list"

record tracing_config =
  tracing_enabled :: bool
  tracing_format :: string
  otlp_endpoint :: "string option"

record observability_config =
  metrics :: bool
  tracing :: tracing_config

record gateway_key_config =
  gk_id :: string
  gk_name :: string
  gk_project_id :: "string option"
  gk_secret :: string
  gk_scopes :: "string list"

record app_config =
  server :: server_config
  storage :: storage_config
  admin :: admin_config
  providers :: "(string, provider_config) hmap"
  routes :: "route_config list"
  limits :: "limit_config list"
  budgets :: "budget_config list"
  observability :: observability_config
  gateway_keys :: "gateway_key_config list"

section \<open>Defaults\<close>

definition default_bind :: string where "default_bind = ''0.0.0.0:8080''"
definition default_request_timeout_ms :: nat where "default_request_timeout_ms = 600000"
definition dflt_project_id :: string where "dflt_project_id = ''default''"
definition default_sqlite_path :: string where "default_sqlite_path = ''./data/gateway.db''"
definition default_max_size_mb :: nat where "default_max_size_mb = 10240"
definition default_log_retention_days :: nat where "default_log_retention_days = 30"
definition default_pg_max_connections :: nat where "default_pg_max_connections = 32"
definition default_l1_memory_mb :: nat where "default_l1_memory_mb = 256"
definition default_l2_max_size_mb :: nat where "default_l2_max_size_mb = 1024"
definition default_root_token :: string where "default_root_token = ''env://GATEWAY_ROOT_TOKEN''"
definition default_cache_ttl :: nat where "default_cache_ttl = 3600"
definition default_max_attempts :: nat where "default_max_attempts = 3"
definition default_initial_backoff_ms :: nat where "default_initial_backoff_ms = 500"
definition default_tracing_format :: string where "default_tracing_format = ''json''"

definition server_config_default :: server_config where
  "server_config_default = \<lparr>bind = default_bind, request_timeout_ms = default_request_timeout_ms,
     default_project_id = dflt_project_id\<rparr>"

definition sqlite_config_default :: sqlite_config where
  "sqlite_config_default = \<lparr>sqlite_path = default_sqlite_path, max_size_mb = default_max_size_mb,
     log_retention_days = default_log_retention_days\<rparr>"

definition cache_config_default :: cache_config where
  "cache_config_default = \<lparr>l1_memory_mb = default_l1_memory_mb, l2_max_size_mb = default_l2_max_size_mb\<rparr>"

text \<open>The derived \<open>Default\<close> instances take each field type's own default.\<close>

definition admin_config_default :: admin_config where
  "admin_config_default = \<lparr>root_token = '''', password_login = False\<rparr>"

definition route_cache_config_default :: route_cache_config where
  "route_cache_config_default = \<lparr>cache_enabled = False, cache_ttl = 0, allow_nondeterministic = False\<rparr>"

definition route_retry_config_default :: route_retry_config where
  "route_retry_config_default =
     \<lparr>max_attempts = default_max_attempts, initial_backoff_ms = default_initial_backoff_ms\<rparr>"

definition tracing_config_default :: tracing_config where
  "tracing_config_default = \<lparr>tracing_enabled = True, tracing_format = default_tracing_format,
     otlp_endpoint = None\<rparr>"

definition observability_config_default :: observability_config where
  "observability_config_default = \<lparr>metrics = True, tracing = tracing_config_default\<rparr>"

fun profile_name :: "storage_config \<Rightarrow> string" where
  "profile_name (Lite _ _) = ''lite''"
| "profile_name (Standard _ _ _) = ''standard''"
| "profile_name (Memory _) = ''memory''"

section \<open>Key secrets\<close>

definition env_scheme :: string where "env_scheme = ''env://''"
definition PREFIX_LIVE :: string where "PREFIX_LIVE = ''sk-gw-live-''"
definition PREFIX_TEST :: string where "PREFIX_TEST = ''sk-gw-test-''"

definition quoted :: "string \<Rightarrow> string" where
  "quoted s = [CHR 0x27] @ s @ [CHR 0x27]"

definition resolve_secret :: "(string \<Rightarrow> string option) \<Rightarrow> gateway_key_config \<Rightarrow> string + string" where
  "resolve_secret env k =
     (case strip_prefix (gk_secret k) env_scheme of
        Some var \<Rightarrow>
          if var = [] then Inl ''env:// reference is missing a var name''
          else ok_or (env var) (''env var '' @ quoted var @ '' not set or empty'')
      | None \<Rightarrow> if gk_secret k = [] then Inl ''secret is empty'' else Inr (gk_secret k))"

text \<open>The rendering of a secret in \<open>Debug\<close> output.\<close>

definition secret_repr :: "gateway_key_config \<Rightarrow> string" where
  "secret_repr k = (if starts_with (gk_secret k) env_scheme then gk_secret k else ''<redacted>'')"

section \<open>Validation\<close>

definition is_known_provider_kind :: "string \<Rightarrow> bool" where
  "is_known_provider_kind kind \<longleftrightarrow> kind = ''openai'' \<or> kind = ''anthropic''"

fun validate_providers :: "(string, provider_config) hmap \<Rightarrow> gateway_error + unit" where
  "validate_providers [] = Inr ()"
| "validate_providers ((name, p) # ps) =
     (let kind = unwrap_or (pc_kind p) name in
      if \<not> is_known_provider_kind kind
      then Inl (BadRequest (''provider '' @ quoted name @ '' has unsupported kind '' @ quoted kind
                 @ ''; supported: openai, anthropic''))
      else validate_providers ps)"

fun validate_fallbacks :: "(string, provider_config) hmap \<Rightarrow> route_target list \<Rightarrow> gateway_error + unit" where
  "validate_fallbacks ps [] = Inr ()"
| "validate_fallbacks ps (fb # fbs) =
     (if \<not> hm_contains ps (rt_provider fb)
      then Inl (BadRequest (''fallback references unknown provider: '' @ rt_provider fb))
      else validate_fallbacks ps fbs)"

fun validate_routes :: "(string, provider_config) hmap \<Rightarrow> route_config list \<Rightarrow> gateway_error + unit" where
  "validate_routes ps [] = Inr ()"
| "validate_routes ps (r # rs) =
     (if unwrap_or (map_option (\<lambda>n. n = []) (rm_namespace (route_match r))) True
      then Inl (BadRequest (''route for primary.provider '' @ quoted (rt_provider (primary r))
                 @ '' must declare match.namespace''))
      else if \<not> hm_contains ps (rt_provider (primary r))
      then Inl (BadRequest (''route references unknown provider: '' @ rt_provider (primary r)))
      else (case validate_fallbacks ps (fallbacks r) of
              Inl e \<Rightarrow> Inl e
            | Inr _ \<Rightarrow> validate_routes ps rs))"

definition key_label :: "gateway_key_config \<Rightarrow> string" where
  "key_label k = ''gateway_keys[id='' @ gk_id k @ ''].''"

fun validate_keys :: "string list \<Rightarrow> gateway_key_config list \<Rightarrow> gateway_error + unit" where
  "validate_keys seen [] = Inr ()"
| "validate_keys seen (k # ks) =
     (if trim (gk_id k) = [] then Inl (BadRequest ''gateway_keys[].id must be non-empty'')
      else if gk_id k \<in> set seen
      then Inl (BadRequest (''gateway_keys[].id '' @ quoted (gk_id k) @ '' is declared more than once''))
      else if trim (gk_name k) = [] then Inl (BadRequest (key_label k @ ''name must be non-empty''))
      else if gk_secret k = [] then Inl (BadRequest (key_label k @ ''secret must be non-empty''))
      else if \<not> starts_with (gk_secret k) env_scheme
              \<and> \<not> (starts_with (gk_secret k) PREFIX_LIVE \<or> starts_with (gk_secret k) PREFIX_TEST)
      then Inl (BadRequest (key_label k @ ''secret must start with '' @ quoted PREFIX_LIVE @ '' or ''
                 @ quoted PREFIX_TEST @ '' (or use env://VAR)''))
      else validate_keys (gk_id k # seen) ks)"

definition validate :: "app_config \<Rightarrow> gateway_error + unit" where
  "validate cfg =
     (case validate_providers (providers cfg) of
        Inl e \<Rightarrow> Inl e
      | Inr _ \<Rightarrow>
          (case validate_routes (providers cfg) (routes cfg) of
             Inl e \<Rightarrow> Inl e
           | Inr _ \<Rightarrow> validate_keys [] (gateway_keys cfg)))"

text \<open>\<open>from_yaml\<close> is the YAML deserialiser, \<open>read_file\<close> reads a file or gives the error text.\<close>

definition load_from_str :: "(string \<Rightarrow> string + app_config) \<Rightarrow> string \<Rightarrow> gateway_error + app_config" where
  "load_from_str from_yaml txt =
     (case from_yaml txt of
        Inl e \<Rightarrow> Inl (Internal (''failed to parse config yaml: '' @ e))
      | Inr cfg \<Rightarrow> (case validate cfg of Inl e \<Rightarrow> Inl e | Inr _ \<Rightarrow> Inr cfg))"

definition load_from_path ::
  "(string \<Rightarrow> string + app_config) \<Rightarrow> (string \<Rightarrow> string + string) \<Rightarrow> string \<Rightarrow> gateway_error + app_config" where
  "load_from_path from_yaml read_file path =
     (case read_file path of
        Inl e \<Rightarrow> Inl (Internal (''failed to read config '' @ path @ '': '' @ e))
      | Inr txt \<Rightarrow> load_from_str from_yaml txt)"

section \<open>What an accepted configuration guarantees\<close>

definition route_ok :: "(string, provider_config) hmap \<Rightarrow> route_config \<Rightarrow> bool" where
  "route_ok ps r \<longleftrightarrow>
     (\<exists>ns. rm_namespace (route_match r) = Some ns \<and> ns \<noteq> [])
     \<and> hm_contains ps (rt_provider (primary r))
     \<and> (\<forall>fb \<in> set (fallbacks r). hm_contains ps (rt_provider fb))"

definition key_ok :: "gateway_key_config \<Rightarrow> bool" where
  "key_ok k \<longleftrightarrow> trim (gk_id k) \<noteq> [] \<and> trim (gk_name k) \<noteq> [] \<and> gk_secret k \<noteq> []
     \<and> (starts_with (gk_secret k) env_scheme \<or> starts_with (gk_secret k) PREFIX_LIVE
        \<or> starts_with (gk_secret k) PREFIX_TEST)"

lemma validate_providers_iff:
  "validate_providers ps = Inr () \<longleftrightarrow>
     (\<forall>(name, p) \<in> set ps. is_known_provider_kind (unwrap_or (pc_kind p) name))"
  by (induction ps rule: validate_providers.induct) (auto simp: Let_def)

lemma validate_fallbacks_iff:
  "validate_fallbacks ps fbs = Inr () \<longleftrightarrow> (\<forall>fb \<in> set fbs. hm_contains ps (rt_provider fb))"
  by (induction ps fbs rule: validate_fallbacks.induct) auto

lemma validate_routes_iff: "validate_routes ps rs = Inr () \<longleftrightarrow> (\<forall>r \<in> set rs. route_ok ps r)"
proof (induction ps rs rule: validate_routes.induct)
  case (2 ps r rs)
  then show ?case
    by (cases "rm_namespace (route_match r)"; cases "validate_fallbacks ps (fallbacks r)")
      (auto simp: route_ok_def validate_fallbacks_iff [symmetric] simp flip: not_None_eq)
qed simp

lemma validate_keys_iff:
  "validate_keys seen ks = Inr () \<longleftrightarrow>
     (\<forall>k \<in> set ks. key_ok k) \<and> distinct (map gk_id ks) \<and> set (map gk_id ks) \<inter> set seen = {}"
  by (induction seen ks rule: validate_keys.induct) (auto simp: key_ok_def)

lemma validate_Inr:
  "validate cfg = Inr () \<longleftrightarrow>
     validate_providers (providers cfg) = Inr () \<and> validate_routes (providers cfg) (routes cfg) = Inr ()
     \<and> validate_keys [] (gateway_keys cfg) = Inr ()"
  by (auto simp: validate_def split: sum.splits)

text \<open>Every rejection is a bad request.\<close>

lemma validate_providers_error: "validate_providers ps = Inr () \<or> (\<exists>m. validate_providers ps = Inl (BadRequest m))"
  by (induction ps rule: validate_providers.induct) (auto simp: Let_def)

lemma validate_fallbacks_error:
  "validate_fallbacks ps fbs = Inr () \<or> (\<exists>m. validate_fallbacks ps fbs = Inl (BadRequest m))"
  by (induction ps fbs rule: validate_fallbacks.induct) auto

lemma validate_routes_error: "validate_routes ps rs = Inr () \<or> (\<exists>m. validate_routes ps rs = Inl (BadRequest m))"
proof (induction ps rs rule: validate_routes.induct)
  case (2 ps r rs)
  then show ?case using validate_fallbacks_error [of ps "fallbacks r"] by (auto split: sum.splits)
qed simp

lemma validate_keys_error: "validate_keys seen ks = Inr () \<or> (\<exists>m. validate_keys seen ks = Inl (BadRequest m))"
  by (induction seen ks rule: validate_keys.induct) auto

lemma validate_error: "validate cfg = Inr () \<or> (\<exists>m. validate cfg = Inl (BadRequest m))"
  using validate_providers_error [of "providers cfg"] validate_routes_error [of "providers cfg" "routes cfg"]
    validate_keys_error [of "[]" "gateway_keys cfg"]
  by (auto simp: validate_def split: sum.splits)

section \<open>Properties\<close>



end
