(* ===== verification/Engine.thy ===== *)
theory Engine
  imports Config
begin

text \<open>
  Upstream providers and the proxy engine: \<open>gateway-core/src/providers/\<close> and
  \<open>gateway-core/src/proxy/engine.rs\<close>. A header map is the list of its entries with
  lower-case names, as the \<open>http\<close> crate normalises them. Three functions of that crate are parameters:
  \<open>hv\<close> says whether \<open>HeaderValue::from_str\<close> accepts a string and \<open>hn\<close> is
  \<open>HeaderName::try_from\<close>. The HTTP client is a parameter \<open>send\<close>.
\<close>

section \<open>Header maps\<close>

type_synonym header_map = "(string \<times> string) list"

definition hdr_get :: "header_map \<Rightarrow> string \<Rightarrow> string option" where
  "hdr_get h k = map_of h k"

definition hdr_contains :: "header_map \<Rightarrow> string \<Rightarrow> bool" where
  "hdr_contains h k \<longleftrightarrow> map_of h k \<noteq> None"

definition hdr_remove :: "string \<Rightarrow> header_map \<Rightarrow> header_map" where
  "hdr_remove k h = filter (\<lambda>(k', _). k' \<noteq> k) h"

text \<open>\<open>HeaderMap::insert\<close> replaces every value of the name, \<open>append\<close> adds one.\<close>

definition hdr_insert :: "string \<Rightarrow> string \<Rightarrow> header_map \<Rightarrow> header_map" where
  "hdr_insert k v h = hdr_remove k h @ [(k, v)]"

definition hdr_append :: "string \<Rightarrow> string \<Rightarrow> header_map \<Rightarrow> header_map" where
  "hdr_append k v h = h @ [(k, v)]"

definition hdr_values :: "header_map \<Rightarrow> string \<Rightarrow> string list" where
  "hdr_values h k = map snd (filter (\<lambda>(k', _). k' = k) h)"

section \<open>Provider adapters\<close>

datatype auth_injector = OpenAiAuth | AnthropicAuth

definition build_auth_injector :: "string \<Rightarrow> gateway_error + auth_injector" where
  "build_auth_injector kind =
     (if kind = ''openai'' then Inr OpenAiAuth
      else if kind = ''anthropic'' then Inr AnthropicAuth
      else Inl (ProviderUnknown kind))"

definition hdr_insert_if :: "(string \<Rightarrow> bool) \<Rightarrow> string \<Rightarrow> string \<Rightarrow> header_map \<Rightarrow> header_map" where
  "hdr_insert_if hv k v h = (if hv v then hdr_insert k v h else h)"

definition openai_inject :: "(string \<Rightarrow> bool) \<Rightarrow> string \<Rightarrow> header_map \<Rightarrow> header_map" where
  "openai_inject hv api_key h =
     hdr_insert_if hv ''api-key'' api_key
       (hdr_insert_if hv ''authorization'' (''Bearer '' @ api_key) h)"

definition anthropic_inject :: "(string \<Rightarrow> bool) \<Rightarrow> string \<Rightarrow> header_map \<Rightarrow> header_map" where
  "anthropic_inject hv api_key h =
     (let h1 = hdr_insert_if hv ''x-api-key'' api_key h in
      if hdr_contains h1 ''anthropic-version'' then h1
      else hdr_insert ''anthropic-version'' ''2023-06-01'' h1)"

fun inject :: "(string \<Rightarrow> bool) \<Rightarrow> auth_injector \<Rightarrow> string \<Rightarrow> header_map \<Rightarrow> header_map" where
  "inject hv OpenAiAuth api_key h = openai_inject hv api_key h"
| "inject hv AnthropicAuth api_key h = anthropic_inject hv api_key h"

definition resolve_credential ::
  "(string \<Rightarrow> string option) \<Rightarrow> provider_config \<Rightarrow> (string, string) hmap \<Rightarrow> gateway_error + string" where
  "resolve_credential env cfg env_overrides =
     (case strip_prefix (credential cfg) env_scheme of
        Some rest \<Rightarrow>
          if rest = []
          then Inl (Internal ''provider credential env:// reference is missing a var name'')
          else ok_or (or_else (hm_get env_overrides rest) (env rest))
                 (Internal (''env var '' @ rest @ '' not set for provider credential''))
      | None \<Rightarrow>
          if credential cfg = [] then Inl (Internal ''provider credential is empty'')
          else Inr (credential cfg))"

section \<open>The engine\<close>

record resolved_provider =
  rp_base_url :: string
  rp_api_key :: string
  rp_injector :: auth_injector
  rp_extra_headers :: "(string, string) hmap"

type_synonym proxy_engine = "(string, resolved_provider) hmap"

record forward_request =
  fr_provider :: string
  fr_path :: string
  fr_query :: "string option"
  fr_method :: string
  fr_headers :: header_map
  fr_body :: "bytes option"

text \<open>A body stream: the chunks in order, a transport error as \<^const>\<open>Inl\<close>.\<close>

type_synonym body_stream = "(string + bytes) list"

record forward_response =
  resp_status :: nat
  resp_headers :: header_map
  upstream_ms :: nat
  ttfb_ms :: nat
  resp_body :: body_stream

record http_request =
  hr_method :: string
  hr_url :: string
  hr_headers :: header_map
  hr_body :: "bytes option"

text \<open>What the HTTP client reports; the last component of a success is the elapsed time in ms.\<close>

datatype send_outcome =
    SendTimeout
  | SendFailed string
  | SendOk nat header_map body_stream nat

definition resolve_provider ::
  "(string \<Rightarrow> string option) \<Rightarrow> string \<Rightarrow> provider_config \<Rightarrow> (string, string) hmap
     \<Rightarrow> gateway_error + resolved_provider" where
  "resolve_provider env name cfg env_overrides =
     (case build_auth_injector (unwrap_or (pc_kind cfg) name) of
        Inl e \<Rightarrow> Inl e
      | Inr ij \<Rightarrow>
          (case resolve_credential env cfg env_overrides of
             Inl e \<Rightarrow> Inl e
           | Inr key \<Rightarrow>
               Inr \<lparr>rp_base_url = base_url cfg, rp_api_key = key, rp_injector = ij,
                    rp_extra_headers = pc_headers cfg\<rparr>))"

fun resolve_all ::
  "(string \<Rightarrow> string option) \<Rightarrow> (string, provider_config) hmap \<Rightarrow> proxy_engine
     \<Rightarrow> gateway_error + proxy_engine" where
  "resolve_all env [] acc = Inr acc"
| "resolve_all env ((name, cfg) # ps) acc =
     (case resolve_provider env name cfg [] of
        Inl e \<Rightarrow> Inl e
      | Inr rp \<Rightarrow> resolve_all env ps (hm_insert name rp acc))"

definition new_engine :: "(string \<Rightarrow> string option) \<Rightarrow> app_config \<Rightarrow> gateway_error + proxy_engine" where
  "new_engine env config = resolve_all env (providers config) []"

definition STRIP_REQUEST_HEADERS :: "string list" where
  "STRIP_REQUEST_HEADERS =
     [''host'', ''authorization'', ''x-api-key'', ''connection'', ''keep-alive'',
      ''transfer-encoding'', ''te'', ''trailer'', ''upgrade'', ''proxy-authenticate'',
      ''proxy-authorization'', ''content-length'']"

definition STRIP_RESPONSE_HEADERS :: "string list" where
  "STRIP_RESPONSE_HEADERS =
     [''connection'', ''keep-alive'', ''transfer-encoding'', ''te'', ''trailer'', ''upgrade'',
      ''content-encoding'', ''content-length'']"

definition build_url :: "string \<Rightarrow> string \<Rightarrow> string option \<Rightarrow> string" where
  "build_url base path query =
     (let base = trim_end_matches (CHR ''/'') base;
          path = (if starts_with path ''/'' then path else CHR ''/'' # path);
          url = base @ path
      in case query of
           Some q \<Rightarrow> if q = [] then url else url @ ''?'' @ q
         | None \<Rightarrow> url)"

fun filter_request_headers :: "header_map \<Rightarrow> header_map" where
  "filter_request_headers [] = []"
| "filter_request_headers ((k, v) # src) =
     (let name = to_ascii_lowercase k in
      if name \<in> set STRIP_REQUEST_HEADERS then filter_request_headers src
      else if starts_with name ''x-gateway-'' then filter_request_headers src
      else (k, v) # filter_request_headers src)"

fun filter_response_headers :: "header_map \<Rightarrow> header_map" where
  "filter_response_headers [] = []"
| "filter_response_headers ((k, v) # src) =
     (if to_ascii_lowercase k \<in> set STRIP_RESPONSE_HEADERS then filter_response_headers src
      else (k, v) # filter_response_headers src)"

fun add_extra_headers ::
  "(string \<Rightarrow> bool) \<Rightarrow> (string \<Rightarrow> string option) \<Rightarrow> (string, string) hmap \<Rightarrow> header_map \<Rightarrow> header_map" where
  "add_extra_headers hv hn [] h = h"
| "add_extra_headers hv hn ((k, v) # es) h =
     (case hn k of
        Some name \<Rightarrow> add_extra_headers hv hn es (if hv v then hdr_insert name v h else h)
      | None \<Rightarrow> add_extra_headers hv hn es h)"

definition outgoing_request ::
  "(string \<Rightarrow> bool) \<Rightarrow> (string \<Rightarrow> string option) \<Rightarrow> resolved_provider \<Rightarrow> forward_request \<Rightarrow> http_request" where
  "outgoing_request hv hn provider req =
     (let h1 = filter_request_headers (fr_headers req);
          h2 = inject hv (rp_injector provider) (rp_api_key provider) h1;
          h3 = add_extra_headers hv hn (rp_extra_headers provider) h2;
          h4 = hdr_remove ''host'' h3
      in \<lparr>hr_method = fr_method req, hr_url = build_url (rp_base_url provider) (fr_path req) (fr_query req),
          hr_headers = h4, hr_body = fr_body req\<rparr>)"

definition forward ::
  "(string \<Rightarrow> bool) \<Rightarrow> (string \<Rightarrow> string option) \<Rightarrow> proxy_engine \<Rightarrow> (http_request \<Rightarrow> send_outcome)
     \<Rightarrow> forward_request \<Rightarrow> gateway_error + forward_response" where
  "forward hv hn engine send req =
     (case hm_get engine (fr_provider req) of
        None \<Rightarrow> Inl (ProviderUnknown (fr_provider req))
      | Some provider \<Rightarrow>
          (case send (outgoing_request hv hn provider req) of
             SendTimeout \<Rightarrow> Inl UpstreamTimeout
           | SendFailed e \<Rightarrow> Inl (Http e)
           | SendOk status headers body ms \<Rightarrow>
               Inr \<lparr>resp_status = status, resp_headers = filter_response_headers headers,
                    upstream_ms = min ms u64_max, ttfb_ms = min ms u64_max, resp_body = body\<rparr>))"

section \<open>Header filtering\<close>

lemma filter_request_headers_eq:
  "filter_request_headers src =
     filter (\<lambda>(k, v). to_ascii_lowercase k \<notin> set STRIP_REQUEST_HEADERS
                      \<and> \<not> starts_with (to_ascii_lowercase k) ''x-gateway-'') src"
  by (induction src rule: filter_request_headers.induct) (auto simp: Let_def)

lemma filter_response_headers_eq:
  "filter_response_headers src =
     filter (\<lambda>(k, v). to_ascii_lowercase k \<notin> set STRIP_RESPONSE_HEADERS) src"
  by (induction src rule: filter_response_headers.induct) auto

lemma hdr_values_Nil [simp]: "hdr_values [] k = []"
  by (simp add: hdr_values_def)

lemma hdr_values_Cons [simp]:
  "hdr_values ((k', v) # h) k = (if k' = k then v # hdr_values h k else hdr_values h k)"
  by (simp add: hdr_values_def)

lemma hdr_values_insert [simp]:
  "hdr_values (hdr_insert k v h) k' = (if k' = k then [v] else hdr_values h k')"
  by (induction h) (auto simp: hdr_values_def hdr_insert_def hdr_remove_def)

lemma hdr_values_remove [simp]:
  "hdr_values (hdr_remove k h) k' = (if k' = k then [] else hdr_values h k')"
  by (induction h) (auto simp: hdr_values_def hdr_remove_def)

lemma hdr_values_insert_if:
  "hdr_values (hdr_insert_if hv k v h) k' = (if hv v \<and> k' = k then [v] else hdr_values h k')"
  by (simp add: hdr_insert_if_def)

lemma hdr_contains_values: "hdr_contains h k \<longleftrightarrow> hdr_values h k \<noteq> []"
  by (induction h) (auto simp: hdr_contains_def hdr_values_def)

lemma hdr_get_values: "hdr_get h k = (case hdr_values h k of [] \<Rightarrow> None | v # _ \<Rightarrow> Some v)"
  by (induction h) (auto simp: hdr_get_def hdr_values_def)

text \<open>A header name that the request filter drops is decided by the provider alone.\<close>

definition stripped_name :: "string \<Rightarrow> bool" where
  "stripped_name k \<longleftrightarrow> to_ascii_lowercase k \<in> set STRIP_REQUEST_HEADERS
     \<or> starts_with (to_ascii_lowercase k) ''x-gateway-''"

lemma hdr_values_filter_stripped: "stripped_name k \<Longrightarrow> hdr_values (filter_request_headers h) k = []"
  by (auto simp: filter_request_headers_eq hdr_values_def stripped_name_def filter_empty_conv)

lemma hdr_values_filter_kept: "\<not> stripped_name k \<Longrightarrow> hdr_values (filter_request_headers h) k = hdr_values h k"
  by (induction h rule: filter_request_headers.induct)
    (auto simp: Let_def hdr_values_def stripped_name_def)

lemma hdr_values_inject_cong:
  assumes "hdr_values h k = hdr_values h' k" "k \<noteq> ''anthropic-version''"
  shows "hdr_values (inject hv ij key h) k = hdr_values (inject hv ij key h') k"
  using assms by (cases ij)
    (auto simp: openai_inject_def anthropic_inject_def Let_def hdr_values_insert_if)

lemma hdr_values_extra_cong:
  "hdr_values h k = hdr_values h' k \<Longrightarrow>
     hdr_values (add_extra_headers hv hn es h) k = hdr_values (add_extra_headers hv hn es h') k"
proof (induction hv hn es h arbitrary: h' rule: add_extra_headers.induct)
  case (2 hv hn k' v es h)
  show ?case
  proof (cases "hn k'")
    case None
    with "2.IH"(1) [OF None "2.prems"] show ?thesis by simp
  next
    case (Some name)
    have "hdr_values (if hv v then hdr_insert name v h else h) k =
        hdr_values (if hv v then hdr_insert name v h' else h') k" using "2.prems" by simp
    from "2.IH"(2) [OF Some this] Some show ?thesis by simp
  qed
qed simp

text \<open>The names the adapters write, and what they and the configured headers leave alone.\<close>

definition injected_names :: "string set" where
  "injected_names = {''authorization'', ''api-key'', ''x-api-key'', ''anthropic-version''}"

lemma stripped_host: "stripped_name ''host''"
  by (simp add: stripped_name_def STRIP_REQUEST_HEADERS_def to_ascii_lowercase_def ascii_lower_def byte_def)

lemma stripped_not_anthropic: "\<not> stripped_name ''anthropic-version''"
  by (simp add: stripped_name_def STRIP_REQUEST_HEADERS_def to_ascii_lowercase_def ascii_lower_def byte_def
      starts_with_def)

lemma hdr_values_inject_other: "k \<notin> injected_names \<Longrightarrow> hdr_values (inject hv ij key h) k = hdr_values h k"
  by (cases ij) (auto simp: openai_inject_def anthropic_inject_def Let_def hdr_values_insert_if injected_names_def)

lemma hdr_values_extra_other:
  "\<forall>(k', v) \<in> set es. hn k' \<noteq> Some k \<Longrightarrow> hdr_values (add_extra_headers hv hn es h) k = hdr_values h k"
  by (induction hv hn es h rule: add_extra_headers.induct) (auto split: option.split)

lemma hdr_values_filter_response:
  "hdr_values (filter_response_headers h) k =
     (if to_ascii_lowercase k \<in> set STRIP_RESPONSE_HEADERS then [] else hdr_values h k)"
proof (induction h rule: filter_response_headers.induct)
  case (2 k' v h)
  then show ?case by (cases "to_ascii_lowercase k' \<in> set STRIP_RESPONSE_HEADERS") auto
qed simp

section \<open>Engine construction\<close>

lemma build_auth_injector_known: "(\<exists>i. build_auth_injector kind = Inr i) \<longleftrightarrow> is_known_provider_kind kind"
  by (auto simp: build_auth_injector_def is_known_provider_kind_def)

lemma resolve_all_get:
  assumes "resolve_all env ps acc = Inr eng" "distinct (map fst ps)"
  shows "hm_get eng name =
    (case map_of ps name of
       Some cfg \<Rightarrow> (case resolve_provider env name cfg [] of Inl _ \<Rightarrow> None | Inr rp \<Rightarrow> Some rp)
     | None \<Rightarrow> hm_get acc name)"
  using assms
proof (induction env ps acc rule: resolve_all.induct)
  case (2 env nm cfg ps acc)
  then obtain rp where rp: "resolve_provider env nm cfg [] = Inr rp"
      "resolve_all env ps (hm_insert nm rp acc) = Inr eng" by (auto split: sum.splits)
  with 2 have IH: "hm_get eng name =
      (case map_of ps name of
         Some cfg \<Rightarrow> (case resolve_provider env name cfg [] of Inl _ \<Rightarrow> None | Inr rp \<Rightarrow> Some rp)
       | None \<Rightarrow> hm_get (hm_insert nm rp acc) name)" by simp
  have "map_of ps nm = None" using 2 by (simp add: map_of_eq_None_iff)
  with IH rp(1) show ?case
    by (cases "name = nm"; cases "map_of ps name") simp_all
qed simp

lemma resolve_all_Inr_iff:
  "(\<exists>eng. resolve_all env ps acc = Inr eng) \<longleftrightarrow>
     (\<forall>(name, cfg) \<in> set ps. \<exists>rp. resolve_provider env name cfg [] = Inr rp)"
  by (induction env ps acc rule: resolve_all.induct) (auto split: sum.splits)

section \<open>Properties\<close>

text \<open>C36: what the gateway sends upstream under a name it strips (the client's authorization, api key,
  host and hop-by-hop headers, and every \<open>x-gateway-*\<close> header) does not depend on the client's
  headers at all; under every other name that neither the provider adapter nor the provider's
  configured headers set, the upstream gets exactly the client's values.\<close>

theorem client_header_isolation:
  "(stripped_name k \<longrightarrow>
      hdr_values (hr_headers (outgoing_request hv hn p req)) k =
      hdr_values (hr_headers (outgoing_request hv hn p (req\<lparr>fr_headers := h\<rparr>))) k)
   \<and> (\<not> stripped_name k \<and> k \<notin> injected_names \<and> (\<forall>(k', v) \<in> set (rp_extra_headers p). hn k' \<noteq> Some k) \<longrightarrow>
      hdr_values (hr_headers (outgoing_request hv hn p req)) k = hdr_values (fr_headers req) k)"
proof (intro conjI impI)
  assume k: "stripped_name k"
  have "hdr_values (filter_request_headers (fr_headers req)) k = hdr_values (filter_request_headers h) k"
    using k by (simp add: hdr_values_filter_stripped)
  moreover have "k \<noteq> ''anthropic-version''" using k stripped_not_anthropic by blast
  ultimately have "hdr_values (inject hv ij key (filter_request_headers (fr_headers req))) k =
      hdr_values (inject hv ij key (filter_request_headers h)) k" for ij key
    by (rule hdr_values_inject_cong)
  then show "hdr_values (hr_headers (outgoing_request hv hn p req)) k =
      hdr_values (hr_headers (outgoing_request hv hn p (req\<lparr>fr_headers := h\<rparr>))) k"
    by (simp add: outgoing_request_def Let_def) (intro impI hdr_values_extra_cong)
next
  assume k: "\<not> stripped_name k \<and> k \<notin> injected_names \<and> (\<forall>(k', v) \<in> set (rp_extra_headers p). hn k' \<noteq> Some k)"
  then have "k \<noteq> ''host''" using stripped_host by blast
  with k show "hdr_values (hr_headers (outgoing_request hv hn p req)) k = hdr_values (fr_headers req) k"
    by (simp add: outgoing_request_def Let_def hdr_values_extra_other hdr_values_inject_other
        hdr_values_filter_kept)
qed

theorem client_header_isolation_witness:
  "hdr_values (hr_headers (outgoing_request (\<lambda>_. True) (\<lambda>_. None)
      \<lparr>rp_base_url = ''https://api'', rp_api_key = ''K'', rp_injector = OpenAiAuth, rp_extra_headers = []\<rparr>
      \<lparr>fr_provider = ''openai'', fr_path = ''/v1'', fr_query = None, fr_method = ''POST'',
        fr_headers = [(''x-trace'', ''7'')], fr_body = None\<rparr>)) ''x-trace'' = [''7'']"
  using client_header_isolation [of "''x-trace''" "\<lambda>_. True" "\<lambda>_. None"
      "\<lparr>rp_base_url = ''https://api'', rp_api_key = ''K'', rp_injector = OpenAiAuth, rp_extra_headers = []\<rparr>"
      "\<lparr>fr_provider = ''openai'', fr_path = ''/v1'', fr_query = None, fr_method = ''POST'',
        fr_headers = [(''x-trace'', ''7'')], fr_body = None\<rparr>"]
  by (simp add: stripped_name_def STRIP_REQUEST_HEADERS_def injected_names_def to_ascii_lowercase_def
      ascii_lower_def byte_def starts_with_def)

text \<open>no response header that describes the upstream connection or the encoding of its body
  reaches the client, every other header passes through unchanged and in order, and the status and the body are
  the upstream's; a timeout and a transport failure are the only errors of a configured provider.\<close>

theorem forward_result:
  assumes "hm_get engine (fr_provider req) = Some p"
  shows "case send (outgoing_request hv hn p req) of
      SendTimeout \<Rightarrow> forward hv hn engine send req = Inl UpstreamTimeout
    | SendFailed e \<Rightarrow> forward hv hn engine send req = Inl (Http e)
    | SendOk status headers body ms \<Rightarrow>
        (\<exists>r. forward hv hn engine send req = Inr r \<and> resp_status r = status \<and> resp_body r = body
          \<and> (\<forall>k. hdr_values (resp_headers r) k =
                (if to_ascii_lowercase k \<in> set STRIP_RESPONSE_HEADERS then [] else hdr_values headers k)))"
  using assms by (simp add: forward_def hdr_values_filter_response split: send_outcome.split)

theorem forward_result_witness:
  "\<exists>r. forward (\<lambda>_. True) Some
     [(''openai'', \<lparr>rp_base_url = ''u'', rp_api_key = ''K'', rp_injector = OpenAiAuth, rp_extra_headers = []\<rparr>)]
     (\<lambda>_. SendOk 200 [(''connection'', ''close''), (''x-id'', ''1'')] [] 3)
     \<lparr>fr_provider = ''openai'', fr_path = ''/v1'', fr_query = None, fr_method = ''POST'', fr_headers = [], fr_body = None\<rparr>
     = Inr r \<and> hdr_values (resp_headers r) ''x-id'' = [''1''] \<and> hdr_values (resp_headers r) ''connection'' = []"
  using forward_result [of "[(''openai'', \<lparr>rp_base_url = ''u'', rp_api_key = ''K'', rp_injector = OpenAiAuth,
        rp_extra_headers = []\<rparr>)]"
      "\<lparr>fr_provider = ''openai'', fr_path = ''/v1'', fr_query = None, fr_method = ''POST'', fr_headers = [], fr_body = None\<rparr>"
      _ "\<lambda>_. True" Some "\<lambda>_. SendOk 200 [(''connection'', ''close''), (''x-id'', ''1'')] [] 3"]
  by (auto simp: hm_get_def STRIP_RESPONSE_HEADERS_def to_ascii_lowercase_def ascii_lower_def byte_def)

text \<open>for a validated configuration whose credentials all resolve, the engine is built and holds
  exactly the configured providers: each route's primary and fallback providers are in it.\<close>

theorem engine_serves_config:
  assumes "validate cfg = Inr ()" "hm_wf (providers cfg)"
    and "\<forall>(name, p) \<in> set (providers cfg). \<exists>key. resolve_credential env p [] = Inr key"
  shows "\<exists>eng. new_engine env cfg = Inr eng
    \<and> (\<forall>name. hm_contains eng name \<longleftrightarrow> hm_contains (providers cfg) name)
    \<and> (\<forall>r \<in> set (routes cfg). \<forall>t \<in> set (primary r # fallbacks r). hm_contains eng (rt_provider t))"
proof -
  have ok: "\<forall>(name, p) \<in> set (providers cfg). \<exists>rp. resolve_provider env name p [] = Inr rp"
  proof (clarify)
    fix name p
    assume p: "(name, p) \<in> set (providers cfg)"
    with assms(1) have "is_known_provider_kind (unwrap_or (pc_kind p) name)"
      by (auto simp: validate_Inr validate_providers_iff)
    then obtain ij where "build_auth_injector (unwrap_or (pc_kind p) name) = Inr ij"
      using build_auth_injector_known by blast
    moreover obtain key where "resolve_credential env p [] = Inr key" using assms(3) p by blast
    ultimately show "\<exists>rp. resolve_provider env name p [] = Inr rp" by (simp add: resolve_provider_def)
  qed
  then obtain eng where eng: "resolve_all env (providers cfg) [] = Inr eng"
    using resolve_all_Inr_iff by blast
  have dom: "hm_contains eng name \<longleftrightarrow> hm_contains (providers cfg) name" for name
  proof (cases "map_of (providers cfg) name")
    case None
    with eng assms(2) show ?thesis
      by (simp add: hm_contains_get hm_wf_def resolve_all_get [OF eng]) (simp add: hm_get_def)
  next
    case (Some p)
    with ok obtain rp where "resolve_provider env name p [] = Inr rp" by (fastforce dest: map_of_SomeD)
    with Some eng assms(2) show ?thesis
      by (simp add: hm_contains_get hm_wf_def resolve_all_get [OF eng]) (simp add: hm_get_def)
  qed
  from assms(1) have "\<forall>r \<in> set (routes cfg). route_ok (providers cfg) r"
    by (simp add: validate_Inr validate_routes_iff)
  with eng dom show ?thesis by (auto simp: new_engine_def route_ok_def)
qed

theorem engine_serves_config_witness:
  "let cfg = \<lparr>server = server_config_default, storage = Memory cache_config_default, admin = admin_config_default,
      providers = [(''openai'', \<lparr>pc_kind = None, base_url = ''https://api'', credential = ''env://K'', pc_headers = []\<rparr>)],
      routes = [\<lparr>route_match = \<lparr>rm_namespace = Some ''oa'', rm_model_prefix = None\<rparr>,
        primary = \<lparr>rt_provider = ''openai'', rt_model = None, rt_trigger = []\<rparr>,
        route_cache = route_cache_config_default, route_retry = route_retry_config_default, fallbacks = []\<rparr>],
      limits = [], budgets = [], observability = observability_config_default, gateway_keys = []\<rparr>
   in \<exists>eng. new_engine (\<lambda>_. Some ''secret'') cfg = Inr eng \<and> hm_contains eng ''openai''"
  unfolding Let_def
  by (rule exE [OF engine_serves_config [where env = "\<lambda>_. Some ''secret''"]])
    (auto simp: validate_Inr is_known_provider_kind_def hm_contains_def hm_wf_def resolve_credential_def
      strip_prefix_def env_scheme_def ok_or_def or_else_def)

end
