(* ===== verification/Tee_Stream.thy ===== *)
theory Tee_Stream
  imports Engine
begin

text \<open>
  The pass-through stream of \<open>gateway-core/src/proxy/stream.rs\<close> that copies at most
  \<open>max_capture\<close> bytes of the chunks it relays. The wrapped stream is the sequence of its
  \<open>poll\<close> results; wakers carry no data and are left out.
\<close>

datatype 'a poll = Pending | Ready 'a

record tee_stream =
  accumulator :: bytes
  max_capture :: nat
  tee_truncated :: bool

definition tee_new :: "nat \<Rightarrow> tee_stream" where
  "tee_new maxc = \<lparr>accumulator = [], max_capture = maxc, tee_truncated = False\<rparr>"

definition into_captured :: "tee_stream \<Rightarrow> bytes \<times> bool" where
  "into_captured t = (accumulator t, tee_truncated t)"

text \<open>\<open>poll_next\<close>, given what the inner stream's poll returned.\<close>

definition poll_next ::
  "tee_stream \<Rightarrow> (string + bytes) option poll \<Rightarrow> tee_stream \<times> (string + bytes) option poll" where
  "poll_next t polled =
     (case polled of
        Ready (Some (Inr chunk)) \<Rightarrow>
          (let remaining = max_capture t - length (accumulator t) in
           if 0 < remaining
           then (let tk = min remaining (length chunk);
                     t1 = t\<lparr>accumulator := accumulator t @ take tk chunk\<rparr>
                 in (if tk < length chunk then t1\<lparr>tee_truncated := True\<rparr> else t1, polled))
           else if chunk \<noteq> [] then (t\<lparr>tee_truncated := True\<rparr>, polled)
           else (t, polled))
      | other \<Rightarrow> (t, other))"

fun tee_run ::
  "tee_stream \<Rightarrow> (string + bytes) option poll list \<Rightarrow> tee_stream \<times> (string + bytes) option poll list" where
  "tee_run t [] = (t, [])"
| "tee_run t (p # ps) =
     (let (t1, out) = poll_next t p; (t2, outs) = tee_run t1 ps in (t2, out # outs))"

text \<open>The bytes of a run of polls.\<close>

fun chunk_of :: "(string + bytes) option poll \<Rightarrow> bytes" where
  "chunk_of (Ready (Some (Inr c))) = c"
| "chunk_of _ = []"

text \<open>The captured prefix of the bytes \<open>d\<close> relayed so far.\<close>

definition tee_captures :: "tee_stream \<Rightarrow> nat \<Rightarrow> bytes \<Rightarrow> bool" where
  "tee_captures t maxc d \<longleftrightarrow>
     max_capture t = maxc \<and> accumulator t = take maxc d \<and> (tee_truncated t \<longleftrightarrow> maxc < length d)"

lemma poll_next_out [simp]: "snd (poll_next t p) = p"
  by (simp add: poll_next_def Let_def split: poll.splits option.splits sum.splits)

lemma poll_next_captures:
  assumes "tee_captures t maxc d"
  shows "tee_captures (fst (poll_next t p)) maxc (d @ chunk_of p)"
proof (cases "\<exists>c. p = Ready (Some (Inr c))")
  case True
  then obtain c where p: "p = Ready (Some (Inr c))" by blast
  show ?thesis using assms unfolding p tee_captures_def
    by (auto simp: poll_next_def Let_def min_def take_all)
next
  case False
  then have "chunk_of p = []" "fst (poll_next t p) = t"
    by (cases p rule: chunk_of.cases; auto simp: poll_next_def)+
  with assms show ?thesis by simp
qed

lemma tee_run_captures:
  "tee_captures t maxc d \<Longrightarrow>
     tee_captures (fst (tee_run t ps)) maxc (d @ concat (map chunk_of ps)) \<and> snd (tee_run t ps) = ps"
proof (induction t ps arbitrary: d rule: tee_run.induct)
  case (2 t p ps)
  obtain t1 where t1: "poll_next t p = (t1, p)" by (metis poll_next_out prod.collapse)
  with poll_next_captures [OF 2(2), of p] have "tee_captures t1 maxc (d @ chunk_of p)" by simp
  from 2(1) [OF t1 [symmetric] refl this] t1 show ?case by (simp add: case_prod_unfold)
qed simp

text \<open>whatever the wrapped stream yields (chunks, errors, pending polls), the tee relays it
  unchanged and in order; the captured bytes are exactly the first \<open>max_capture\<close> bytes of the
  relayed data, and the stream is marked truncated exactly when more than that was relayed.\<close>

theorem tee_faithful:
  "let (t, outs) = tee_run (tee_new maxc) ps; d = concat (map chunk_of ps) in
     outs = ps \<and> into_captured t = (take maxc d, maxc < length d)"
  using tee_run_captures [of "tee_new maxc" maxc "[]" ps]
  by (auto simp: tee_captures_def tee_new_def into_captured_def case_prod_unfold Let_def)

end
