(* ===== verification/Storage_Models.thy ===== *)
theory Storage_Models
  imports Errors
begin

text \<open>
  The rows and requests of the storage layer (\<open>gateway-storage/src/models.rs\<close>) and its traits
  (\<open>gateway-storage/src/traits.rs\<close>). A trait object is a record of operations over the store's
  state: an operation takes the state, the current time where the implementation reads the clock,
  and its arguments, and returns the new state with the result. What callers rely on is stated in the
  locales at the end, which every store model has to discharge.
\<close>

section \<open>Models\<close>

record project =
  pj_id :: string
  pj_name :: string
  pj_created_at :: timestamp

record new_project =
  np_id :: string
  np_name :: string

definition KEY_ORIGIN_ADMIN :: string where "KEY_ORIGIN_ADMIN = ''admin''"
definition KEY_ORIGIN_CONFIG :: string where "KEY_ORIGIN_CONFIG = ''config''"

record gateway_key_row =
  kr_id :: string
  kr_project_id :: string
  kr_name :: string
  kr_prefix :: string
  kr_hash :: bytes
  kr_last4 :: string
  kr_scopes :: "string list"
  kr_status :: string
  kr_expires_at :: "timestamp option"
  kr_last_used_at :: "timestamp option"
  kr_created_at :: timestamp
  kr_revoked_at :: "timestamp option"
  kr_origin :: string

record new_gateway_key =
  nk_id :: string
  nk_project_id :: string
  nk_name :: string
  nk_prefix :: string
  nk_hash :: bytes
  nk_last4 :: string
  nk_scopes :: "string list"
  nk_expires_at :: "timestamp option"
  nk_origin :: string

type_synonym routes_config = json

record request_log_record =
  lr_id :: string
  lr_project_id :: string
  lr_gateway_key_id :: "string option"
  lr_namespace :: "string option"
  lr_model :: "string option"
  lr_endpoint :: "string option"
  lr_request_ts :: timestamp
  lr_duration_ms :: "int option"
  lr_upstream_ms :: "int option"
  lr_ttfb_ms :: "int option"
  lr_status :: string
  lr_http_status :: "int option"
  lr_cached :: bool
  lr_retry_count :: int
  lr_fallback_used :: "string option"
  lr_prompt_tokens :: "int option"
  lr_completion_tokens :: "int option"
  lr_cached_tokens :: "int option"
  lr_total_tokens :: "int option"
  lr_cost_usd :: "f64 option"
  lr_would_have_cost_usd :: "f64 option"
  lr_metadata :: "json option"
  lr_client_ip :: "string option"
  lr_user_agent :: "string option"
  lr_error_message :: "string option"
  lr_request_body :: "string option"
  lr_response_body :: "string option"

record request_log_row =
  lw_id :: string
  lw_project_id :: string
  lw_gateway_key_id :: "string option"
  lw_namespace :: "string option"
  lw_model :: "string option"
  lw_endpoint :: "string option"
  lw_request_ts :: timestamp
  lw_duration_ms :: "int option"
  lw_status :: string
  lw_http_status :: "int option"
  lw_cached :: bool
  lw_retry_count :: int
  lw_prompt_tokens :: "int option"
  lw_completion_tokens :: "int option"
  lw_cost_usd :: "f64 option"
  lw_request_body :: "string option"

record log_query =
  q_project_id :: "string option"
  q_gateway_key_id :: "string option"
  q_namespace :: "string option"
  q_model :: "string option"
  q_status :: "string option"
  q_from_ts :: "timestamp option"
  q_to_ts :: "timestamp option"
  q_limit :: nat
  q_cursor :: "string option"

definition with_limit :: "log_query \<Rightarrow> nat \<Rightarrow> log_query" where
  "with_limit q limit = q\<lparr>q_limit := max 1 (min limit 500)\<rparr>"

record 'a page =
  items :: "'a list"
  next_cursor :: "string option"

datatype aggregate_dimension = DimNamespace | DimModel | DimDay | DimHour | DimGatewayKey

record aggregate_query =
  aq_project_id :: "string option"
  aq_from_ts :: "timestamp option"
  aq_to_ts :: "timestamp option"
  aq_group_by :: "aggregate_dimension list"

record aggregate_group =
  ag_key :: json
  ag_requests :: int
  ag_prompt_tokens :: int
  ag_completion_tokens :: int
  ag_cost_usd :: f64
  ag_cached_savings_usd :: f64

record aggregate_result =
  ar_groups :: "aggregate_group list"
  ar_total_cost_usd :: f64

record pricing_row =
  pr_provider :: string
  pr_model :: string
  pr_input_per_1k :: f64
  pr_output_per_1k :: f64
  pr_cached_input_per_1k :: "f64 option"

record admin_user =
  au_id :: string
  au_username :: string
  au_password_hash :: string
  au_created_at :: timestamp
  au_last_login_at :: "timestamp option"

record new_admin_user =
  nu_id :: string
  nu_username :: string
  nu_password_hash :: string

record budget_row =
  bg_id :: string
  bg_name :: string
  bg_target_type :: string
  bg_target_id :: string
  bg_period :: string
  bg_amount_usd :: f64
  bg_thresholds :: json
  bg_status :: string

section \<open>Store interfaces\<close>

type_synonym 'a sresult = "storage_error + 'a"

record 'm metadata_ops =
  create_project :: "'m \<Rightarrow> int \<Rightarrow> new_project \<Rightarrow> 'm \<times> project sresult"
  get_project :: "'m \<Rightarrow> string \<Rightarrow> project option sresult"
  list_projects :: "'m \<Rightarrow> project list sresult"
  create_key :: "'m \<Rightarrow> int \<Rightarrow> new_gateway_key \<Rightarrow> 'm \<times> gateway_key_row sresult"
  list_keys :: "'m \<Rightarrow> string \<Rightarrow> gateway_key_row list sresult"
  get_key :: "'m \<Rightarrow> string \<Rightarrow> gateway_key_row option sresult"
  find_key_by_hash :: "'m \<Rightarrow> bytes \<Rightarrow> gateway_key_row option sresult"
  revoke_key :: "'m \<Rightarrow> int \<Rightarrow> string \<Rightarrow> 'm \<times> unit sresult"
  touch_key_last_used :: "'m \<Rightarrow> string \<Rightarrow> timestamp \<Rightarrow> 'm \<times> unit sresult"
  upsert_seeded_key :: "'m \<Rightarrow> int \<Rightarrow> new_gateway_key \<Rightarrow> 'm \<times> gateway_key_row sresult"
  prune_seeded_keys_not_in :: "'m \<Rightarrow> string \<Rightarrow> string list \<Rightarrow> 'm \<times> nat sresult"
  upsert_routes :: "'m \<Rightarrow> int \<Rightarrow> string \<Rightarrow> routes_config \<Rightarrow> int \<Rightarrow> 'm \<times> unit sresult"
  load_routes :: "'m \<Rightarrow> string \<Rightarrow> (routes_config \<times> int) option sresult"
  upsert_budget :: "'m \<Rightarrow> budget_row \<Rightarrow> 'm \<times> unit sresult"
  list_budgets :: "'m \<Rightarrow> budget_row list sresult"
  get_budget :: "'m \<Rightarrow> string \<Rightarrow> budget_row option sresult"
  upsert_pricing :: "'m \<Rightarrow> pricing_row \<Rightarrow> 'm \<times> unit sresult"
  list_pricing :: "'m \<Rightarrow> pricing_row list sresult"
  delete_pricing :: "'m \<Rightarrow> string \<Rightarrow> string \<Rightarrow> 'm \<times> unit sresult"
  create_admin_user :: "'m \<Rightarrow> int \<Rightarrow> new_admin_user \<Rightarrow> 'm \<times> admin_user sresult"
  find_admin_user :: "'m \<Rightarrow> string \<Rightarrow> admin_user option sresult"
  list_admin_users :: "'m \<Rightarrow> admin_user list sresult"
  touch_admin_last_login :: "'m \<Rightarrow> string \<Rightarrow> timestamp \<Rightarrow> 'm \<times> unit sresult"

record 'l log_ops =
  log_append :: "'l \<Rightarrow> request_log_record \<Rightarrow> 'l \<times> unit sresult"
  log_query_rows :: "'l \<Rightarrow> log_query \<Rightarrow> request_log_row page sresult"
  get_by_id :: "'l \<Rightarrow> string \<Rightarrow> request_log_record option sresult"
  log_aggregate :: "'l \<Rightarrow> aggregate_query \<Rightarrow> aggregate_result sresult"
  purge_older_than :: "'l \<Rightarrow> timestamp \<Rightarrow> 'l \<times> nat sresult"
  distinct_cost_keys :: "'l \<Rightarrow> timestamp option \<Rightarrow> timestamp option \<Rightarrow> (string \<times> string) list sresult"
  recompute_costs :: "'l \<Rightarrow> string \<Rightarrow> string \<Rightarrow> f64 \<Rightarrow> f64 \<Rightarrow> f64 \<Rightarrow> timestamp option \<Rightarrow> timestamp option
    \<Rightarrow> 'l \<times> nat sresult"
  log_flush :: "'l \<Rightarrow> 'l \<times> unit sresult"

text \<open>Reading the cache may drop an expired entry, so \<open>kv_get\<close> returns a state as well. A put whose expiry
  time cannot be represented panics: \<^const>\<open>None\<close>.\<close>

record 'k kv_ops =
  kv_get :: "'k \<Rightarrow> int \<Rightarrow> string \<Rightarrow> 'k \<times> bytes option sresult"
  kv_put :: "'k \<Rightarrow> int \<Rightarrow> string \<Rightarrow> bytes \<Rightarrow> nat \<Rightarrow> ('k \<times> unit sresult) option"
  kv_delete :: "'k \<Rightarrow> string \<Rightarrow> 'k \<times> unit sresult"

text \<open>A concurrency permit is known by the key it was granted for; dropping it is \<open>release\<close>.\<close>

record 'c counter_ops =
  incr_window :: "'c \<Rightarrow> int \<Rightarrow> string \<Rightarrow> nat \<Rightarrow> int \<Rightarrow> 'c \<times> int sresult"
  current :: "'c \<Rightarrow> int \<Rightarrow> string \<Rightarrow> nat \<Rightarrow> int sresult"
  try_acquire_concurrency :: "'c \<Rightarrow> string \<Rightarrow> nat \<Rightarrow> 'c \<times> string option sresult"
  release :: "'c \<Rightarrow> string \<Rightarrow> 'c"
  incr_budget :: "'c \<Rightarrow> string \<Rightarrow> timestamp \<Rightarrow> f64 \<Rightarrow> 'c \<times> f64 sresult"
  read_budget :: "'c \<Rightarrow> string \<Rightarrow> timestamp \<Rightarrow> f64 sresult"

section \<open>Contracts\<close>

text \<open>
  The cache: \<open>live st now k\<close> is the value a read at \<open>now\<close> may return. A successful put makes its
  value live until \<open>now + 1000 * ttl\<close>, exclusively.
\<close>

locale kv_contract =
  fixes ops :: "'k kv_ops" and live :: "'k \<Rightarrow> int \<Rightarrow> string \<Rightarrow> bytes option"
  assumes get_live: "kv_get ops st now k = (st', Inr x) \<Longrightarrow> x = live st now k"
    and get_keeps: "kv_get ops st now k = (st', r) \<Longrightarrow> now \<le> t \<Longrightarrow> live st' t k' = live st t k'"
    and put_live: "kv_put ops st now k v ttl = Some (st', Inr ()) \<Longrightarrow> now \<le> t \<Longrightarrow>
       live st' t k' = (if k' = k then (if t < now + 1000 * int ttl then Some v else None) else live st t k')"
    and delete_live: "kv_delete ops st k = (st', Inr ()) \<Longrightarrow>
       live st' t k' = (if k' = k then None else live st t k')"
begin

text \<open>What a client sees of a put followed by a read of the same key.\<close>

lemma get_after_put:
  assumes "kv_put ops st now k v ttl = Some (st1, Inr ())" "now \<le> t"
    and "kv_get ops st1 t k = (st2, Inr r)"
  shows "r = (if t < now + 1000 * int ttl then Some v else None)"
  using get_live [OF assms(3)] put_live [OF assms(1,2), of k] by simp

lemma get_twice:
  assumes "kv_get ops st now k = (st1, Inr r1)" "now \<le> t" "live st t k = live st now k"
    and "kv_get ops st1 t k = (st2, Inr r2)"
  shows "r2 = r1"
  using get_live [OF assms(1)] get_live [OF assms(4)] get_keeps [OF assms(1,2), of k] assms(3) by simp

end

text \<open>
  Counters: \<open>window st now k w\<close> is the count of the window of \<open>w\<close> milliseconds that contains \<open>now\<close>,
  \<open>in_use st k\<close> the permits outstanding, \<open>spent st b p\<close> the spend of a budget period.
\<close>

locale counter_contract =
  fixes ops :: "'c counter_ops"
    and window :: "'c \<Rightarrow> int \<Rightarrow> string \<Rightarrow> nat \<Rightarrow> int"
    and in_use :: "'c \<Rightarrow> string \<Rightarrow> nat"
    and spent :: "'c \<Rightarrow> string \<Rightarrow> timestamp \<Rightarrow> f64"
  assumes incr_window_result: "incr_window ops st now k w n = (st', Inr v) \<Longrightarrow>
       v = window st' now k w \<and> window st' now k w = wrap_i64 (window st now k w + n)"
    and incr_window_frame: "incr_window ops st now k w n = (st', ri) \<Longrightarrow> k' \<noteq> k \<Longrightarrow>
       window st' t k' w' = window st t k' w'"
    and incr_window_other: "incr_window ops st now k w n = (st', ri) \<Longrightarrow>
       in_use st' = in_use st \<and> spent st' = spent st"
    and acquire_result: "try_acquire_concurrency ops st k m = (st', Inr pm) \<Longrightarrow>
       (if in_use st k < m then pm = Some k \<and> in_use st' = (in_use st)(k := in_use st k + 1)
        else pm = None \<and> in_use st' = in_use st)"
    and acquire_error: "try_acquire_concurrency ops st k m = (st', Inl e) \<Longrightarrow> in_use st' = in_use st"
    and acquire_other: "try_acquire_concurrency ops st k m = (st', ra) \<Longrightarrow>
       window st' = window st \<and> spent st' = spent st"
    and release_result: "in_use (release ops st k) = (in_use st)(k := in_use st k - 1)"
    and release_other: "window (release ops st k) = window st \<and> spent (release ops st k) = spent st"
    and incr_budget_result: "incr_budget ops st b p d = (st', Inr x) \<Longrightarrow>
       x = spent st' b p \<and> spent st' b p = f64_add (spent st b p) d"
    and incr_budget_frame: "incr_budget ops st b p d = (st', rb) \<Longrightarrow> (b', p') \<noteq> (b, p) \<Longrightarrow>
       spent st' b' p' = spent st b' p'"
    and incr_budget_other: "incr_budget ops st b p d = (st', rb) \<Longrightarrow>
       window st' = window st \<and> in_use st' = in_use st"
    and read_budget_result: "read_budget ops st b p = Inr x \<Longrightarrow> x = spent st b p"

text \<open>
  The key table of the metadata store: \<open>key st i\<close> is the row stored under the id \<open>i\<close>, \<open>ok st\<close> the
  store's representation invariant.
\<close>

locale key_store_contract =
  fixes ops :: "'m metadata_ops"
    and key :: "'m \<Rightarrow> string \<Rightarrow> gateway_key_row option"
    and ok :: "'m \<Rightarrow> bool"
  assumes find_sound: "ok st \<Longrightarrow> find_key_by_hash ops st h = Inr (Some row) \<Longrightarrow> kr_hash row = h \<and> key st (kr_id row) = Some row"
    and find_complete: "ok st \<Longrightarrow> find_key_by_hash ops st h = Inr None \<Longrightarrow> key st i = Some row \<Longrightarrow> kr_hash row \<noteq> h"
    and revoke_result: "ok st \<Longrightarrow> revoke_key ops st now i = (st', rr) \<Longrightarrow> ok st' \<and>
       (case rr of
          Inl e \<Rightarrow> key st' = key st
        | Inr _ \<Rightarrow> (\<exists>row. key st i = Some row \<and>
            key st' = (key st)(i \<mapsto> row\<lparr>kr_status := ''revoked'', kr_revoked_at := Some now\<rparr>)))"
    and upsert_seeded_result: "ok st \<Longrightarrow> upsert_seeded_key ops st now k = (st', ru) \<Longrightarrow> ok st' \<and>
       (case ru of
          Inl e \<Rightarrow> key st' = key st
        | Inr row \<Rightarrow> key st' = (key st)(nk_id k \<mapsto> row)
            \<and> kr_id row = nk_id k \<and> kr_hash row = nk_hash k \<and> kr_project_id row = nk_project_id k
            \<and> kr_status row = ''active'' \<and> kr_expires_at row = nk_expires_at k
            \<and> kr_origin row = KEY_ORIGIN_CONFIG
            \<and> (\<forall>old. key st (nk_id k) = Some old \<longrightarrow> kr_origin old = KEY_ORIGIN_CONFIG))"
    and prune_result: "ok st \<Longrightarrow> prune_seeded_keys_not_in ops st p keep = (st', rp) \<Longrightarrow> ok st' \<and>
       (case rp of
          Inl e \<Rightarrow> key st' = key st
        | Inr n \<Rightarrow> key st' = (\<lambda>i. case key st i of
              None \<Rightarrow> None
            | Some row \<Rightarrow> if kr_project_id row = p \<and> kr_origin row = KEY_ORIGIN_CONFIG \<and> i \<notin> set keep
                          then None else Some row))"

end
