(* ===== verification/Batch_Log.thy ===== *)
theory Batch_Log
  imports Storage_Models
begin

text \<open>
  The batching worker in front of the SQL log tables, common to \<open>gateway-storage/src/sqlite/logs.rs\<close> and
  \<open>gateway-storage/src/postgres/logs.rs\<close>: request threads put records into a bounded channel without waiting, one task
  takes them out and writes them in batches. \<open>ins\<close> is the effect of one INSERT on the table. The step relation has
  one step per turn of a thread or of the worker, so a run is any interleaving of them.
\<close>

section \<open>The store\<close>

text \<open>A flush request carries the sender on which the worker acknowledges it; a number identifies it.\<close>

datatype log_cmd = Record request_log_record | Flush nat

text \<open>\<open>ls_inserts\<close> are the batches that were sent to the database so far, \<open>ls_acks\<close> the flushes acknowledged so far.\<close>

record 't log_store =
  ls_queue :: "log_cmd list"
  ls_buf :: "request_log_record list"
  ls_table :: 't
  ls_inserts :: "request_log_record list list"
  ls_acks :: "nat list"
  ls_closed :: bool

definition log_store_new :: "'t \<Rightarrow> 't log_store" where
  "log_store_new t = \<lparr>ls_queue = [], ls_buf = [], ls_table = t, ls_inserts = [], ls_acks = [], ls_closed = False\<rparr>"

text \<open>\<open>append\<close>: a full channel drops the record and reports success.\<close>

definition bl_append :: "nat \<Rightarrow> 't log_store \<Rightarrow> request_log_record \<Rightarrow> 't log_store \<times> unit sresult" where
  "bl_append cap st rec =
     (if ls_closed st then (st, Inl (SUnavailable ''log worker stopped''))
      else if cap \<le> length (ls_queue st) then (st, Inr ())
      else (st\<lparr>ls_queue := ls_queue st @ [Record rec]\<rparr>, Inr ()))"

text \<open>\<open>flush_batch\<close>: the buffer is drained into the statement before it is executed.\<close>

definition bl_flush_batch :: "(request_log_record list \<Rightarrow> 't \<Rightarrow> 't) \<Rightarrow> 't log_store \<Rightarrow> 't log_store" where
  "bl_flush_batch ins st =
     (if ls_buf st = [] then st
      else st\<lparr>ls_buf := [], ls_table := ins (ls_buf st) (ls_table st), ls_inserts := ls_inserts st @ [ls_buf st]\<rparr>)"

text \<open>One turn of the worker's loop: a command, or, when there is none, the ticker.\<close>

fun bl_command :: "nat \<Rightarrow> (request_log_record list \<Rightarrow> 't \<Rightarrow> 't) \<Rightarrow> log_cmd \<Rightarrow> 't log_store \<Rightarrow> 't log_store" where
  "bl_command maxrows ins (Record r) st =
     (let st1 = st\<lparr>ls_buf := ls_buf st @ [r]\<rparr>
      in if maxrows \<le> length (ls_buf st1) then bl_flush_batch ins st1 else st1)"
| "bl_command maxrows ins (Flush i) st =
     (let st1 = bl_flush_batch ins st in st1\<lparr>ls_acks := ls_acks st1 @ [i]\<rparr>)"

definition bl_turn :: "nat \<Rightarrow> (request_log_record list \<Rightarrow> 't \<Rightarrow> 't) \<Rightarrow> 't log_store \<Rightarrow> 't log_store" where
  "bl_turn maxrows ins st =
     (case ls_queue st of
        c # cs \<Rightarrow> bl_command maxrows ins c (st\<lparr>ls_queue := cs\<rparr>)
      | [] \<Rightarrow> bl_flush_batch ins st)"

text \<open>\<open>flush\<close>: the request waits for a place in the channel and for the acknowledgement, so when it returns the worker
  has taken everything that was in the channel before it.\<close>

definition bl_flush :: "nat \<Rightarrow> (request_log_record list \<Rightarrow> 't \<Rightarrow> 't) \<Rightarrow> 't log_store \<Rightarrow> 't log_store \<times> unit sresult" where
  "bl_flush maxrows ins st =
     (if ls_closed st then (st, Inl (SUnavailable ''log worker stopped''))
      else (fold (bl_command maxrows ins) (ls_queue st @ [Flush (length (ls_acks st))]) (st\<lparr>ls_queue := []\<rparr>), Inr ()))"

section \<open>Runs\<close>

text \<open>\<open>bl_run acc st\<close>: \<open>st\<close> is reachable and \<open>acc\<close> are the records that were accepted into the channel, in order. Another
  statement on the table (a purge, a repricing) may run in between: \<open>upd\<close> are the effects such statements may have.\<close>

inductive bl_run :: "nat \<Rightarrow> nat \<Rightarrow> (request_log_record list \<Rightarrow> 't \<Rightarrow> 't) \<Rightarrow> ('t \<Rightarrow> 't) set \<Rightarrow> 't \<Rightarrow> request_log_record list \<Rightarrow> 't log_store \<Rightarrow> bool"
  for cap :: nat and maxrows :: nat and ins :: "request_log_record list \<Rightarrow> 't \<Rightarrow> 't" and upd :: "('t \<Rightarrow> 't) set"
    and t0 :: 't where
  start: "bl_run cap maxrows ins upd t0 [] (log_store_new t0)"
| accepted: "bl_run cap maxrows ins upd t0 acc st \<Longrightarrow> \<not> ls_closed st \<Longrightarrow> length (ls_queue st) < cap \<Longrightarrow>
    bl_run cap maxrows ins upd t0 (acc @ [r]) (fst (bl_append cap st r))"
| refused: "bl_run cap maxrows ins upd t0 acc st \<Longrightarrow> ls_closed st \<or> cap \<le> length (ls_queue st) \<Longrightarrow>
    bl_run cap maxrows ins upd t0 acc (fst (bl_append cap st r))"
| flush_sent: "bl_run cap maxrows ins upd t0 acc st \<Longrightarrow> \<not> ls_closed st \<Longrightarrow> length (ls_queue st) < cap \<Longrightarrow>
    bl_run cap maxrows ins upd t0 acc (st\<lparr>ls_queue := ls_queue st @ [Flush i]\<rparr>)"
| turn: "bl_run cap maxrows ins upd t0 acc st \<Longrightarrow> bl_run cap maxrows ins upd t0 acc (bl_turn maxrows ins st)"
| closed: "bl_run cap maxrows ins upd t0 acc st \<Longrightarrow> bl_run cap maxrows ins upd t0 acc (st\<lparr>ls_closed := True\<rparr>)"
| other: "bl_run cap maxrows ins upd t0 acc st \<Longrightarrow> f \<in> upd \<Longrightarrow> bl_run cap maxrows ins upd t0 acc (st\<lparr>ls_table := f (ls_table st)\<rparr>)"

fun queued :: "log_cmd list \<Rightarrow> request_log_record list" where
  "queued [] = []"
| "queued (Record r # cs) = r # queued cs"
| "queued (Flush i # cs) = queued cs"

lemma queued_append [simp]: "queued (cs @ ds) = queued cs @ queued ds"
  by (induction cs rule: queued.induct) simp_all

text \<open>Everything that was accepted, wherever it is now.\<close>

definition pipeline :: "'t log_store \<Rightarrow> request_log_record list" where
  "pipeline st = concat (ls_inserts st) @ ls_buf st @ queued (ls_queue st)"

text \<open>A batch is never empty and never longer than the maximum.\<close>

definition batches_ok :: "nat \<Rightarrow> 't log_store \<Rightarrow> bool" where
  "batches_ok maxrows st \<longleftrightarrow> (\<forall>b \<in> set (ls_inserts st). b \<noteq> [] \<and> length b \<le> maxrows) \<and> length (ls_buf st) < maxrows"

lemma pipeline_flush [simp]: "pipeline (bl_flush_batch ins st) = pipeline st"
  by (simp add: pipeline_def bl_flush_batch_def)

lemma batches_flush: "batches_ok maxrows st \<Longrightarrow> batches_ok maxrows (bl_flush_batch ins st)"
  by (auto simp: batches_ok_def bl_flush_batch_def)

lemma pipeline_command: "pipeline (bl_command maxrows ins c st) = concat (ls_inserts st) @ ls_buf st @ queued (c # ls_queue st)"
  by (cases c) (simp_all add: bl_flush_batch_def pipeline_def Let_def)

lemma batches_command: "0 < maxrows \<Longrightarrow> batches_ok maxrows st \<Longrightarrow> batches_ok maxrows (bl_command maxrows ins c st)"
  by (cases c) (auto simp: bl_flush_batch_def batches_ok_def Let_def)

lemma pipeline_turn [simp]: "pipeline (bl_turn maxrows ins st) = pipeline st"
proof (cases "ls_queue st")
  case Nil
  then show ?thesis by (simp add: bl_turn_def)
next
  case (Cons c cs)
  then show ?thesis by (cases c) (simp_all add: bl_turn_def pipeline_command del: bl_command.simps, simp_all add: pipeline_def)
qed

lemma batches_turn: "0 < maxrows \<Longrightarrow> batches_ok maxrows st \<Longrightarrow> batches_ok maxrows (bl_turn maxrows ins st)"
  by (auto simp: bl_turn_def batches_flush batches_command batches_ok_def [of _ "st\<lparr>ls_queue := _\<rparr>"]
      simp flip: batches_ok_def split: list.split simp del: bl_command.simps)

lemma bl_run_pipeline:
  assumes "bl_run cap maxrows ins upd t0 acc st"
  shows "pipeline st = acc"
  using assms
proof (induction rule: bl_run.induct)
  case (accepted acc st r)
  then show ?case by (simp add: bl_append_def pipeline_def)
next
  case (refused acc st r)
  then show ?case by (auto simp: bl_append_def)
qed (simp_all add: log_store_new_def, simp_all add: pipeline_def)

lemma bl_run_batches:
  assumes "bl_run cap maxrows ins upd t0 acc st" "0 < maxrows"
  shows "batches_ok maxrows st"
  using assms(1)
proof (induction rule: bl_run.induct)
  case (turn acc st)
  with assms(2) show ?case by (simp add: batches_turn)
qed (use assms(2) in \<open>simp_all add: log_store_new_def bl_append_def batches_ok_def\<close>)

text \<open>Without other statements, the table is the result of the batches.\<close>

lemma fold_inserts_command:
  "ls_table st = fold ins (ls_inserts st) t0 \<Longrightarrow>
     ls_table (bl_command maxrows ins c st) = fold ins (ls_inserts (bl_command maxrows ins c st)) t0"
  by (cases c) (simp_all add: bl_flush_batch_def Let_def)

lemma fold_inserts_turn:
  "ls_table st = fold ins (ls_inserts st) t0 \<Longrightarrow>
     ls_table (bl_turn maxrows ins st) = fold ins (ls_inserts (bl_turn maxrows ins st)) t0"
  using fold_inserts_command [of "st\<lparr>ls_queue := tl (ls_queue st)\<rparr>" ins t0 maxrows]
  by (auto simp: bl_turn_def bl_flush_batch_def split: list.split simp del: bl_command.simps)

lemma bl_run_table:
  assumes "bl_run cap maxrows ins {} t0 acc st"
  shows "ls_table st = fold ins (ls_inserts st) t0"
  using assms
  by (induction rule: bl_run.induct) (auto simp: log_store_new_def bl_append_def fold_inserts_turn)

section \<open>The worker drains the channel\<close>

lemma queue_flush_batch [simp]: "ls_queue (bl_flush_batch ins st) = ls_queue st"
  by (simp add: bl_flush_batch_def)

lemma queue_command [simp]: "ls_queue (bl_command maxrows ins c st) = ls_queue st"
  by (cases c) (simp_all add: Let_def)

lemma queue_turn: "ls_queue (bl_turn maxrows ins st) = tl (ls_queue st)"
  by (simp add: bl_turn_def split: list.split)

lemma bl_run_queue:
  assumes "bl_run cap maxrows ins upd t0 acc st"
  shows "length (ls_queue st) \<le> cap"
  using assms by (induction rule: bl_run.induct) (auto simp: log_store_new_def bl_append_def queue_turn)

lemma turns_drain:
  "ls_queue ((bl_turn maxrows ins ^^ length (ls_queue st)) st) = []"
  "ls_buf (bl_turn maxrows ins ((bl_turn maxrows ins ^^ length (ls_queue st)) st)) = []"
proof -
  show q: "ls_queue ((bl_turn maxrows ins ^^ length (ls_queue st)) st) = []"
  proof -
    have "ls_queue ((bl_turn maxrows ins ^^ n) st) = drop n (ls_queue st)" for n
      by (induction n) (simp_all add: queue_turn drop_Suc tl_drop)
    then show ?thesis by simp
  qed
  then show "ls_buf (bl_turn maxrows ins ((bl_turn maxrows ins ^^ length (ls_queue st)) st)) = []"
    by (simp add: bl_turn_def bl_flush_batch_def)
qed

lemma pipeline_turns: "pipeline ((bl_turn maxrows ins ^^ n) st) = pipeline st"
  by (induction n) simp_all

lemma bl_flush_result:
  assumes "\<not> ls_closed st"
  shows "\<exists>st'. bl_flush maxrows ins st = (st', Inr ()) \<and> ls_queue st' = [] \<and> ls_buf st' = []
    \<and> concat (ls_inserts st') = pipeline st \<and> ls_acks st' \<noteq> []"
proof -
  define st0 where "st0 = st\<lparr>ls_queue := []\<rparr>"
  have fold: "pipeline (fold (bl_command maxrows ins) cs s) = pipeline s @ queued cs \<and> ls_queue (fold (bl_command maxrows ins) cs s) = []"
    if "ls_queue s = []" for cs and s :: "'a log_store" using that
  proof (induction cs arbitrary: s)
    case (Cons c cs)
    have q: "ls_queue (bl_command maxrows ins c s) = []" using Cons.prems by (cases c) (simp_all add: bl_flush_batch_def Let_def)
    have "pipeline (bl_command maxrows ins c s) = pipeline s @ queued [c]"
      using Cons.prems pipeline_command [of maxrows ins c s] by (simp add: pipeline_def [of s])
    with Cons.IH [OF q] show ?case by (cases c) (simp_all del: bl_command.simps)
  qed simp
  let ?st = "fold (bl_command maxrows ins) (ls_queue st) st0"
  have p: "pipeline ?st = pipeline st" "ls_queue ?st = []"
    using fold [of st0 "ls_queue st"] by (simp_all add: st0_def, simp_all add: pipeline_def)
  then have "concat (ls_inserts (bl_flush_batch ins ?st)) = pipeline st" "ls_buf (bl_flush_batch ins ?st) = []"
      "ls_queue (bl_flush_batch ins ?st) = []"
    by (auto simp: pipeline_def bl_flush_batch_def)
  then show ?thesis using assms by (simp add: bl_flush_def Let_def st0_def)
qed

end
