(* ===== verification/Sql.thy ===== *)
theory Sql
  imports Storage_Models
begin

text \<open>
  The relational tables behind the SQLite and PostgreSQL stores and the statements the two stores run on them.
  The tables and their constraints are those of \<open>migrations/sqlite\<close> and \<open>migrations/postgres\<close>, which agree.
  A table is the list of its rows; the order of the list stands for the order in which a scan
  meets them. A statement is atomic: it fails without effect, because the connection fails or because
  a constraint is violated, or it takes effect as a whole. What the database answers to the statements
  of one operation is the environment's choice: \<open>db_fault db i\<close> is the failure of its \<open>i\<close>-th statement, if any.
\<close>

section \<open>Errors and statements\<close>

datatype sql_error = ConnError string | UniqueViolation string | ForeignKeyViolation | NotNullViolation string
  | RowNotFound | OutOfRange

text \<open>What the stores use of other libraries: the message of a database error and serde's printing and
  parsing of JSON columns.\<close>

record sql_ext =
  sx_msg :: "sql_error \<Rightarrow> string"
  sx_enc_scopes :: "string list \<Rightarrow> string"
  sx_dec_scopes :: "string \<Rightarrow> string + string list"
  sx_enc :: "json \<Rightarrow> string"
  sx_dec :: "string \<Rightarrow> string + json"

definition upd_where :: "('r \<Rightarrow> bool) \<Rightarrow> ('r \<Rightarrow> 'r) \<Rightarrow> 'r list \<Rightarrow> 'r list" where
  "upd_where P f tbl = map (\<lambda>r. if P r then f r else r) tbl"

definition count_where :: "('r \<Rightarrow> bool) \<Rightarrow> 'r list \<Rightarrow> nat" where
  "count_where P tbl = length (filter P tbl)"

definition has_where :: "('r \<Rightarrow> bool) \<Rightarrow> 'r list \<Rightarrow> bool" where
  "has_where P tbl = list_ex P tbl"

section \<open>Tables\<close>

record key_tuple =
  kt_id :: string
  kt_project_id :: string
  kt_name :: string
  kt_prefix :: string
  kt_hash :: bytes
  kt_last4 :: string
  kt_scopes :: string
  kt_status :: string
  kt_expires_at :: "timestamp option"
  kt_last_used_at :: "timestamp option"
  kt_created_at :: timestamp
  kt_revoked_at :: "timestamp option"
  kt_origin :: string

record route_tuple =
  rt_project_id :: string
  rt_config :: string
  rt_version :: int
  rt_updated_at :: timestamp

record pricing_tuple =
  pt_row :: pricing_row
  pt_effective_from :: int

record budget_tuple =
  bt_id :: string
  bt_name :: string
  bt_target_type :: string
  bt_target_id :: string
  bt_period :: string
  bt_amount_usd :: f64
  bt_thresholds :: string
  bt_status :: string

record sql_db =
  t_projects :: "project list"
  t_keys :: "key_tuple list"
  t_routes :: "route_tuple list"
  t_pricing :: "pricing_tuple list"
  t_budgets :: "budget_tuple list"
  t_admins :: "admin_user list"
  db_fault :: "nat \<Rightarrow> string option"

definition sql_db_new :: sql_db where
  "sql_db_new = \<lparr>t_projects = [], t_keys = [], t_routes = [], t_pricing = [], t_budgets = [], t_admins = [],
     db_fault = (\<lambda>i. None)\<rparr>"

text \<open>\<open>execute\<close> gives the number of affected rows, \<open>fetch\<close> the rows.\<close>

type_synonym sql_update = "sql_db \<Rightarrow> sql_error + sql_db \<times> nat"

definition execute :: "sql_db \<Rightarrow> nat \<Rightarrow> sql_update \<Rightarrow> sql_db \<times> (sql_error + nat)" where
  "execute db i stmt =
     (case db_fault db i of
        Some m \<Rightarrow> (db, Inl (ConnError m))
      | None \<Rightarrow> (case stmt db of Inl e \<Rightarrow> (db, Inl e) | Inr (db', n) \<Rightarrow> (db', Inr n)))"

definition fetch :: "sql_db \<Rightarrow> nat \<Rightarrow> (sql_db \<Rightarrow> 'a) \<Rightarrow> sql_error + 'a" where
  "fetch db i q = (case db_fault db i of Some m \<Rightarrow> Inl (ConnError m) | None \<Rightarrow> Inr (q db))"

text \<open>The \<open>?\<close> on a database result: the error becomes \<open>StorageError::Database\<close>.\<close>

definition db_error :: "sql_ext \<Rightarrow> sql_error \<Rightarrow> storage_error" where
  "db_error x e = SDatabase (sx_msg x e)"

definition executed :: "sql_ext \<Rightarrow> sql_db \<times> (sql_error + nat) \<Rightarrow> (nat \<Rightarrow> 'a sresult) \<Rightarrow> sql_db \<times> 'a sresult" where
  "executed x res k = (case res of (db, Inl e) \<Rightarrow> (db, Inl (db_error x e)) | (db, Inr n) \<Rightarrow> (db, k n))"

definition fetched :: "sql_ext \<Rightarrow> sql_error + 'r \<Rightarrow> ('r \<Rightarrow> 'a sresult) \<Rightarrow> 'a sresult" where
  "fetched x res k = (case res of Inl e \<Rightarrow> Inl (db_error x e) | Inr r \<Rightarrow> k r)"

section \<open>Statements on projects and keys\<close>

definition project_exists :: "sql_db \<Rightarrow> string \<Rightarrow> bool" where
  "project_exists db p = has_where (\<lambda>r. pj_id r = p) (t_projects db)"

definition insert_project :: "project \<Rightarrow> sql_update" where
  "insert_project p db =
     (if project_exists db (pj_id p) then Inl (UniqueViolation ''projects.id'')
      else Inr (db\<lparr>t_projects := t_projects db @ [p]\<rparr>, 1))"

definition insert_key :: "key_tuple \<Rightarrow> sql_update" where
  "insert_key t db =
     (if has_where (\<lambda>r. kt_id r = kt_id t) (t_keys db) then Inl (UniqueViolation ''gateway_keys.id'')
      else if \<not> project_exists db (kt_project_id t) then Inl ForeignKeyViolation
      else Inr (db\<lparr>t_keys := t_keys db @ [t]\<rparr>, 1))"

text \<open>\<open>INSERT ... ON CONFLICT(id) DO UPDATE\<close> as the seeding writes it: an existing row keeps its creation
  time, its last use and its origin.\<close>

definition conflict_update :: "key_tuple \<Rightarrow> key_tuple \<Rightarrow> key_tuple" where
  "conflict_update t r = r\<lparr>kt_project_id := kt_project_id t, kt_name := kt_name t, kt_prefix := kt_prefix t,
     kt_hash := kt_hash t, kt_last4 := kt_last4 t, kt_scopes := kt_scopes t, kt_status := ''active'',
     kt_expires_at := kt_expires_at t, kt_revoked_at := None\<rparr>"

definition upsert_key :: "key_tuple \<Rightarrow> sql_update" where
  "upsert_key t db =
     (if \<not> project_exists db (kt_project_id t) then Inl ForeignKeyViolation
      else if has_where (\<lambda>r. kt_id r = kt_id t) (t_keys db)
      then Inr (db\<lparr>t_keys := upd_where (\<lambda>r. kt_id r = kt_id t) (conflict_update t) (t_keys db)\<rparr>, 1)
      else Inr (db\<lparr>t_keys := t_keys db @ [t]\<rparr>, 1))"

definition update_keys :: "(key_tuple \<Rightarrow> bool) \<Rightarrow> (key_tuple \<Rightarrow> key_tuple) \<Rightarrow> sql_update" where
  "update_keys P f db = Inr (db\<lparr>t_keys := upd_where P f (t_keys db)\<rparr>, count_where P (t_keys db))"

definition delete_keys :: "(key_tuple \<Rightarrow> bool) \<Rightarrow> sql_update" where
  "delete_keys P db = Inr (db\<lparr>t_keys := filter (\<lambda>r. \<not> P r) (t_keys db)\<rparr>, count_where P (t_keys db))"

definition select_keys :: "(key_tuple \<Rightarrow> bool) \<Rightarrow> sql_db \<Rightarrow> key_tuple list" where
  "select_keys P db = filter P (t_keys db)"

definition select_key :: "(key_tuple \<Rightarrow> bool) \<Rightarrow> sql_db \<Rightarrow> key_tuple option" where
  "select_key P db = List.find P (t_keys db)"

section \<open>Statements on routes, budgets, prices and administrators\<close>

definition upsert_route :: "route_tuple \<Rightarrow> sql_update" where
  "upsert_route t db =
     (if \<not> project_exists db (rt_project_id t) then Inl ForeignKeyViolation
      else if has_where (\<lambda>r. rt_project_id r = rt_project_id t) (t_routes db)
      then Inr (db\<lparr>t_routes := upd_where (\<lambda>r. rt_project_id r = rt_project_id t) (\<lambda>r. t) (t_routes db)\<rparr>, 1)
      else Inr (db\<lparr>t_routes := t_routes db @ [t]\<rparr>, 1))"

definition upsert_budget_row :: "budget_tuple \<Rightarrow> sql_update" where
  "upsert_budget_row t db =
     (if has_where (\<lambda>r. bt_id r = bt_id t) (t_budgets db)
      then Inr (db\<lparr>t_budgets := upd_where (\<lambda>r. bt_id r = bt_id t) (\<lambda>r. t) (t_budgets db)\<rparr>, 1)
      else Inr (db\<lparr>t_budgets := t_budgets db @ [t]\<rparr>, 1))"

definition pricing_key :: "pricing_tuple \<Rightarrow> string \<times> string \<times> int" where
  "pricing_key t = (pr_provider (pt_row t), pr_model (pt_row t), pt_effective_from t)"

definition upsert_pricing_row :: "pricing_tuple \<Rightarrow> sql_update" where
  "upsert_pricing_row t db =
     (if has_where (\<lambda>r. pricing_key r = pricing_key t) (t_pricing db)
      then Inr (db\<lparr>t_pricing := upd_where (\<lambda>r. pricing_key r = pricing_key t) (\<lambda>r. t) (t_pricing db)\<rparr>, 1)
      else Inr (db\<lparr>t_pricing := t_pricing db @ [t]\<rparr>, 1))"

definition delete_pricing_rows :: "string \<Rightarrow> string \<Rightarrow> sql_update" where
  "delete_pricing_rows provider model db =
     (let P = (\<lambda>t. pr_provider (pt_row t) = provider \<and> pr_model (pt_row t) = model)
      in Inr (db\<lparr>t_pricing := filter (\<lambda>t. \<not> P t) (t_pricing db)\<rparr>, count_where P (t_pricing db)))"

definition insert_admin :: "admin_user \<Rightarrow> sql_update" where
  "insert_admin u db =
     (if has_where (\<lambda>r. au_id r = au_id u) (t_admins db) then Inl (UniqueViolation ''admin_users.id'')
      else if has_where (\<lambda>r. au_username r = au_username u) (t_admins db) then Inl (UniqueViolation ''admin_users.username'')
      else Inr (db\<lparr>t_admins := t_admins db @ [u]\<rparr>, 1))"

definition update_admins :: "(admin_user \<Rightarrow> bool) \<Rightarrow> (admin_user \<Rightarrow> admin_user) \<Rightarrow> sql_update" where
  "update_admins P f db = Inr (db\<lparr>t_admins := upd_where P f (t_admins db)\<rparr>, count_where P (t_admins db))"

section \<open>Tables as maps\<close>

text \<open>A table read by its key is a hash map; the statements on the table are the map's operations.\<close>

definition hm_by :: "('r \<Rightarrow> 'k) \<Rightarrow> ('r \<Rightarrow> 'v) \<Rightarrow> 'r list \<Rightarrow> ('k, 'v) hmap" where
  "hm_by key val tbl = map (\<lambda>r. (key r, val r)) tbl"

lemma has_where_iff [simp]: "has_where P tbl \<longleftrightarrow> (\<exists>r \<in> set tbl. P r)"
  by (simp add: has_where_def list_ex_iff)

lemma hm_by_get [simp]: "hm_get (hm_by key val tbl) k = map_option val (List.find (\<lambda>r. key r = k) tbl)"
  by (induction tbl) (auto simp: hm_by_def hm_get_def)

lemma hm_by_values [simp]: "hm_values (hm_by key val tbl) = map val tbl"
  by (induction tbl) (auto simp: hm_by_def hm_values_def)

lemma hm_by_wf: "hm_wf (hm_by key val tbl) \<longleftrightarrow> distinct (map key tbl)"
  by (simp add: hm_by_def hm_wf_def comp_def)

lemma hm_by_remove [simp]: "hm_remove k (hm_by key val tbl) = hm_by key val (filter (\<lambda>r. key r \<noteq> k) tbl)"
  by (induction tbl) (auto simp: hm_by_def hm_remove_def AList.delete_eq)

lemma hm_by_fold_remove:
  "fold hm_remove ks (hm_by key val tbl) = hm_by key val (filter (\<lambda>r. key r \<notin> set ks) tbl)"
  by (induction ks arbitrary: tbl) (auto intro!: arg_cong [where f = "hm_by key val"] filter_cong)

lemma hm_by_append:
  assumes "\<forall>r' \<in> set tbl. key r' \<noteq> k" "key r = k" "val r = v"
  shows "hm_insert k v (hm_by key val tbl) = hm_by key val (tbl @ [r])"
  using assms by (induction tbl) (auto simp: hm_by_def hm_insert_def)

lemma hm_by_update:
  assumes "distinct (map key tbl)" "List.find (\<lambda>r. key r = k) tbl = Some r" "\<And>r. key r = k \<Longrightarrow> key (f r) = k"
    and "val (f r) = v"
  shows "hm_insert k v (hm_by key val tbl) = hm_by key val (upd_where (\<lambda>r. key r = k) f tbl)"
  using assms
proof (induction tbl)
  case (Cons a tbl)
  show ?case
  proof (cases "key a = k")
    case True
    have "map (\<lambda>r. (key (if key r = k then f r else r), val (if key r = k then f r else r))) tbl = map (\<lambda>r. (key r, val r)) tbl"
      using Cons.prems(1) True by (force simp: image_iff)
    with True Cons.prems show ?thesis by (auto simp: hm_by_def hm_insert_def upd_where_def)
  next
    case False
    with Cons show ?thesis by (auto simp: hm_by_def hm_insert_def upd_where_def)
  qed
qed simp

lemma find_in_set: "List.find P xs = Some r \<Longrightarrow> r \<in> set xs \<and> P r"
  by (auto simp: find_Some_iff)

lemma find_exists: "(\<exists>r \<in> set xs. P r) \<longleftrightarrow> List.find P xs \<noteq> None"
  by (auto simp: find_None_iff)

lemma find_snoc: "\<forall>r \<in> set xs. \<not> P r \<Longrightarrow> P y \<Longrightarrow> List.find P (xs @ [y]) = Some y"
  by (induction xs) auto

lemma upd_where_none: "(\<And>r. r \<in> set tbl \<Longrightarrow> \<not> P r) \<Longrightarrow> upd_where P f tbl = tbl"
  unfolding upd_where_def by (rule map_idI) simp

lemma upd_where_keys:
  assumes "\<And>r. P r \<Longrightarrow> key (f r) = key r"
  shows "map key (upd_where P f tbl) = map key tbl"
  using assms by (simp add: upd_where_def)

lemma in_upd_where: "r \<in> set (upd_where P f tbl) \<longleftrightarrow> (\<exists>r' \<in> set tbl. r = (if P r' then f r' else r'))"
  by (auto simp: upd_where_def)

lemma find_upd_where:
  assumes "\<And>r. P r \<Longrightarrow> key (f r) = key r"
  shows "List.find (\<lambda>r. key r = k) (upd_where P f tbl) =
    map_option (\<lambda>r. if P r then f r else r) (List.find (\<lambda>r. key r = k) tbl)"
  using assms by (induction tbl) (auto simp: upd_where_def)

lemma count_where_eq_0 [simp]: "count_where P tbl = 0 \<longleftrightarrow> (\<forall>r \<in> set tbl. \<not> P r)"
  by (simp add: count_where_def filter_empty_conv)

section \<open>Outcomes of statements\<close>

lemma executed_Inr:
  "executed x (execute db i stmt) k = (db', Inr v) \<longleftrightarrow>
     db_fault db i = None \<and> (\<exists>n. stmt db = Inr (db', n) \<and> k n = Inr v)"
  by (auto simp: executed_def execute_def split: option.splits sum.splits prod.splits)

lemma fetched_Inr:
  "fetched x (fetch db i q) k = Inr v \<longleftrightarrow> db_fault db i = None \<and> k (q db) = Inr v"
  by (auto simp: fetched_def fetch_def split: option.splits)

lemma executed_cases:
  "executed x (execute db i stmt) k = (db', r) \<Longrightarrow>
     (db' = db \<and> (\<exists>e. r = Inl (db_error x e))) \<or> (db_fault db i = None \<and> (\<exists>n. stmt db = Inr (db', n) \<and> r = k n))"
  by (auto simp: executed_def execute_def split: option.splits sum.splits prod.splits)

end
