(* ===== verification/Pricing.thy ===== *)
theory Pricing
  imports Errors
begin

text \<open>
  Model prices: \<open>gateway-core/src/pricing/\<close> (\<open>catalog.rs\<close>, \<open>openrouter.rs\<close>,
  \<open>calculator.rs\<close>). Deserialising JSON text into the file's structs is serde's work and a
  parameter; what the code does with the result is modelled, the parsing of decimal prices included.
\<close>

named_theorems catalog_simps \<open>equations on catalogs\<close>

section \<open>Catalogs\<close>

record pricing_entry =
  pe_provider :: string
  pe_model :: string
  input_per_1k :: f64
  output_per_1k :: f64
  cached_input_per_1k :: "f64 option"

record pricing_catalog =
  by_key :: "(string \<times> string, pricing_entry) hmap"
  openrouter :: "(string, pricing_entry) hmap"
  openrouter_by_slug :: "(string, string) hmap"
  openrouter_by_slug_model :: "(string, string) hmap"
  openrouter_by_id_model :: "(string, string) hmap"
  openrouter_slugs :: "(string, string) hmap"

definition catalog_default :: pricing_catalog where
  "catalog_default = \<lparr>by_key = [], openrouter = [], openrouter_by_slug = [],
     openrouter_by_slug_model = [], openrouter_by_id_model = [], openrouter_slugs = []\<rparr>"

definition insert_entries ::
  "pricing_entry list \<Rightarrow> (string \<times> string, pricing_entry) hmap \<Rightarrow> (string \<times> string, pricing_entry) hmap" where
  "insert_entries es m = fold (\<lambda>e. hm_insert (pe_provider e, pe_model e) e) es m"

definition catalog_from_str :: "(string \<Rightarrow> string + pricing_entry list) \<Rightarrow> string \<Rightarrow> gateway_error + pricing_catalog" where
  "catalog_from_str parse_file txt =
     (case parse_file txt of
        Inl e \<Rightarrow> Inl (Internal (''pricing catalog parse: '' @ e))
      | Inr models \<Rightarrow> Inr (catalog_default\<lparr>by_key := insert_entries models []\<rparr>))"

text \<open>Reading a file: \<^const>\<open>None\<close> stands for a file that does not exist.\<close>

definition catalog_from_optional_path ::
  "(string \<Rightarrow> string + pricing_entry list) \<Rightarrow> (string \<Rightarrow> (string + string) option) \<Rightarrow> string
     \<Rightarrow> gateway_error + pricing_catalog" where
  "catalog_from_optional_path parse_file read_file path =
     (case read_file path of
        Some (Inr txt) \<Rightarrow> catalog_from_str parse_file txt
      | None \<Rightarrow> Inr catalog_default
      | Some (Inl e) \<Rightarrow> Inl (Internal (''read catalog '' @ path @ '': '' @ e)))"

definition with_overrides :: "pricing_catalog \<Rightarrow> pricing_entry list \<Rightarrow> pricing_catalog" where
  "with_overrides cat overrides = cat\<lparr>by_key := insert_entries overrides (by_key cat)\<rparr>"

definition shadowed :: "pricing_catalog \<Rightarrow> pricing_entry \<Rightarrow> bool" where
  "shadowed cat e \<longleftrightarrow>
     hm_contains (by_key cat) (pe_provider e, pe_model e)
     \<or> (case hm_get (openrouter_slugs cat) (pe_model e) of
          Some slug \<Rightarrow> hm_contains (by_key cat) (pe_provider e, slug)
        | None \<Rightarrow> False)"

definition catalog_entries :: "pricing_catalog \<Rightarrow> pricing_entry list" where
  "catalog_entries cat =
     hm_values (by_key cat) @ filter (\<lambda>e. \<not> shadowed cat e) (hm_values (openrouter cat))"

definition catalog_source :: "pricing_catalog \<Rightarrow> string \<Rightarrow> string \<Rightarrow> string" where
  "catalog_source cat provider model =
     (if hm_contains (by_key cat) (provider, model) then ''catalog'' else ''openrouter'')"

definition strip_date :: "string \<Rightarrow> string option" where
  "strip_date model =
     Option.bind (rsplit_once (CHR ''-'') model)
       (\<lambda>(pre, suf). if list_all is_ascii_digit suf then Some pre else None)"

definition openrouter_entry :: "pricing_catalog \<Rightarrow> string \<Rightarrow> pricing_entry option" where
  "openrouter_entry cat model =
     or_else
       (or_else
         (Option.bind
           (or_else (hm_get (openrouter_by_slug cat) model) (hm_get (openrouter_by_slug_model cat) model))
           (hm_get (openrouter cat)))
         (hm_get (openrouter cat) model))
       (Option.bind (hm_get (openrouter_by_id_model cat) model) (hm_get (openrouter cat)))"

definition openrouter_lookup :: "pricing_catalog \<Rightarrow> string \<Rightarrow> string \<Rightarrow> pricing_entry option" where
  "openrouter_lookup cat provider model =
     Option.bind (openrouter_entry cat model) (\<lambda>entry.
     Option.bind (hm_get (openrouter_slugs cat) (pe_model entry)) (\<lambda>slug.
       (case List.find (\<lambda>k. hm_contains (by_key cat) k)
               [(scope, name). scope \<leftarrow> [provider, ''*''], name \<leftarrow> [pe_model entry, slug]] of
          Some k \<Rightarrow> hm_get (by_key cat) k
        | None \<Rightarrow> Some entry)))"

definition lookup :: "pricing_catalog \<Rightarrow> string \<Rightarrow> string \<Rightarrow> pricing_entry option" where
  "lookup cat provider model =
     or_else
       (or_else
         (or_else (hm_get (by_key cat) (provider, model))
           (Option.bind (strip_date model) (\<lambda>m. hm_get (by_key cat) (provider, m))))
         (hm_get (by_key cat) (''*'', model)))
       (openrouter_lookup cat provider model)"

section \<open>Decimal prices\<close>

text \<open>\<open>str::parse::<f64>\<close>: the decimal value, correctly rounded.\<close>

definition digits_value :: "string \<Rightarrow> nat" where
  "digits_value s = foldl (\<lambda>n c. 10 * n + (byte c - 48)) 0 s"

definition is_exp_char :: "char \<Rightarrow> bool" where
  "is_exp_char c \<longleftrightarrow> c = CHR ''e'' \<or> c = CHR ''E''"

definition strip_sign :: "string \<Rightarrow> bool \<times> string" where
  "strip_sign s =
     (case s of
        [] \<Rightarrow> (False, [])
      | c # cs \<Rightarrow> if c = CHR ''-'' then (True, cs) else if c = CHR ''+'' then (False, cs) else (False, s))"

definition parse_exponent :: "string \<Rightarrow> int option" where
  "parse_exponent s =
     (let (neg, ds) = strip_sign s in
      map_option (\<lambda>n. if neg then - int n else int n) (parse_digits ds))"

definition parse_mantissa :: "string \<Rightarrow> (nat \<times> nat) option" where
  "parse_mantissa s =
     (let (ip, fp) = (case split_once (CHR ''.'') s of None \<Rightarrow> (s, []) | Some p \<Rightarrow> p) in
      if list_all is_ascii_digit (ip @ fp) \<and> ip @ fp \<noteq> []
      then Some (digits_value (ip @ fp), length fp) else None)"

definition parse_decimal :: "string \<Rightarrow> rat option" where
  "parse_decimal s =
     (let m = takeWhile (\<lambda>c. \<not> is_exp_char c) s;
          rest = dropWhile (\<lambda>c. \<not> is_exp_char c) s
      in Option.bind (parse_mantissa m) (\<lambda>(n, fl).
         Option.bind (if rest = [] then Some 0 else parse_exponent (tl rest)) (\<lambda>e.
           Some (of_nat n * 10 powi (e - int fl)))))"

definition parse_f64 :: "string \<Rightarrow> f64 option" where
  "parse_f64 s =
     (let (neg, r) = strip_sign s; low = to_ascii_lowercase r in
      if low = ''inf'' \<or> low = ''infinity'' then Some (Infinity neg)
      else if low = ''nan'' then Some NaN
      else map_option (\<lambda>q. f64_round (if neg then - q else q)) (parse_decimal r))"

definition per_1k :: "string \<Rightarrow> f64 option" where
  "per_1k value =
     Option.bind (parse_f64 value) (\<lambda>v.
       let price = f64_mul v (Finite 1000) in
       if f64_is_finite price \<and> f64_le f64_0 price then Some price else None)"

section \<open>OpenRouter price lists\<close>

record or_price =
  prompt_price :: string
  completion_price :: string
  input_cache_read :: "string option"

record or_model =
  om_id :: string
  canonical_slug :: string
  om_pricing :: or_price

fun alias_loop ::
  "(string \<times> string) list \<Rightarrow> (string, string) hmap \<Rightarrow> string list \<Rightarrow> (string, string) hmap \<times> string list" where
  "alias_loop [] aliases ambiguous = (aliases, ambiguous)"
| "alias_loop ((name, ident) # names) aliases ambiguous =
     (let short = rsplit_last (CHR ''/'') name;
          aliases' = hm_insert short ident aliases
      in case hm_get aliases short of
           Some previous \<Rightarrow>
             alias_loop names aliases' (if previous \<noteq> ident then List.insert short ambiguous else ambiguous)
         | None \<Rightarrow> alias_loop names aliases' ambiguous)"

definition unique_last_segments :: "(string \<times> string) list \<Rightarrow> (string, string) hmap" where
  "unique_last_segments names =
     (let (aliases, ambiguous) = alias_loop names [] [] in
      filter (\<lambda>(name, _). name \<notin> set ambiguous) aliases)"

definition has_variant :: "json \<Rightarrow> bool" where
  "has_variant v =
     (case Option.bind (json_get v ''id'') as_str of Some ident \<Rightarrow> CHR '':'' \<in> set ident | None \<Rightarrow> False)"

definition add_model :: "pricing_catalog \<Rightarrow> or_model \<Rightarrow> pricing_catalog" where
  "add_model cat m =
     (let slug = canonical_slug m in
      if slug = [] \<or> ends_with slug ''/'' then cat
      else (let ident = (if om_id m = [] then slug else om_id m) in
        if ends_with ident ''/'' \<or> hm_contains (openrouter cat) ident then cat
        else (case (per_1k (prompt_price (om_pricing m)), per_1k (completion_price (om_pricing m))) of
            (Some inp, Some out) \<Rightarrow>
              (case (case input_cache_read (om_pricing m) of
                       None \<Rightarrow> Some None
                     | Some v \<Rightarrow> map_option Some (per_1k v)) of
                 None \<Rightarrow> cat
               | Some cached \<Rightarrow>
                   cat\<lparr>openrouter_by_slug :=
                         (if hm_contains (openrouter_by_slug cat) slug then openrouter_by_slug cat
                          else hm_insert slug ident (openrouter_by_slug cat)),
                       openrouter_slugs := hm_insert ident slug (openrouter_slugs cat),
                       openrouter := hm_insert ident
                         \<lparr>pe_provider = ''*'', pe_model = ident, input_per_1k = inp, output_per_1k = out,
                          cached_input_per_1k = cached\<rparr> (openrouter cat)\<rparr>)
          | _ \<Rightarrow> cat)))"

text \<open>\<open>from_str\<close> reads the response's \<open>data\<close> array, \<open>from_value\<close> one model of it.\<close>

definition parse_openrouter ::
  "(string \<Rightarrow> string + json list) \<Rightarrow> (json \<Rightarrow> or_model option) \<Rightarrow> string \<Rightarrow> gateway_error + pricing_catalog" where
  "parse_openrouter from_str from_value txt =
     (case from_str txt of
        Inl e \<Rightarrow> Inl (Serde e)
      | Inr dat \<Rightarrow>
          (let values = sort_key has_variant dat;
               cat = fold (\<lambda>v cat. case from_value v of None \<Rightarrow> cat | Some m \<Rightarrow> add_model cat m) values catalog_default
           in if openrouter cat = []
              then Inl (Internal ''OpenRouter returned no usable model prices'')
              else Inr (cat\<lparr>openrouter_by_slug_model := unique_last_segments (openrouter_by_slug cat),
                            openrouter_by_id_model :=
                              unique_last_segments (map (\<lambda>i. (i, i)) (hm_keys (openrouter cat)))\<rparr>)))"

section \<open>Costs\<close>

record token_usage =
  tu_prompt :: int
  tu_completion :: int
  tu_cached :: int

record cost_breakdown =
  cb_cost_usd :: f64
  cb_would_have_cost_usd :: f64

definition round6 :: "f64 \<Rightarrow> f64" where
  "round6 v = f64_div (f64_round_away (f64_mul v (Finite 1000000))) (Finite 1000000)"

definition per_thousand :: "f64 \<Rightarrow> f64 \<Rightarrow> f64" where
  "per_thousand tokens rate = f64_div (f64_mul tokens rate) (Finite 1000)"

definition apply_price :: "pricing_entry \<Rightarrow> token_usage \<Rightarrow> cost_breakdown" where
  "apply_price entry u =
     (let cached_input_rate = unwrap_or (cached_input_per_1k entry) (input_per_1k entry);
          billable_prompt = f64_of_int (max (wrap_i64 (tu_prompt u - tu_cached u)) 0);
          cached_prompt = f64_of_int (max (tu_cached u) 0);
          completion = f64_of_int (max (tu_completion u) 0);
          cost = f64_add (f64_add (per_thousand billable_prompt (input_per_1k entry))
                                  (per_thousand cached_prompt cached_input_rate))
                         (per_thousand completion (output_per_1k entry))
      in \<lparr>cb_cost_usd = round6 cost, cb_would_have_cost_usd = round6 cost\<rparr>)"

definition compute_cost :: "pricing_catalog \<Rightarrow> string \<Rightarrow> string \<Rightarrow> token_usage \<Rightarrow> cost_breakdown option" where
  "compute_cost cat provider model usage = map_option (\<lambda>e. apply_price e usage) (lookup cat provider model)"

section \<open>Well-formed catalogs\<close>

definition price_ok :: "f64 \<Rightarrow> bool" where
  "price_ok x \<longleftrightarrow> f64_is_finite x \<and> f64_le f64_0 x"

definition entry_ok :: "pricing_entry \<Rightarrow> bool" where
  "entry_ok e \<longleftrightarrow> price_ok (input_per_1k e) \<and> price_ok (output_per_1k e)
     \<and> (\<forall>c. cached_input_per_1k e = Some c \<longrightarrow> price_ok c)"

definition local_wf :: "pricing_catalog \<Rightarrow> bool" where
  "local_wf cat \<longleftrightarrow> (\<forall>k e. hm_get (by_key cat) k = Some e \<longrightarrow> k = (pe_provider e, pe_model e))"

text \<open>The remote part: entries are filed under their id, have a slug and usable prices, and every
  alias points at an entry.\<close>

definition remote_wf :: "pricing_catalog \<Rightarrow> bool" where
  "remote_wf cat \<longleftrightarrow> hm_wf (openrouter_by_slug cat) \<and>
     (\<forall>i e. hm_get (openrouter cat) i = Some e \<longrightarrow>
        pe_model e = i \<and> pe_provider e = ''*'' \<and> entry_ok e \<and> hm_contains (openrouter_slugs cat) i)
     \<and> (\<forall>s i. hm_get (openrouter_by_slug cat) s = Some i \<longrightarrow> hm_contains (openrouter cat) i)"

lemma per_1k_ok: "per_1k v = Some x \<Longrightarrow> price_ok x"
  by (auto simp: per_1k_def price_ok_def Let_def split: bind_splits if_splits)

lemma remote_wf_add_model:
  assumes "remote_wf cat"
  shows "remote_wf (add_model cat m)"
  using assms
  by (auto simp: add_model_def remote_wf_def Let_def hm_contains_get entry_ok_def
      dest: per_1k_ok split: option.splits if_splits)

lemma by_key_add_model [simp]: "by_key (add_model cat m) = by_key cat"
  by (simp add: add_model_def Let_def split: option.split)

lemma fold_add_model:
  "remote_wf cat \<Longrightarrow> by_key cat = [] \<Longrightarrow>
   remote_wf (fold (\<lambda>v cat. case fv v of None \<Rightarrow> cat | Some m \<Rightarrow> add_model cat m) vs cat)
   \<and> by_key (fold (\<lambda>v cat. case fv v of None \<Rightarrow> cat | Some m \<Rightarrow> add_model cat m) vs cat) = []"
  by (induction vs arbitrary: cat) (auto simp: remote_wf_add_model split: option.split)

lemma remote_wf_default: "remote_wf catalog_default"
  by (simp add: remote_wf_def catalog_default_def)

lemma parse_openrouter_cases:
  assumes "parse_openrouter from_str from_value txt = Inr cat"
  obtains c where "remote_wf c" "by_key c = []" "openrouter c \<noteq> []"
    "cat = c\<lparr>openrouter_by_slug_model := unique_last_segments (openrouter_by_slug c),
            openrouter_by_id_model := unique_last_segments (map (\<lambda>i. (i, i)) (hm_keys (openrouter c)))\<rparr>"
  using assms fold_add_model [OF remote_wf_default, of from_value]
  by (auto simp: parse_openrouter_def Let_def catalog_default_def split: sum.splits if_splits)

section \<open>Short names\<close>

abbreviation short_name :: "string \<Rightarrow> string" where
  "short_name \<equiv> rsplit_last (CHR ''/'')"

text \<open>After the names \<open>done\<close>: an alias maps a short name to the last id seen for it, and a short
  name is ambiguous when two different ids were seen for it.\<close>

definition alias_inv :: "(string \<times> string) list \<Rightarrow> (string, string) hmap \<Rightarrow> string list \<Rightarrow> bool" where
  "alias_inv seen aliases ambiguous \<longleftrightarrow> hm_wf aliases \<and>
     (\<forall>s. case hm_get aliases s of
        None \<Rightarrow> (\<forall>(n, i) \<in> set seen. short_name n \<noteq> s)
      | Some i \<Rightarrow> (\<exists>n. (n, i) \<in> set seen \<and> short_name n = s)
          \<and> (s \<in> set ambiguous \<or> (\<forall>(n, j) \<in> set seen. short_name n = s \<longrightarrow> j = i)))
     \<and> (\<forall>s \<in> set ambiguous. \<exists>n i n' i'. (n, i) \<in> set seen \<and> (n', i') \<in> set seen
          \<and> short_name n = s \<and> short_name n' = s \<and> i \<noteq> i')"

lemma alias_inv_get:
  assumes "alias_inv seen aliases ambiguous"
  shows "case hm_get aliases s of
        None \<Rightarrow> (\<forall>(n, i) \<in> set seen. short_name n \<noteq> s)
      | Some i \<Rightarrow> (\<exists>n. (n, i) \<in> set seen \<and> short_name n = s)
          \<and> (s \<in> set ambiguous \<or> (\<forall>(n, j) \<in> set seen. short_name n = s \<longrightarrow> j = i))"
  using assms unfolding alias_inv_def by blast

lemma alias_inv_step:
  assumes "alias_inv seen aliases ambiguous"
  shows "alias_inv (seen @ [(n, i)]) (hm_insert (short_name n) i aliases)
    (case hm_get aliases (short_name n) of
       Some previous \<Rightarrow> if previous \<noteq> i then List.insert (short_name n) ambiguous else ambiguous
     | None \<Rightarrow> ambiguous)"
  unfolding alias_inv_def
proof (intro conjI allI ballI)
  show "hm_wf (hm_insert (short_name n) i aliases)" using assms by (simp add: alias_inv_def)
next
  fix s
  let ?amb = "case hm_get aliases (short_name n) of
       Some previous \<Rightarrow> if previous \<noteq> i then List.insert (short_name n) ambiguous else ambiguous
     | None \<Rightarrow> ambiguous"
  have sub: "set ambiguous \<subseteq> set ?amb" by (auto split: option.split)
  have old: "case hm_get aliases s of
        None \<Rightarrow> (\<forall>(n, i) \<in> set seen. short_name n \<noteq> s)
      | Some i \<Rightarrow> (\<exists>n. (n, i) \<in> set seen \<and> short_name n = s)
          \<and> (s \<in> set ambiguous \<or> (\<forall>(n, j) \<in> set seen. short_name n = s \<longrightarrow> j = i))"
    using assms by (simp add: alias_inv_def)
  show "case hm_get (hm_insert (short_name n) i aliases) s of
        None \<Rightarrow> (\<forall>(n, i) \<in> set (seen @ [(n, i)]). short_name n \<noteq> s)
      | Some i' \<Rightarrow> (\<exists>m. (m, i') \<in> set (seen @ [(n, i)]) \<and> short_name m = s)
          \<and> (s \<in> set ?amb \<or> (\<forall>(m, j) \<in> set (seen @ [(n, i)]). short_name m = s \<longrightarrow> j = i'))"
    using old sub by (cases "s = short_name n"; cases "hm_get aliases s") auto
next
  fix s
  assume s: "s \<in> set (case hm_get aliases (short_name n) of
       Some previous \<Rightarrow> if previous \<noteq> i then List.insert (short_name n) ambiguous else ambiguous
     | None \<Rightarrow> ambiguous)"
  have amb: "\<exists>n i n' i'. (n, i) \<in> set seen \<and> (n', i') \<in> set seen
      \<and> short_name n = s \<and> short_name n' = s \<and> i \<noteq> i'" if "s \<in> set ambiguous"
    using assms that by (simp add: alias_inv_def)
  have prev: "\<exists>m. (m, p) \<in> set seen \<and> short_name m = short_name n" if "hm_get aliases (short_name n) = Some p" for p
    using alias_inv_get [OF assms, of "short_name n"] that by simp
  show "\<exists>m j m' j'. (m, j) \<in> set (seen @ [(n, i)]) \<and> (m', j') \<in> set (seen @ [(n, i)])
      \<and> short_name m = s \<and> short_name m' = s \<and> j \<noteq> j'"
  proof (cases "s \<in> set ambiguous")
    case True
    from amb [OF True] obtain m j m' j' where "(m, j) \<in> set seen" "(m', j') \<in> set seen"
      "short_name m = s" "short_name m' = s" "j \<noteq> j'" by blast
    then show ?thesis by (intro exI [of _ m] exI [of _ j] exI [of _ m'] exI [of _ j']) simp
  next
    case False
    with s obtain p where "hm_get aliases (short_name n) = Some p" "p \<noteq> i" "s = short_name n"
      by (auto split: option.splits if_splits)
    moreover from prev [OF this(1)] obtain m where "(m, p) \<in> set seen" "short_name m = short_name n" by blast
    ultimately show ?thesis by (intro exI [of _ m] exI [of _ p] exI [of _ n] exI [of _ i]) simp
  qed
qed

lemma alias_loop_inv:
  "alias_inv seen aliases ambiguous \<Longrightarrow> alias_loop names aliases ambiguous = (a, b) \<Longrightarrow>
   alias_inv (seen @ names) a b"
proof (induction names aliases ambiguous arbitrary: seen rule: alias_loop.induct)
  case (2 n i names aliases ambiguous)
  have step: "alias_inv (seen @ [(n, i)]) (hm_insert (short_name n) i aliases)
    (case hm_get aliases (short_name n) of
       Some previous \<Rightarrow> if previous \<noteq> i then List.insert (short_name n) ambiguous else ambiguous
     | None \<Rightarrow> ambiguous)" by (rule alias_inv_step [OF 2(3)])
  show ?case
  proof (cases "hm_get aliases (short_name n)")
    case None
    from 2(1) [OF refl refl None, of "seen @ [(n, i)]"] step None 2(4) show ?thesis
      by (simp add: Let_def)
  next
    case (Some p)
    from 2(2) [OF refl refl Some, of "seen @ [(n, i)]"] step Some 2(4) show ?thesis
      by (simp add: Let_def)
  qed
qed simp

lemma hm_get_filter_keys:
  "hm_wf m \<Longrightarrow> hm_get (filter (\<lambda>(k, _). P k) m) k = (if P k then hm_get m k else None)"
  by (induction m) (auto simp: hm_get_def hm_wf_def split: option.splits)

text \<open>A model's short name (the last segment of its slug or id) resolves exactly when it is unambiguous:
  to the id that every catalog name with that last segment stands for, and to nothing as soon as two names with that
  last segment stand for different ids.\<close>

theorem unique_last_segments_get:
  "hm_get (unique_last_segments names) s = Some i \<longleftrightarrow>
     (\<exists>n. (n, i) \<in> set names \<and> short_name n = s)
     \<and> (\<forall>(n, j) \<in> set names. short_name n = s \<longrightarrow> j = i)"
proof -
  obtain a b where ab: "alias_loop names [] [] = (a, b)" by (cases "alias_loop names [] []")
  then have inv: "alias_inv names a b"
    using alias_loop_inv [of "[]" "[]" "[]" names a b] by (simp add: alias_inv_def)
  have get: "hm_get (unique_last_segments names) s = (if s \<notin> set b then hm_get a s else None)"
    using inv ab hm_get_filter_keys [of a "\<lambda>k. k \<notin> set b" s]
    by (simp add: unique_last_segments_def alias_inv_def)
  show ?thesis
  proof (cases "s \<in> set b")
    case True
    with inv obtain n j n' j' where n: "(n, j) \<in> set names" "(n', j') \<in> set names"
        "short_name n = s" "short_name n' = s" "j \<noteq> j'" unfolding alias_inv_def by meson
    have "\<not> (\<forall>(n, j) \<in> set names. short_name n = s \<longrightarrow> j = i)"
    proof
      assume all: "\<forall>(n, j) \<in> set names. short_name n = s \<longrightarrow> j = i"
      from bspec [OF all n(1)] bspec [OF all n(2)] n(3-5) show False by simp
    qed
    with True get show ?thesis by auto
  next
    case False
    have "case hm_get a s of
        None \<Rightarrow> (\<forall>(n, i) \<in> set names. short_name n \<noteq> s)
      | Some i \<Rightarrow> (\<exists>n. (n, i) \<in> set names \<and> short_name n = s)
          \<and> (\<forall>(n, j) \<in> set names. short_name n = s \<longrightarrow> j = i)"
      using alias_inv_get [OF inv, of s] False by (simp split: option.splits)
    then show ?thesis using False get by (cases "hm_get a s") auto
  qed
qed

theorem unique_last_segments_get_witness:
  "hm_get (unique_last_segments [(''a/model'', ''x''), (''b/shared'', ''y''), (''c/shared'', ''z'')]) ''model'' = Some ''x''"
  by (subst unique_last_segments_get) (simp add: rsplit_last_def)

section \<open>Lookups\<close>

lemma hm_contains_keys: "hm_contains m k \<longleftrightarrow> k \<in> set (hm_keys m)"
  by (simp add: hm_contains_def hm_keys_def map_of_eq_None_iff)

lemma unique_last_segments_sound:
  "hm_get (unique_last_segments names) s = Some i \<Longrightarrow> \<exists>n. (n, i) \<in> set names"
proof -
  assume g: "hm_get (unique_last_segments names) s = Some i"
  obtain a b where ab: "alias_loop names [] [] = (a, b)" by (cases "alias_loop names [] []")
  then have inv: "alias_inv names a b"
    using alias_loop_inv [of "[]" "[]" "[]" names a b] by (simp add: alias_inv_def)
  with g ab have "hm_get a s = Some i"
    using hm_get_filter_keys [of a "\<lambda>k. k \<notin> set b" s]
    by (simp add: unique_last_segments_def alias_inv_def split: if_splits)
  with alias_inv_get [OF inv, of s] show ?thesis by auto
qed

text \<open>All aliases of a catalog lead to an entry.\<close>

definition aliases_wf :: "pricing_catalog \<Rightarrow> bool" where
  "aliases_wf cat \<longleftrightarrow>
     (\<forall>s i. hm_get (openrouter_by_slug_model cat) s = Some i \<longrightarrow> hm_contains (openrouter cat) i)
     \<and> (\<forall>s i. hm_get (openrouter_by_id_model cat) s = Some i \<longrightarrow> hm_contains (openrouter cat) i)"

definition catalog_wf :: "pricing_catalog \<Rightarrow> bool" where
  "catalog_wf cat \<longleftrightarrow> local_wf cat \<and> remote_wf cat \<and> aliases_wf cat"

lemma hm_wf_map_of: "(k, v) \<in> set m \<Longrightarrow> hm_contains m k"
  by (auto simp: hm_contains_keys hm_keys_def image_iff intro: bexI [of _ "(k, v)"])

lemma slug_values:
  "remote_wf cat \<Longrightarrow> (n, i) \<in> set (openrouter_by_slug cat) \<Longrightarrow> hm_contains (openrouter cat) i"
  by (auto simp: remote_wf_def hm_wf_def hm_get_def)

lemma insert_entries_get:
  "hm_get (insert_entries es m) k = Some e \<Longrightarrow>
     (e \<in> set es \<and> k = (pe_provider e, pe_model e)) \<or> hm_get m k = Some e"
proof (induction es arbitrary: m)
  case (Cons a es)
  from Cons.IH [of "hm_insert (pe_provider a, pe_model a) a m"] Cons.prems
  show ?case by (auto simp: insert_entries_def split: if_splits)
qed (simp add: insert_entries_def)

lemma local_wf_overrides:
  assumes "local_wf cat"
  shows "local_wf (with_overrides cat es)"
  unfolding local_wf_def
proof (intro allI impI)
  fix k e assume "hm_get (by_key (with_overrides cat es)) k = Some e"
  then have "hm_get (insert_entries es (by_key cat)) k = Some e" by (simp add: with_overrides_def)
  from insert_entries_get [OF this] assms show "k = (pe_provider e, pe_model e)"
    unfolding local_wf_def by blast
qed

lemma insert_entries_last:
  "hm_get (insert_entries (es @ [e]) m) (pe_provider e, pe_model e) = Some e"
  by (simp add: insert_entries_def)

lemma openrouter_entry_ok:
  assumes "remote_wf cat" "openrouter_entry cat model = Some e"
  shows "pe_provider e = ''*'' \<and> entry_ok e \<and> hm_get (openrouter cat) (pe_model e) = Some e"
proof -
  from assms(2) obtain i where "hm_get (openrouter cat) i = Some e"
    by (auto simp: openrouter_entry_def or_else_def split: option.splits bind_splits)
  with assms(1) show ?thesis by (auto simp: remote_wf_def)
qed

lemma openrouter_lookup_total:
  assumes "remote_wf cat" "openrouter_entry cat model = Some e"
  shows "\<exists>p. openrouter_lookup cat provider model = Some p"
proof -
  from assms have "hm_contains (openrouter_slugs cat) (pe_model e)"
    using openrouter_entry_ok [OF assms] by (auto simp: remote_wf_def)
  then show ?thesis using assms(2)
    by (auto simp: openrouter_lookup_def hm_contains_get find_Some_iff simp del: upt.simps split: option.splits)
qed

lemma lookup_provider:
  assumes "catalog_wf cat" "lookup cat p m = Some x"
  shows "pe_provider x = p \<or> pe_provider x = ''*''"
proof -
  have loc: "hm_get (by_key cat) (q, n) = Some x \<Longrightarrow> pe_provider x = q" for q n
    using assms(1) by (auto simp: catalog_wf_def local_wf_def)
  from assms(2) consider "hm_get (by_key cat) (p, m) = Some x"
    | d where "strip_date m = Some d" "hm_get (by_key cat) (p, d) = Some x"
    | "hm_get (by_key cat) (''*'', m) = Some x" | "openrouter_lookup cat p m = Some x"
    by (auto simp: lookup_def or_else_def split: option.splits bind_splits)
  then show ?thesis
  proof cases
    case 4
    then obtain e where e: "openrouter_entry cat m = Some e"
        "x = e \<or> (\<exists>q n. (q = p \<or> q = ''*'') \<and> hm_get (by_key cat) (q, n) = Some x)"
      by (auto simp: openrouter_lookup_def hm_contains_get split: bind_splits if_splits)
    with loc openrouter_entry_ok [OF _ e(1)] assms(1) show ?thesis by (auto simp: catalog_wf_def)
  qed (use loc in blast)+
qed

lemma lookup_None:
  assumes "catalog_wf cat"
  shows "lookup cat p m = None \<longleftrightarrow>
    \<not> hm_contains (by_key cat) (p, m) \<and> \<not> hm_contains (by_key cat) (''*'', m)
    \<and> (\<forall>d. strip_date m = Some d \<longrightarrow> \<not> hm_contains (by_key cat) (p, d))
    \<and> openrouter_entry cat m = None"
proof -
  have "openrouter_lookup cat p m = None \<longleftrightarrow> openrouter_entry cat m = None"
    using assms openrouter_lookup_total [of cat m _ p]
    by (cases "openrouter_entry cat m") (auto simp: catalog_wf_def openrouter_lookup_def)
  then show ?thesis by (cases "strip_date m") (auto simp: lookup_def hm_contains_get)
qed

section \<open>Cost arithmetic\<close>

lemma price_of_int_nonneg: "price_ok r \<Longrightarrow> 0 \<le> i \<Longrightarrow> i \<le> i64_max \<Longrightarrow> f64_le f64_0 (per_thousand (f64_of_int i) r)"
  unfolding per_thousand_def price_ok_def
  by (intro f64_div_nonneg f64_mul_nonneg f64_of_int_nonneg f64_of_int_finite) simp_all

lemma per_thousand_mono:
  assumes "price_ok r" "0 \<le> i" "i \<le> j" "j \<le> i64_max"
  shows "f64_le (per_thousand (f64_of_int i) r) (per_thousand (f64_of_int j) r)"
  using assms unfolding per_thousand_def price_ok_def
  by (intro f64_div_mono f64_mul_mono f64_mul_nonneg f64_of_int_mono f64_of_int_nonneg f64_of_int_finite) simp_all

lemma round6_mono: "f64_le f64_0 x \<Longrightarrow> f64_le x y \<Longrightarrow> f64_le (round6 x) (round6 y)"
  unfolding round6_def
  by (intro f64_div_mono f64_round_away_mono f64_round_away_nonneg f64_mul_pos_mono f64_mul_nonneg_pos) simp_all

lemma round6_nonneg: "f64_le f64_0 x \<Longrightarrow> f64_le f64_0 (round6 x)"
  unfolding round6_def
  by (intro f64_div_nonneg f64_round_away_nonneg f64_mul_nonneg_pos) simp_all

lemma cached_rate_ok: "entry_ok e \<Longrightarrow> price_ok (unwrap_or (cached_input_per_1k e) (input_per_1k e))"
  by (cases "cached_input_per_1k e") (simp_all add: entry_ok_def)

lemma max_wrap: "0 \<le> max (wrap_i64 x) 0 \<and> max (wrap_i64 x) 0 \<le> i64_max"
  using in_i64_wrap [of x] by (simp add: in_i64_def)

section \<open>Properties\<close>

text \<open>an accepted OpenRouter price list gives a catalog with at least one price, in which every
  price is finite and not negative, every entry is filed under its id with provider \<open>*\<close> and has a
  canonical slug, and every slug and short-name alias leads to an entry; rows with unusable prices
  never reach it.\<close>

theorem parse_openrouter_wf:
  assumes "parse_openrouter from_str from_value txt = Inr cat"
  shows "catalog_wf cat \<and> by_key cat = [] \<and> openrouter cat \<noteq> []"
proof -
  obtain c where c: "remote_wf c" "by_key c = []" "openrouter c \<noteq> []"
    "cat = c\<lparr>openrouter_by_slug_model := unique_last_segments (openrouter_by_slug c),
            openrouter_by_id_model := unique_last_segments (map (\<lambda>i. (i, i)) (hm_keys (openrouter c)))\<rparr>"
    using parse_openrouter_cases [OF assms] by blast
  have "hm_contains (openrouter c) i" if "hm_get (unique_last_segments (openrouter_by_slug c)) s = Some i" for s i
    using unique_last_segments_sound [OF that] slug_values [OF c(1)] by blast
  moreover have "hm_contains (openrouter c) i"
    if "hm_get (unique_last_segments (map (\<lambda>i. (i, i)) (hm_keys (openrouter c)))) s = Some i" for s i
    using unique_last_segments_sound [OF that] by (auto simp: hm_contains_keys)
  ultimately show ?thesis
    using c by (simp add: catalog_wf_def local_wf_def remote_wf_def aliases_wf_def)
qed

definition demo_or_model :: or_model where
  "demo_or_model = \<lparr>om_id = [], canonical_slug = ''vendor/free'',
     om_pricing = \<lparr>prompt_price = ''0'', completion_price = ''0'', input_cache_read = None\<rparr>\<rparr>"

lemma per_1k_zero: "per_1k ''0'' = Some f64_0"
  by (simp add: per_1k_def parse_f64_def strip_sign_def to_ascii_lowercase_def ascii_lower_def byte_def
      parse_decimal_def is_exp_char_def parse_mantissa_def split_once_def is_ascii_digit_def digits_value_def)

theorem parse_openrouter_wf_witness:
  "\<exists>cat. parse_openrouter (\<lambda>_. Inr [JNull]) (\<lambda>_. Some demo_or_model) ''{}'' = Inr cat \<and> catalog_wf cat"
proof -
  have "\<exists>cat. parse_openrouter (\<lambda>_. Inr [JNull]) (\<lambda>_. Some demo_or_model) ''{}'' = Inr cat"
    by (simp add: parse_openrouter_def Let_def demo_or_model_def add_model_def per_1k_zero ends_with_def
        suffix_to_prefix catalog_default_def hm_contains_def hm_insert_def)
  with parse_openrouter_wf show ?thesis by blast
qed

text \<open>a price override wins: after layering overrides on a well-formed catalog, the last override for a
  provider and model is what a lookup of them returns, and the catalog stays well-formed, so that
  every lookup returns a price of the asked provider or of the wildcard, and returns one
  whenever the model is known to the local prices or to the price list under its slug, its id or an
  unambiguous short name.\<close>

theorem lookup_with_overrides:
  assumes "catalog_wf cat"
  shows "let c = with_overrides cat (es @ [e]) in
     lookup c (pe_provider e) (pe_model e) = Some e \<and> catalog_wf c
     \<and> (\<forall>p m x. lookup c p m = Some x \<longrightarrow> pe_provider x = p \<or> pe_provider x = ''*'')
     \<and> (\<forall>p m. lookup c p m = None \<longleftrightarrow>
          \<not> hm_contains (by_key c) (p, m) \<and> \<not> hm_contains (by_key c) (''*'', m)
          \<and> (\<forall>d. strip_date m = Some d \<longrightarrow> \<not> hm_contains (by_key c) (p, d))
          \<and> openrouter_entry c m = None)"
proof -
  define c where "c = with_overrides cat (es @ [e])"
  have wf: "catalog_wf c"
    using assms local_wf_overrides [of cat "es @ [e]"]
    by (simp add: c_def catalog_wf_def) (simp add: with_overrides_def remote_wf_def aliases_wf_def)
  have hit: "lookup c (pe_provider e) (pe_model e) = Some e"
    using insert_entries_last [of es e "by_key cat"] by (simp add: lookup_def c_def with_overrides_def)
  have "pe_provider x = p \<or> pe_provider x = ''*''" if "lookup c p m = Some x" for p m x
    using wf that by (rule lookup_provider)
  moreover have "lookup c p m = None \<longleftrightarrow>
          \<not> hm_contains (by_key c) (p, m) \<and> \<not> hm_contains (by_key c) (''*'', m)
          \<and> (\<forall>d. strip_date m = Some d \<longrightarrow> \<not> hm_contains (by_key c) (p, d))
          \<and> openrouter_entry c m = None" for p m
    using wf by (rule lookup_None)
  ultimately show ?thesis using wf hit by (simp flip: c_def)
qed

theorem lookup_with_overrides_witness:
  "lookup (with_overrides catalog_default [\<lparr>pe_provider = ''p'', pe_model = ''m'', input_per_1k = Finite 1,
      output_per_1k = Finite 2, cached_input_per_1k = None\<rparr>]) ''p'' ''m'' \<noteq> None"
proof -
  have "catalog_wf catalog_default"
    using remote_wf_default by (simp add: catalog_wf_def local_wf_def aliases_wf_def catalog_default_def)
  from lookup_with_overrides [OF this, of "[]" "\<lparr>pe_provider = ''p'', pe_model = ''m'', input_per_1k = Finite 1,
      output_per_1k = Finite 2, cached_input_per_1k = None\<rparr>"]
  show ?thesis by (simp add: Let_def)
qed

text \<open>C39: with finite non-negative prices the computed cost of any token counts is a number (never NaN) and not negative,
  even when the counts are negative or their difference overflows, equals the would-have cost, and
  never decreases when the completion tokens increase.\<close>

theorem compute_cost_sound:
  assumes "lookup cat provider model = Some e" "entry_ok e"
    and "in_i64 (tu_completion u)" "in_i64 (tu_cached u)" "in_i64 c'" "tu_completion u \<le> c'"
  shows "\<exists>b b'. compute_cost cat provider model u = Some b
    \<and> compute_cost cat provider model (u\<lparr>tu_completion := c'\<rparr>) = Some b'
    \<and> f64_le f64_0 (cb_cost_usd b) \<and> cb_would_have_cost_usd b = cb_cost_usd b
    \<and> f64_le (cb_cost_usd b) (cb_cost_usd b')"
proof -
  define x where "x = f64_add
      (per_thousand (f64_of_int (max (wrap_i64 (tu_prompt u - tu_cached u)) 0)) (input_per_1k e))
      (per_thousand (f64_of_int (max (tu_cached u) 0)) (unwrap_or (cached_input_per_1k e) (input_per_1k e)))"
  define y where "y n = per_thousand (f64_of_int (max n 0)) (output_per_1k e)" for n
  have cost: "cb_cost_usd (apply_price e (u\<lparr>tu_completion := n\<rparr>)) = round6 (f64_add x (y n))"
    "cb_would_have_cost_usd (apply_price e (u\<lparr>tu_completion := n\<rparr>)) = round6 (f64_add x (y n))" for n
    by (simp_all add: apply_price_def Let_def x_def y_def)
  have x: "f64_le f64_0 x"
    using assms(2,4) max_wrap cached_rate_ok [OF assms(2)]
    by (auto simp: x_def entry_ok_def in_i64_def intro!: f64_add_nonneg price_of_int_nonneg)
  have y0: "f64_le f64_0 (y n)" if "in_i64 n" for n
    using assms(2) that by (auto simp: y_def entry_ok_def in_i64_def intro!: price_of_int_nonneg)
  have yy: "f64_le (y (tu_completion u)) (y c')"
    using assms(2,5,6) by (auto simp: y_def entry_ok_def in_i64_def intro!: per_thousand_mono)
  have "f64_le (round6 (f64_add x (y (tu_completion u)))) (round6 (f64_add x (y c')))"
    using x yy y0 [OF assms(3)] f64_le_not_NaN [OF x]
    by (intro round6_mono f64_add_nonneg f64_add_mono) simp_all
  moreover have "f64_le f64_0 (round6 (f64_add x (y (tu_completion u))))"
    using x y0 [OF assms(3)] by (intro round6_nonneg f64_add_nonneg)
  ultimately show ?thesis
    using assms(1) cost [of "tu_completion u"] cost [of c'] by (simp add: compute_cost_def)
qed

theorem compute_cost_sound_witness:
  "\<exists>b. compute_cost (catalog_default\<lparr>by_key := [((''p'', ''m''), \<lparr>pe_provider = ''p'', pe_model = ''m'',
      input_per_1k = Finite 1, output_per_1k = Finite 2, cached_input_per_1k = None\<rparr>)]\<rparr>) ''p'' ''m''
      \<lparr>tu_prompt = -5, tu_completion = 3, tu_cached = 7\<rparr> = Some b \<and> f64_le f64_0 (cb_cost_usd b)"
  using compute_cost_sound [of "catalog_default\<lparr>by_key := [((''p'', ''m''), \<lparr>pe_provider = ''p'', pe_model = ''m'',
      input_per_1k = Finite 1, output_per_1k = Finite 2, cached_input_per_1k = None\<rparr>)]\<rparr>" "''p''" "''m''"
      "\<lparr>pe_provider = ''p'', pe_model = ''m'', input_per_1k = Finite 1, output_per_1k = Finite 2,
        cached_input_per_1k = None\<rparr>" "\<lparr>tu_prompt = -5, tu_completion = 3, tu_cached = 7\<rparr>" 4]
  by (auto simp: lookup_def hm_get_def entry_ok_def price_ok_def in_i64_def)

end
