(* ===== verification/Memory_Store.thy ===== *)
theory Memory_Store
  imports Storage_Models Pricing
begin

text \<open>
  The in-memory stores of \<open>gateway-storage/src/memory/mod.rs\<close>: metadata, request logs, response
  cache and counters. Every operation runs under its store's mutex, so it is one atomic function on the
  store's state; \<open>now\<close> is the clock reading it takes. The last sections discharge the contracts
  of the storage traits for these stores.
\<close>

section \<open>Metadata\<close>

record mem_meta =
  mm_projects :: "(string, project) hmap"
  mm_keys :: "(string, gateway_key_row) hmap"
  mm_routes :: "(string, routes_config \<times> int) hmap"
  mm_budgets :: "(string, budget_row) hmap"
  mm_admins :: "(string, admin_user) hmap"
  mm_pricing :: "(string \<times> string, pricing_row) hmap"

definition mem_meta_new :: mem_meta where
  "mem_meta_new = \<lparr>mm_projects = [], mm_keys = [], mm_routes = [], mm_budgets = [], mm_admins = [], mm_pricing = []\<rparr>"

definition mem_create_project :: "mem_meta \<Rightarrow> int \<Rightarrow> new_project \<Rightarrow> mem_meta \<times> project sresult" where
  "mem_create_project st now p =
     (let project = \<lparr>pj_id = np_id p, pj_name = np_name p, pj_created_at = now\<rparr>
      in (st\<lparr>mm_projects := hm_insert (np_id p) project (mm_projects st)\<rparr>, Inr project))"

definition mem_get_project :: "mem_meta \<Rightarrow> string \<Rightarrow> project option sresult" where
  "mem_get_project st ident = Inr (hm_get (mm_projects st) ident)"

definition mem_list_projects :: "mem_meta \<Rightarrow> project list sresult" where
  "mem_list_projects st = Inr (hm_values (mm_projects st))"

definition mem_create_key :: "mem_meta \<Rightarrow> int \<Rightarrow> new_gateway_key \<Rightarrow> mem_meta \<times> gateway_key_row sresult" where
  "mem_create_key st now k =
     (let row = \<lparr>kr_id = nk_id k, kr_project_id = nk_project_id k, kr_name = nk_name k, kr_prefix = nk_prefix k,
                 kr_hash = nk_hash k, kr_last4 = nk_last4 k, kr_scopes = nk_scopes k, kr_status = ''active'',
                 kr_expires_at = nk_expires_at k, kr_last_used_at = None, kr_created_at = now,
                 kr_revoked_at = None, kr_origin = nk_origin k\<rparr>
      in (st\<lparr>mm_keys := hm_insert (nk_id k) row (mm_keys st)\<rparr>, Inr row))"

definition mem_list_keys :: "mem_meta \<Rightarrow> string \<Rightarrow> gateway_key_row list sresult" where
  "mem_list_keys st project_id = Inr (filter (\<lambda>k. kr_project_id k = project_id) (hm_values (mm_keys st)))"

definition mem_get_key :: "mem_meta \<Rightarrow> string \<Rightarrow> gateway_key_row option sresult" where
  "mem_get_key st ident = Inr (hm_get (mm_keys st) ident)"

definition mem_find_key_by_hash :: "mem_meta \<Rightarrow> bytes \<Rightarrow> gateway_key_row option sresult" where
  "mem_find_key_by_hash st h = Inr (List.find (\<lambda>k. kr_hash k = h) (hm_values (mm_keys st)))"

definition mem_revoke_key :: "mem_meta \<Rightarrow> int \<Rightarrow> string \<Rightarrow> mem_meta \<times> unit sresult" where
  "mem_revoke_key st now ident =
     (case hm_get (mm_keys st) ident of
        Some k \<Rightarrow>
          (st\<lparr>mm_keys := hm_insert ident (k\<lparr>kr_status := ''revoked'', kr_revoked_at := Some now\<rparr>) (mm_keys st)\<rparr>, Inr ())
      | None \<Rightarrow> (st, Inl SNotFound))"

definition mem_touch_key_last_used :: "mem_meta \<Rightarrow> string \<Rightarrow> timestamp \<Rightarrow> mem_meta \<times> unit sresult" where
  "mem_touch_key_last_used st ident ts =
     (case hm_get (mm_keys st) ident of
        Some k \<Rightarrow> (st\<lparr>mm_keys := hm_insert ident (k\<lparr>kr_last_used_at := Some ts\<rparr>) (mm_keys st)\<rparr>, Inr ())
      | None \<Rightarrow> (st, Inr ()))"

definition mem_upsert_seeded_key :: "mem_meta \<Rightarrow> int \<Rightarrow> new_gateway_key \<Rightarrow> mem_meta \<times> gateway_key_row sresult" where
  "mem_upsert_seeded_key st now k =
     (let existing = hm_get (mm_keys st) (nk_id k) in
      if (case existing of Some e \<Rightarrow> kr_origin e \<noteq> KEY_ORIGIN_CONFIG | None \<Rightarrow> False)
      then (st, Inl (SConflict (''gateway key '' @ [CHR 0x27] @ nk_id k @ [CHR 0x27]
                 @ '' is admin-managed; rename the config-seeded key'')))
      else
        (let created_at = unwrap_or (map_option kr_created_at existing) now;
             last_used_at = Option.bind existing kr_last_used_at;
             row = \<lparr>kr_id = nk_id k, kr_project_id = nk_project_id k, kr_name = nk_name k,
                    kr_prefix = nk_prefix k, kr_hash = nk_hash k, kr_last4 = nk_last4 k,
                    kr_scopes = nk_scopes k, kr_status = ''active'', kr_expires_at = nk_expires_at k,
                    kr_last_used_at = last_used_at, kr_created_at = created_at, kr_revoked_at = None,
                    kr_origin = KEY_ORIGIN_CONFIG\<rparr>
         in (st\<lparr>mm_keys := hm_insert (nk_id k) row (mm_keys st)\<rparr>, Inr row)))"

definition mem_prune_seeded_keys_not_in :: "mem_meta \<Rightarrow> string \<Rightarrow> string list \<Rightarrow> mem_meta \<times> nat sresult" where
  "mem_prune_seeded_keys_not_in st project_id keep_ids =
     (let to_remove = map kr_id (filter (\<lambda>k. kr_project_id k = project_id \<and> kr_origin k = KEY_ORIGIN_CONFIG
                                              \<and> kr_id k \<notin> set keep_ids) (hm_values (mm_keys st)))
      in (st\<lparr>mm_keys := fold hm_remove to_remove (mm_keys st)\<rparr>, Inr (length to_remove)))"

definition mem_upsert_routes :: "mem_meta \<Rightarrow> int \<Rightarrow> string \<Rightarrow> routes_config \<Rightarrow> int \<Rightarrow> mem_meta \<times> unit sresult" where
  "mem_upsert_routes st now project_id cfg version =
     (st\<lparr>mm_routes := hm_insert project_id (cfg, version) (mm_routes st)\<rparr>, Inr ())"

definition mem_load_routes :: "mem_meta \<Rightarrow> string \<Rightarrow> (routes_config \<times> int) option sresult" where
  "mem_load_routes st project_id = Inr (hm_get (mm_routes st) project_id)"

definition mem_upsert_budget :: "mem_meta \<Rightarrow> budget_row \<Rightarrow> mem_meta \<times> unit sresult" where
  "mem_upsert_budget st b = (st\<lparr>mm_budgets := hm_insert (bg_id b) b (mm_budgets st)\<rparr>, Inr ())"

definition mem_upsert_pricing :: "mem_meta \<Rightarrow> pricing_row \<Rightarrow> mem_meta \<times> unit sresult" where
  "mem_upsert_pricing st p =
     (st\<lparr>mm_pricing := hm_insert (pr_provider p, pr_model p) p (mm_pricing st)\<rparr>, Inr ())"

definition mem_list_pricing :: "mem_meta \<Rightarrow> pricing_row list sresult" where
  "mem_list_pricing st = Inr (hm_values (mm_pricing st))"

definition mem_delete_pricing :: "mem_meta \<Rightarrow> string \<Rightarrow> string \<Rightarrow> mem_meta \<times> unit sresult" where
  "mem_delete_pricing st provider model =
     (st\<lparr>mm_pricing := hm_remove (provider, model) (mm_pricing st)\<rparr>, Inr ())"

definition mem_list_budgets :: "mem_meta \<Rightarrow> budget_row list sresult" where
  "mem_list_budgets st = Inr (hm_values (mm_budgets st))"

definition mem_get_budget :: "mem_meta \<Rightarrow> string \<Rightarrow> budget_row option sresult" where
  "mem_get_budget st ident = Inr (hm_get (mm_budgets st) ident)"

definition mem_create_admin_user :: "mem_meta \<Rightarrow> int \<Rightarrow> new_admin_user \<Rightarrow> mem_meta \<times> admin_user sresult" where
  "mem_create_admin_user st now u =
     (let admin = \<lparr>au_id = nu_id u, au_username = nu_username u, au_password_hash = nu_password_hash u,
                   au_created_at = now, au_last_login_at = None\<rparr>
      in if \<exists>a \<in> set (hm_values (mm_admins st)). au_username a = au_username admin
         then (st, Inl (SConflict (''admin '' @ [CHR 0x27] @ au_username admin @ [CHR 0x27] @ '' exists'')))
         else (st\<lparr>mm_admins := hm_insert (nu_id u) admin (mm_admins st)\<rparr>, Inr admin))"

definition mem_find_admin_user :: "mem_meta \<Rightarrow> string \<Rightarrow> admin_user option sresult" where
  "mem_find_admin_user st username = Inr (List.find (\<lambda>a. au_username a = username) (hm_values (mm_admins st)))"

definition mem_list_admin_users :: "mem_meta \<Rightarrow> admin_user list sresult" where
  "mem_list_admin_users st = Inr (hm_values (mm_admins st))"

definition mem_touch_admin_last_login :: "mem_meta \<Rightarrow> string \<Rightarrow> timestamp \<Rightarrow> mem_meta \<times> unit sresult" where
  "mem_touch_admin_last_login st ident ts =
     (case hm_get (mm_admins st) ident of
        Some a \<Rightarrow> (st\<lparr>mm_admins := hm_insert ident (a\<lparr>au_last_login_at := Some ts\<rparr>) (mm_admins st)\<rparr>, Inr ())
      | None \<Rightarrow> (st, Inr ()))"

definition mem_metadata_ops :: "mem_meta metadata_ops" where
  "mem_metadata_ops = \<lparr>create_project = mem_create_project, get_project = mem_get_project,
     list_projects = mem_list_projects, create_key = mem_create_key, list_keys = mem_list_keys,
     get_key = mem_get_key, find_key_by_hash = mem_find_key_by_hash, revoke_key = mem_revoke_key,
     touch_key_last_used = mem_touch_key_last_used, upsert_seeded_key = mem_upsert_seeded_key,
     prune_seeded_keys_not_in = mem_prune_seeded_keys_not_in, upsert_routes = mem_upsert_routes,
     load_routes = mem_load_routes, upsert_budget = mem_upsert_budget, list_budgets = mem_list_budgets,
     get_budget = mem_get_budget, upsert_pricing = mem_upsert_pricing, list_pricing = mem_list_pricing,
     delete_pricing = mem_delete_pricing, create_admin_user = mem_create_admin_user,
     find_admin_user = mem_find_admin_user, list_admin_users = mem_list_admin_users,
     touch_admin_last_login = mem_touch_admin_last_login\<rparr>"

section \<open>Request logs\<close>

record mem_logs =
  ml_records :: "request_log_record list"
  ml_capacity :: nat

definition mem_logs_new :: "nat \<Rightarrow> mem_logs" where
  "mem_logs_new capacity = \<lparr>ml_records = [], ml_capacity = capacity\<rparr>"

text \<open>The provider a log line is priced with: the fallback, else the last attempt's, else the namespace.\<close>

definition last_attempt_provider :: "json \<Rightarrow> string option" where
  "last_attempt_provider m =
     Option.bind (json_get m ''attempts'') (\<lambda>a.
     Option.bind (as_array a) (\<lambda>xs.
     Option.bind (if xs = [] then None else Some (last xs)) (\<lambda>x.
     Option.bind (json_get x ''provider'') as_str)))"

definition log_provider :: "request_log_record \<Rightarrow> string option" where
  "log_provider r =
     or_else (or_else (lr_fallback_used r) (Option.bind (lr_metadata r) last_attempt_provider)) (lr_namespace r)"

text \<open>The buffer's capacity is at least one (the gateway constructs it with 10 000): with a capacity of
  zero the first \<open>Vec::remove(0)\<close> would panic, which the \<^const>\<open>tl\<close> here does not show.\<close>

definition mem_append :: "mem_logs \<Rightarrow> request_log_record \<Rightarrow> mem_logs \<times> unit sresult" where
  "mem_append st rec =
     (let recs = (if ml_capacity st \<le> length (ml_records st) then tl (ml_records st) else ml_records st)
      in (st\<lparr>ml_records := recs @ [rec]\<rparr>, Inr ()))"

definition opt_ok :: "'a option \<Rightarrow> ('a \<Rightarrow> bool) \<Rightarrow> bool" where
  "opt_ok x P = (case x of None \<Rightarrow> True | Some v \<Rightarrow> P v)"

definition query_matches :: "log_query \<Rightarrow> request_log_record \<Rightarrow> bool" where
  "query_matches q r \<longleftrightarrow>
     opt_ok (q_project_id q) (\<lambda>p. p = lr_project_id r)
     \<and> opt_ok (q_namespace q) (\<lambda>p. lr_namespace r = Some p)
     \<and> opt_ok (q_model q) (\<lambda>m. lr_model r = Some m)
     \<and> opt_ok (q_status q) (\<lambda>s. lr_status r = s)
     \<and> opt_ok (q_from_ts q) (\<lambda>f. f \<le> lr_request_ts r)
     \<and> opt_ok (q_to_ts q) (\<lambda>t. lr_request_ts r \<le> t)"

definition row_of :: "request_log_record \<Rightarrow> request_log_row" where
  "row_of r = \<lparr>lw_id = lr_id r, lw_project_id = lr_project_id r, lw_gateway_key_id = lr_gateway_key_id r,
     lw_namespace = lr_namespace r, lw_model = lr_model r, lw_endpoint = lr_endpoint r,
     lw_request_ts = lr_request_ts r, lw_duration_ms = lr_duration_ms r, lw_status = lr_status r,
     lw_http_status = lr_http_status r, lw_cached = lr_cached r, lw_retry_count = lr_retry_count r,
     lw_prompt_tokens = lr_prompt_tokens r, lw_completion_tokens = lr_completion_tokens r,
     lw_cost_usd = lr_cost_usd r, lw_request_body = lr_request_body r\<rparr>"

definition query_limit :: "log_query \<Rightarrow> nat" where
  "query_limit q = (if q_limit q = 0 then 50 else min (q_limit q) 500)"

definition mem_query :: "mem_logs \<Rightarrow> log_query \<Rightarrow> request_log_row page sresult" where
  "mem_query st q =
     Inr \<lparr>items = take (query_limit q)
            (sort_key (\<lambda>w. - lw_request_ts w) (map row_of (filter (query_matches q) (ml_records st)))),
          next_cursor = None\<rparr>"

definition mem_get_by_id :: "mem_logs \<Rightarrow> string \<Rightarrow> request_log_record option sresult" where
  "mem_get_by_id st ident = Inr (List.find (\<lambda>r. lr_id r = ident) (ml_records st))"

definition aggregate_matches :: "aggregate_query \<Rightarrow> request_log_record \<Rightarrow> bool" where
  "aggregate_matches q r \<longleftrightarrow>
     opt_ok (aq_project_id q) (\<lambda>p. p = lr_project_id r)
     \<and> opt_ok (aq_from_ts q) (\<lambda>f. f \<le> lr_request_ts r)
     \<and> opt_ok (aq_to_ts q) (\<lambda>t. lr_request_ts r \<le> t)"

fun aggregate_loop ::
  "aggregate_query \<Rightarrow> request_log_record list \<Rightarrow> f64 \<Rightarrow> int \<Rightarrow> int \<Rightarrow> int \<Rightarrow> f64 \<times> int \<times> int \<times> int" where
  "aggregate_loop q [] tot requests prompt completion = (tot, requests, prompt, completion)"
| "aggregate_loop q (r # rs) tot requests prompt completion =
     (if \<not> aggregate_matches q r then aggregate_loop q rs tot requests prompt completion
      else aggregate_loop q rs (f64_add tot (unwrap_or (lr_cost_usd r) f64_0))
             (wrap_i64 (requests + 1))
             (wrap_i64 (prompt + unwrap_or (lr_prompt_tokens r) 0))
             (wrap_i64 (completion + unwrap_or (lr_completion_tokens r) 0)))"

definition mem_aggregate :: "mem_logs \<Rightarrow> aggregate_query \<Rightarrow> aggregate_result sresult" where
  "mem_aggregate st q =
     (let (tot, requests, prompt, completion) = aggregate_loop q (ml_records st) f64_0 0 0 0
      in Inr \<lparr>ar_groups = [\<lparr>ag_key = JNull, ag_requests = requests, ag_prompt_tokens = prompt,
                  ag_completion_tokens = completion, ag_cost_usd = tot, ag_cached_savings_usd = f64_0\<rparr>],
              ar_total_cost_usd = tot\<rparr>)"

definition mem_purge_older_than :: "mem_logs \<Rightarrow> timestamp \<Rightarrow> mem_logs \<times> nat sresult" where
  "mem_purge_older_than st ts =
     (let kept = filter (\<lambda>r. ts \<le> lr_request_ts r) (ml_records st)
      in (st\<lparr>ml_records := kept\<rparr>, Inr (length (ml_records st) - length kept)))"

definition has_tokens :: "request_log_record \<Rightarrow> bool" where
  "has_tokens r \<longleftrightarrow> lr_prompt_tokens r \<noteq> None \<or> lr_completion_tokens r \<noteq> None"

definition in_range :: "timestamp option \<Rightarrow> timestamp option \<Rightarrow> request_log_record \<Rightarrow> bool" where
  "in_range from until r \<longleftrightarrow>
     opt_ok from (\<lambda>f. f \<le> lr_request_ts r) \<and> opt_ok until (\<lambda>t. lr_request_ts r \<le> t)"

definition cost_key :: "request_log_record \<Rightarrow> (string \<times> string) option" where
  "cost_key r = Option.bind (log_provider r) (\<lambda>p. map_option (\<lambda>m. (p, m)) (lr_model r))"

definition mem_distinct_cost_keys ::
  "mem_logs \<Rightarrow> timestamp option \<Rightarrow> timestamp option \<Rightarrow> (string \<times> string) list sresult" where
  "mem_distinct_cost_keys st from until =
     Inr (remdups_adj (sort (List.map_filter cost_key
       (filter (\<lambda>r. has_tokens r \<and> in_range from until r) (ml_records st)))))"

definition recompute_row :: "f64 \<Rightarrow> f64 \<Rightarrow> f64 \<Rightarrow> request_log_record \<Rightarrow> request_log_record" where
  "recompute_row inp cinp out r =
     (let prompt = unwrap_or (lr_prompt_tokens r) 0;
          cached = unwrap_or (lr_cached_tokens r) 0;
          completion = unwrap_or (lr_completion_tokens r) 0;
          cost = round6 (f64_add (f64_add
                   (per_thousand (f64_of_int (max (wrap_i64 (prompt - cached)) 0)) inp)
                   (per_thousand (f64_of_int (max cached 0)) cinp))
                   (per_thousand (f64_of_int (max completion 0)) out))
      in r\<lparr>lr_would_have_cost_usd := Some cost, lr_cost_usd := Some (if lr_cached r then f64_0 else cost)\<rparr>)"

definition recompute_selects ::
  "string \<Rightarrow> string \<Rightarrow> timestamp option \<Rightarrow> timestamp option \<Rightarrow> request_log_record \<Rightarrow> bool" where
  "recompute_selects provider model from until r \<longleftrightarrow>
     log_provider r = Some provider \<and> lr_model r = Some model \<and> has_tokens r \<and> in_range from until r"

definition mem_recompute_costs ::
  "mem_logs \<Rightarrow> string \<Rightarrow> string \<Rightarrow> f64 \<Rightarrow> f64 \<Rightarrow> f64 \<Rightarrow> timestamp option \<Rightarrow> timestamp option
     \<Rightarrow> mem_logs \<times> nat sresult" where
  "mem_recompute_costs st provider model inp cinp out from until =
     (let sel = recompute_selects provider model from until
      in (st\<lparr>ml_records := map (\<lambda>r. if sel r then recompute_row inp cinp out r else r) (ml_records st)\<rparr>,
          Inr (length (filter sel (ml_records st)))))"

definition mem_flush :: "mem_logs \<Rightarrow> mem_logs \<times> unit sresult" where
  "mem_flush st = (st, Inr ())"

definition mem_log_ops :: "mem_logs log_ops" where
  "mem_log_ops = \<lparr>log_append = mem_append, log_query_rows = mem_query, get_by_id = mem_get_by_id,
     log_aggregate = mem_aggregate, purge_older_than = mem_purge_older_than,
     distinct_cost_keys = mem_distinct_cost_keys, recompute_costs = mem_recompute_costs, log_flush = mem_flush\<rparr>"

section \<open>Response cache\<close>

type_synonym mem_kv = "(string, bytes \<times> int) hmap"

text \<open>\<open>Instant + Duration\<close>: the clock is in milliseconds, the duration in seconds; the addition
  panics when the seconds leave the range of an \<open>i64\<close>.\<close>

definition instant_add :: "int \<Rightarrow> nat \<Rightarrow> int option" where
  "instant_add now ttl = (if now div 1000 + int ttl \<le> i64_max then Some (now + 1000 * int ttl) else None)"

definition mem_kv_get :: "mem_kv \<Rightarrow> int \<Rightarrow> string \<Rightarrow> mem_kv \<times> bytes option sresult" where
  "mem_kv_get st now k =
     (case hm_get st k of
        Some (v, expiry) \<Rightarrow> if now < expiry then (st, Inr (Some v)) else (hm_remove k st, Inr None)
      | None \<Rightarrow> (st, Inr None))"

definition mem_kv_put :: "mem_kv \<Rightarrow> int \<Rightarrow> string \<Rightarrow> bytes \<Rightarrow> nat \<Rightarrow> (mem_kv \<times> unit sresult) option" where
  "mem_kv_put st now k v ttl =
     (case instant_add now ttl of
        None \<Rightarrow> None
      | Some expiry \<Rightarrow> Some (hm_insert k (v, expiry) st, Inr ()))"

definition mem_kv_delete :: "mem_kv \<Rightarrow> string \<Rightarrow> mem_kv \<times> unit sresult" where
  "mem_kv_delete st k = (hm_remove k st, Inr ())"

definition mem_kv_ops :: "mem_kv kv_ops" where
  "mem_kv_ops = \<lparr>kv_get = mem_kv_get, kv_put = mem_kv_put, kv_delete = mem_kv_delete\<rparr>"

section \<open>Counters\<close>

record mem_counter =
  mc_windows :: "(string \<times> nat \<times> nat, int) hmap"
  mc_concurrency :: "(string, nat) hmap"
  mc_budgets :: "(string \<times> timestamp, f64) hmap"

definition mem_counter_new :: mem_counter where
  "mem_counter_new = \<lparr>mc_windows = [], mc_concurrency = [], mc_budgets = []\<rparr>"

definition bucket_of :: "int \<Rightarrow> nat \<Rightarrow> nat" where
  "bucket_of now window_ms = i64_as_u64 now div max window_ms 1"

definition mem_current :: "mem_counter \<Rightarrow> int \<Rightarrow> string \<Rightarrow> nat \<Rightarrow> int sresult" where
  "mem_current st now k window_ms =
     Inr (unwrap_or (hm_get (mc_windows st) (k, window_ms, bucket_of now window_ms)) 0)"

definition mem_incr_window :: "mem_counter \<Rightarrow> int \<Rightarrow> string \<Rightarrow> nat \<Rightarrow> int \<Rightarrow> mem_counter \<times> int sresult" where
  "mem_incr_window st now k window_ms n =
     (let entry = (k, window_ms, bucket_of now window_ms);
          v = wrap_i64 (unwrap_or (hm_get (mc_windows st) entry) 0 + n)
      in (st\<lparr>mc_windows := hm_insert entry v (mc_windows st)\<rparr>, Inr v))"

definition mem_try_acquire_concurrency :: "mem_counter \<Rightarrow> string \<Rightarrow> nat \<Rightarrow> mem_counter \<times> string option sresult" where
  "mem_try_acquire_concurrency st k m =
     (let cur = unwrap_or (hm_get (mc_concurrency st) k) 0 in
      if m \<le> cur then (st\<lparr>mc_concurrency := hm_insert k cur (mc_concurrency st)\<rparr>, Inr None)
      else (st\<lparr>mc_concurrency := hm_insert k (cur + 1) (mc_concurrency st)\<rparr>, Inr (Some k)))"

definition mem_release :: "mem_counter \<Rightarrow> string \<Rightarrow> mem_counter" where
  "mem_release st k =
     (case hm_get (mc_concurrency st) k of
        Some c \<Rightarrow> st\<lparr>mc_concurrency := hm_insert k (c - 1) (mc_concurrency st)\<rparr>
      | None \<Rightarrow> st)"

definition mem_incr_budget :: "mem_counter \<Rightarrow> string \<Rightarrow> timestamp \<Rightarrow> f64 \<Rightarrow> mem_counter \<times> f64 sresult" where
  "mem_incr_budget st b p d =
     (let v = f64_add (unwrap_or (hm_get (mc_budgets st) (b, p)) f64_0) d
      in (st\<lparr>mc_budgets := hm_insert (b, p) v (mc_budgets st)\<rparr>, Inr v))"

definition mem_read_budget :: "mem_counter \<Rightarrow> string \<Rightarrow> timestamp \<Rightarrow> f64 sresult" where
  "mem_read_budget st b p = Inr (unwrap_or (hm_get (mc_budgets st) (b, p)) f64_0)"

definition mem_counter_ops :: "mem_counter counter_ops" where
  "mem_counter_ops = \<lparr>incr_window = mem_incr_window, current = mem_current,
     try_acquire_concurrency = mem_try_acquire_concurrency, release = mem_release,
     incr_budget = mem_incr_budget, read_budget = mem_read_budget\<rparr>"

section \<open>The cache fulfils its contract\<close>

definition mem_kv_live :: "mem_kv \<Rightarrow> int \<Rightarrow> string \<Rightarrow> bytes option" where
  "mem_kv_live st now k =
     (case hm_get st k of Some (v, expiry) \<Rightarrow> if now < expiry then Some v else None | None \<Rightarrow> None)"

interpretation mem_kv: kv_contract mem_kv_ops mem_kv_live
proof unfold_locales
  fix st now k st' x
  assume "kv_get mem_kv_ops st now k = (st', Inr x)"
  then show "x = mem_kv_live st now k"
    by (auto simp: mem_kv_ops_def mem_kv_get_def mem_kv_live_def split: option.splits if_splits prod.splits)
next
  fix st now k st' r t k'
  assume "kv_get mem_kv_ops st now k = (st', r)" "now \<le> t"
  then show "mem_kv_live st' t k' = mem_kv_live st t k'"
    by (auto simp: mem_kv_ops_def mem_kv_get_def mem_kv_live_def split: option.splits if_splits)
next
  fix st now k v ttl st' t k'
  assume "kv_put mem_kv_ops st now k v ttl = Some (st', Inr ())" "now \<le> t"
  then show "mem_kv_live st' t k' =
      (if k' = k then (if t < now + 1000 * int ttl then Some v else None) else mem_kv_live st t k')"
    by (auto simp: mem_kv_ops_def mem_kv_put_def mem_kv_live_def instant_add_def split: if_splits)
next
  fix st k st' t k'
  assume "kv_delete mem_kv_ops st k = (st', Inr ())"
  then show "mem_kv_live st' t k' = (if k' = k then None else mem_kv_live st t k')"
    by (auto simp: mem_kv_ops_def mem_kv_delete_def mem_kv_live_def)
qed

section \<open>The counters fulfil their contract\<close>

definition mem_window :: "mem_counter \<Rightarrow> int \<Rightarrow> string \<Rightarrow> nat \<Rightarrow> int" where
  "mem_window st now k w = unwrap_or (hm_get (mc_windows st) (k, w, bucket_of now w)) 0"

definition mem_in_use :: "mem_counter \<Rightarrow> string \<Rightarrow> nat" where
  "mem_in_use st k = unwrap_or (hm_get (mc_concurrency st) k) 0"

definition mem_spent :: "mem_counter \<Rightarrow> string \<Rightarrow> timestamp \<Rightarrow> f64" where
  "mem_spent st b p = unwrap_or (hm_get (mc_budgets st) (b, p)) f64_0"

lemmas mem_counter_simps = mem_counter_ops_def mem_incr_window_def mem_try_acquire_concurrency_def
  mem_release_def mem_incr_budget_def mem_read_budget_def mem_window_def mem_in_use_def mem_spent_def Let_def

interpretation mem_counter: counter_contract mem_counter_ops mem_window mem_in_use mem_spent
  by unfold_locales (auto simp: mem_counter_simps fun_eq_iff split: if_splits option.splits)

section \<open>The key table fulfils its contract\<close>

definition mem_keys_ok :: "mem_meta \<Rightarrow> bool" where
  "mem_keys_ok st \<longleftrightarrow> hm_wf (mm_keys st) \<and> (\<forall>i r. hm_get (mm_keys st) i = Some r \<longrightarrow> kr_id r = i)"

definition mem_key :: "mem_meta \<Rightarrow> string \<Rightarrow> gateway_key_row option" where
  "mem_key st = hm_get (mm_keys st)"

lemma mem_key_value:
  "mem_keys_ok st \<Longrightarrow> r \<in> set (hm_values (mm_keys st)) \<longleftrightarrow> mem_key st (kr_id r) = Some r"
  by (auto simp: mem_keys_ok_def mem_key_def hm_values_iff)

lemma mem_find_result:
  assumes "mem_keys_ok st"
  shows "find_key_by_hash mem_metadata_ops st h = Inr (Some row) \<Longrightarrow> kr_hash row = h \<and> mem_key st (kr_id row) = Some row"
    and "find_key_by_hash mem_metadata_ops st h = Inr None \<Longrightarrow> mem_key st i = Some row \<Longrightarrow> kr_hash row \<noteq> h"
proof -
  assume "find_key_by_hash mem_metadata_ops st h = Inr (Some row)"
  then have "row \<in> set (hm_values (mm_keys st)) \<and> kr_hash row = h"
    by (auto simp: mem_metadata_ops_def mem_find_key_by_hash_def find_Some_iff)
  with mem_key_value [OF assms] show "kr_hash row = h \<and> mem_key st (kr_id row) = Some row" by blast
next
  assume "find_key_by_hash mem_metadata_ops st h = Inr None" "mem_key st i = Some row"
  then show "kr_hash row \<noteq> h"
    by (auto simp: mem_metadata_ops_def mem_find_key_by_hash_def find_None_iff mem_key_def dest: hm_get_SomeD)
qed

lemma mem_revoke_result:
  assumes "mem_keys_ok st" "mem_revoke_key st now i = (st', r)"
  shows "mem_keys_ok st' \<and>
    (case r of
       Inl e \<Rightarrow> mem_key st' = mem_key st
     | Inr _ \<Rightarrow> (\<exists>row. mem_key st i = Some row \<and>
         mem_key st' = (mem_key st)(i \<mapsto> row\<lparr>kr_status := ''revoked'', kr_revoked_at := Some now\<rparr>)))"
  using assms by (auto simp: mem_revoke_key_def mem_keys_ok_def mem_key_def fun_eq_iff split: option.splits if_splits)

lemma mem_upsert_seeded_result:
  assumes "mem_keys_ok st" "mem_upsert_seeded_key st now k = (st', r)"
  shows "mem_keys_ok st' \<and>
    (case r of
       Inl e \<Rightarrow> mem_key st' = mem_key st
     | Inr row \<Rightarrow> mem_key st' = (mem_key st)(nk_id k \<mapsto> row)
         \<and> kr_id row = nk_id k \<and> kr_hash row = nk_hash k \<and> kr_project_id row = nk_project_id k
         \<and> kr_status row = ''active'' \<and> kr_expires_at row = nk_expires_at k
         \<and> kr_origin row = KEY_ORIGIN_CONFIG
         \<and> (\<forall>old. mem_key st (nk_id k) = Some old \<longrightarrow> kr_origin old = KEY_ORIGIN_CONFIG))"
  using assms
  by (auto simp: mem_upsert_seeded_key_def mem_keys_ok_def mem_key_def Let_def fun_eq_iff
      split: option.splits if_splits)

lemma mem_prune_result:
  assumes "mem_keys_ok st" "mem_prune_seeded_keys_not_in st p keep = (st', r)"
  shows "mem_keys_ok st' \<and>
    (case r of
       Inl e \<Rightarrow> mem_key st' = mem_key st
     | Inr n \<Rightarrow> mem_key st' = (\<lambda>i. case mem_key st i of
           None \<Rightarrow> None
         | Some row \<Rightarrow> if kr_project_id row = p \<and> kr_origin row = KEY_ORIGIN_CONFIG \<and> i \<notin> set keep
                       then None else Some row))"
proof -
  define rm where "rm = map kr_id (filter (\<lambda>k. kr_project_id k = p \<and> kr_origin k = KEY_ORIGIN_CONFIG
      \<and> kr_id k \<notin> set keep) (hm_values (mm_keys st)))"
  have st': "st' = st\<lparr>mm_keys := fold hm_remove rm (mm_keys st)\<rparr>" "r = Inr (length rm)"
    using assms(2) by (auto simp: mem_prune_seeded_keys_not_in_def rm_def Let_def)
  have rm: "i \<in> set rm \<longleftrightarrow> (\<exists>row. mem_key st i = Some row \<and> kr_project_id row = p
      \<and> kr_origin row = KEY_ORIGIN_CONFIG \<and> i \<notin> set keep)" for i
  proof
    assume "i \<in> set rm"
    then obtain row where "row \<in> set (hm_values (mm_keys st))" "kr_project_id row = p"
        "kr_origin row = KEY_ORIGIN_CONFIG" "i \<notin> set keep" "i = kr_id row" by (auto simp: rm_def)
    with mem_key_value [OF assms(1)] show "\<exists>row. mem_key st i = Some row \<and> kr_project_id row = p
      \<and> kr_origin row = KEY_ORIGIN_CONFIG \<and> i \<notin> set keep" by blast
  next
    assume "\<exists>row. mem_key st i = Some row \<and> kr_project_id row = p
      \<and> kr_origin row = KEY_ORIGIN_CONFIG \<and> i \<notin> set keep"
    then obtain row where r: "mem_key st i = Some row" "kr_project_id row = p"
        "kr_origin row = KEY_ORIGIN_CONFIG" "i \<notin> set keep" by blast
    moreover have "kr_id row = i" using r(1) assms(1) by (simp add: mem_keys_ok_def mem_key_def)
    moreover have "row \<in> set (hm_values (mm_keys st))" using r(1) by (auto simp: mem_key_def dest: hm_get_SomeD)
    ultimately show "i \<in> set rm" by (auto simp: rm_def)
  qed
  have "mem_key st' i = (case mem_key st i of
           None \<Rightarrow> None
         | Some row \<Rightarrow> if kr_project_id row = p \<and> kr_origin row = KEY_ORIGIN_CONFIG \<and> i \<notin> set keep
                       then None else Some row)" for i
    using rm [of i] by (auto simp: st' mem_key_def hm_get_fold_remove split: option.split)
  moreover have "mem_keys_ok st'"
    using assms(1) by (auto simp: st' mem_keys_ok_def hm_get_fold_remove intro: hm_wf_fold_remove split: if_splits)
  ultimately show ?thesis by (auto simp: st'(2) fun_eq_iff)
qed

interpretation mem_keys: key_store_contract mem_metadata_ops mem_key mem_keys_ok
proof unfold_locales
  fix st h row
  assume "mem_keys_ok st" "find_key_by_hash mem_metadata_ops st h = Inr (Some row)"
  then show "kr_hash row = h \<and> mem_key st (kr_id row) = Some row" by (rule mem_find_result(1))
next
  fix st h i row
  assume "mem_keys_ok st" "find_key_by_hash mem_metadata_ops st h = Inr None" "mem_key st i = Some row"
  then show "kr_hash row \<noteq> h" by (rule mem_find_result(2))
next
  fix st now i st' rr
  assume "mem_keys_ok st" "revoke_key mem_metadata_ops st now i = (st', rr)"
  then show "mem_keys_ok st' \<and>
    (case rr of
       Inl e \<Rightarrow> mem_key st' = mem_key st
     | Inr _ \<Rightarrow> (\<exists>row. mem_key st i = Some row \<and>
         mem_key st' = (mem_key st)(i \<mapsto> row\<lparr>kr_status := ''revoked'', kr_revoked_at := Some now\<rparr>)))"
    by (intro mem_revoke_result) (simp_all add: mem_metadata_ops_def)
next
  fix st now k st' ru
  assume "mem_keys_ok st" "upsert_seeded_key mem_metadata_ops st now k = (st', ru)"
  then show "mem_keys_ok st' \<and>
    (case ru of
       Inl e \<Rightarrow> mem_key st' = mem_key st
     | Inr row \<Rightarrow> mem_key st' = (mem_key st)(nk_id k \<mapsto> row)
         \<and> kr_id row = nk_id k \<and> kr_hash row = nk_hash k \<and> kr_project_id row = nk_project_id k
         \<and> kr_status row = ''active'' \<and> kr_expires_at row = nk_expires_at k
         \<and> kr_origin row = KEY_ORIGIN_CONFIG
         \<and> (\<forall>old. mem_key st (nk_id k) = Some old \<longrightarrow> kr_origin old = KEY_ORIGIN_CONFIG))"
    by (intro mem_upsert_seeded_result) (simp_all add: mem_metadata_ops_def)
next
  fix st p keep st' rp
  assume "mem_keys_ok st" "prune_seeded_keys_not_in mem_metadata_ops st p keep = (st', rp)"
  then show "mem_keys_ok st' \<and>
    (case rp of
       Inl e \<Rightarrow> mem_key st' = mem_key st
     | Inr n \<Rightarrow> mem_key st' = (\<lambda>i. case mem_key st i of
           None \<Rightarrow> None
         | Some row \<Rightarrow> if kr_project_id row = p \<and> kr_origin row = KEY_ORIGIN_CONFIG \<and> i \<notin> set keep
                       then None else Some row))"
    by (intro mem_prune_result) (simp_all add: mem_metadata_ops_def)
qed

section \<open>Properties\<close>

lemma mem_append_records:
  "ml_records (fst (mem_append st r)) =
     (if ml_capacity st \<le> length (ml_records st) then tl (ml_records st) else ml_records st) @ [r]"
  by (simp add: mem_append_def Let_def)

lemma mem_append_capacity: "ml_capacity (fst (mem_append st r)) = ml_capacity st"
  by (simp add: mem_append_def Let_def)

text \<open>the in-memory log is a ring buffer: after any sequence of appends to an empty store with capacity
  \<open>c > 0\<close> it holds exactly the last \<open>c\<close> records (all of them while there are at most \<open>c\<close>), in
  order of arrival.\<close>

theorem mem_append_ring:
  assumes "0 < c"
  shows "ml_records (fold (\<lambda>r st. fst (mem_append st r)) rs (mem_logs_new c)) = drop (length rs - c) rs"
proof (induction rs rule: rev_induct)
  case Nil
  then show ?case by (simp add: mem_logs_new_def)
next
  case (snoc r rs)
  let ?st = "fold (\<lambda>r st. fst (mem_append st r)) rs (mem_logs_new c)"
  have cap: "ml_capacity ?st = c"
    by (induction rs rule: rev_induct) (simp_all add: mem_append_capacity mem_logs_new_def)
  show ?case
  proof (cases "length rs < c")
    case True
    with snoc cap show ?thesis by (simp add: mem_append_records)
  next
    case False
    then have "Suc (length rs) - c = Suc (length rs - c)" by simp
    with False snoc cap assms show ?thesis by (simp add: mem_append_records drop_Suc tl_drop)
  qed
qed

theorem mem_append_ring_witness:
  "\<forall>r. ml_records (fold (\<lambda>r st. fst (mem_append st r)) [r, r\<lparr>lr_id := ''b''\<rparr>, r\<lparr>lr_id := ''c''\<rparr>] (mem_logs_new 2))
     = [r\<lparr>lr_id := ''b''\<rparr>, r\<lparr>lr_id := ''c''\<rparr>]"
  by (intro allI, subst mem_append_ring) (simp_all add: numeral_eq_Suc)

text \<open>a log query answers newest first, with at most the requested number of rows (50 by default, never more than
  500), all of them matching the query, and leaves out a matching record only when the page is full and
  the record is not newer than any row of the page.\<close>

theorem mem_query_page:
  assumes "mem_query st q = Inr pg"
  shows "length (items pg) \<le> query_limit q \<and> query_limit q \<le> 500
    \<and> sorted_wrt (\<lambda>a b. lw_request_ts b \<le> lw_request_ts a) (items pg)
    \<and> set (items pg) \<subseteq> row_of ` {r \<in> set (ml_records st). query_matches q r}
    \<and> (\<forall>r \<in> set (ml_records st). query_matches q r \<and> row_of r \<notin> set (items pg) \<longrightarrow>
         length (items pg) = query_limit q \<and> (\<forall>w \<in> set (items pg). lr_request_ts r \<le> lw_request_ts w))"
proof -
  define ws where "ws = sort_key (\<lambda>w. - lw_request_ts w) (map row_of (filter (query_matches q) (ml_records st)))"
  define n where "n = query_limit q"
  have pg: "items pg = take n ws" using assms by (auto simp: mem_query_def ws_def n_def)
  have srt: "sorted_wrt (\<lambda>a b. lw_request_ts b \<le> lw_request_ts a) ws"
    using sorted_sort_key [of "\<lambda>w. - lw_request_ts w" "map row_of (filter (query_matches q) (ml_records st))"]
    by (simp add: ws_def sorted_wrt_map)
  have sets: "set ws = row_of ` {r \<in> set (ml_records st). query_matches q r}" by (auto simp: ws_def)
  have later: "length (take n ws) = n \<and> (\<forall>w \<in> set (take n ws). lw_request_ts x \<le> lw_request_ts w)"
    if "x \<in> set ws" "x \<notin> set (take n ws)" for x
  proof -
    from that have x: "x \<in> set (drop n ws)" by (metis Un_iff append_take_drop_id set_append)
    with srt have "\<forall>w \<in> set (take n ws). lw_request_ts x \<le> lw_request_ts w"
      by (metis append_take_drop_id sorted_wrt_append)
    moreover from x have "n < length ws" by (metis drop_all empty_iff empty_set not_le)
    ultimately show ?thesis by simp
  qed
  have "lr_request_ts r = lw_request_ts (row_of r)" for r by (simp add: row_of_def)
  with later sets have "\<forall>r \<in> set (ml_records st). query_matches q r \<and> row_of r \<notin> set (take n ws) \<longrightarrow>
      length (take n ws) = n \<and> (\<forall>w \<in> set (take n ws). lr_request_ts r \<le> lw_request_ts w)" by auto
  moreover have "set (take n ws) \<subseteq> row_of ` {r \<in> set (ml_records st). query_matches q r}"
    using sets set_take_subset [of n ws] by simp
  moreover have "n \<le> 500" by (simp add: n_def query_limit_def)
  ultimately show ?thesis using srt by (simp add: pg sorted_wrt_take flip: n_def)
qed

definition demo_log :: "string \<Rightarrow> timestamp \<Rightarrow> request_log_record" where
  "demo_log ident ts = \<lparr>lr_id = ident, lr_project_id = ''default'', lr_gateway_key_id = None,
     lr_namespace = Some ''oa'', lr_model = Some ''m'', lr_endpoint = None, lr_request_ts = ts,
     lr_duration_ms = None, lr_upstream_ms = None, lr_ttfb_ms = None, lr_status = ''success'',
     lr_http_status = Some 200, lr_cached = False, lr_retry_count = 0, lr_fallback_used = None,
     lr_prompt_tokens = Some 10, lr_completion_tokens = Some 5, lr_cached_tokens = None,
     lr_total_tokens = Some 15, lr_cost_usd = None, lr_would_have_cost_usd = None, lr_metadata = None,
     lr_client_ip = None, lr_user_agent = None, lr_error_message = None, lr_request_body = None,
     lr_response_body = None\<rparr>"

theorem mem_query_page_witness:
  "\<exists>pg. mem_query \<lparr>ml_records = [demo_log ''a'' 1, demo_log ''b'' 2], ml_capacity = 5\<rparr>
      \<lparr>q_project_id = None, q_gateway_key_id = None, q_namespace = None, q_model = None, q_status = None,
       q_from_ts = None, q_to_ts = None, q_limit = 1, q_cursor = None\<rparr> = Inr pg
     \<and> length (items pg) \<le> 1"
proof -
  obtain pg where pg: "mem_query \<lparr>ml_records = [demo_log ''a'' 1, demo_log ''b'' 2], ml_capacity = 5\<rparr>
      \<lparr>q_project_id = None, q_gateway_key_id = None, q_namespace = None, q_model = None, q_status = None,
       q_from_ts = None, q_to_ts = None, q_limit = 1, q_cursor = None\<rparr> = Inr pg" by (simp add: mem_query_def)
  from mem_query_page [OF pg] have "length (items pg) \<le> 1" by (simp add: query_limit_def)
  with pg show ?thesis by blast
qed

text \<open>recomputing costs touches exactly the log lines of the given provider and model that carry token
  counts and lie in the time range; each gets the would-have cost that the request-time calculation
  gives for its token counts at these prices, and the same cost unless it was a cache hit, which
  costs nothing; the number reported is the number of lines updated.\<close>

theorem recompute_costs_spec:
  assumes "cached_input_per_1k e = Some cinp"
  shows "mem_recompute_costs st provider model (input_per_1k e) cinp (output_per_1k e) from until =
    (st\<lparr>ml_records := map (\<lambda>r.
        if recompute_selects provider model from until r
        then (let cost = cb_cost_usd (apply_price e
                    \<lparr>tu_prompt = unwrap_or (lr_prompt_tokens r) 0,
                     tu_completion = unwrap_or (lr_completion_tokens r) 0,
                     tu_cached = unwrap_or (lr_cached_tokens r) 0\<rparr>)
              in r\<lparr>lr_would_have_cost_usd := Some cost, lr_cost_usd := Some (if lr_cached r then f64_0 else cost)\<rparr>)
        else r) (ml_records st)\<rparr>,
     Inr (length (filter (recompute_selects provider model from until) (ml_records st))))"
  using assms
  by (auto simp: mem_recompute_costs_def recompute_row_def apply_price_def Let_def intro!: map_cong)

theorem recompute_costs_spec_witness:
  "snd (mem_recompute_costs \<lparr>ml_records = [demo_log ''a'' 1, demo_log ''b'' 9], ml_capacity = 5\<rparr>
      ''oa'' ''m'' (Finite 1) (Finite 1) (Finite 2) None (Some 5)) = Inr 1"
  using recompute_costs_spec [of "\<lparr>pe_provider = ''oa'', pe_model = ''m'', input_per_1k = Finite 1,
      output_per_1k = Finite 2, cached_input_per_1k = Some (Finite 1)\<rparr>" "Finite 1"
      "\<lparr>ml_records = [demo_log ''a'' 1, demo_log ''b'' 9], ml_capacity = 5\<rparr>" "''oa''" "''m''" None "Some 5"]
  by (simp add: recompute_selects_def demo_log_def log_provider_def has_tokens_def in_range_def opt_ok_def)

text \<open>the pairs that the cost recomputation iterates over are exactly the provider and model pairs it can
  update: a pair is listed if and only if some log line in the range would be selected for it, and
  no pair is listed twice.\<close>

theorem distinct_cost_keys_exact:
  "\<exists>ks. mem_distinct_cost_keys st from until = Inr ks \<and> distinct ks \<and> sorted ks
    \<and> (\<forall>p m. (p, m) \<in> set ks \<longleftrightarrow> (\<exists>r \<in> set (ml_records st). recompute_selects p m from until r))"
proof -
  define ks where "ks = List.map_filter cost_key
       (filter (\<lambda>r. has_tokens r \<and> in_range from until r) (ml_records st))"
  have key: "cost_key r = Some (p, m) \<longleftrightarrow> log_provider r = Some p \<and> lr_model r = Some m" for r p m
    by (auto simp: cost_key_def split: bind_splits)
  have "(p, m) \<in> set ks \<longleftrightarrow> (\<exists>r \<in> set (ml_records st). recompute_selects p m from until r)" for p m
    by (auto simp: ks_def in_map_filter key recompute_selects_def)
  moreover have "distinct (remdups_adj (sort ks))"
    by (simp add: distinct_remdups_adj_sorted)
  ultimately show ?thesis
    by (simp add: mem_distinct_cost_keys_def sorted_remdups_adj flip: ks_def)
qed

end
