(* ===== verification/Sqlite_Logs.thy ===== *)
theory Sqlite_Logs
  imports Batch_Log Sql Memory_Store
begin

text \<open>
  The SQLite log store (\<open>gateway-storage/src/sqlite/logs.rs\<close>): the batching worker writes the table
  \<open>request_logs\<close>, the other operations query and update it. Scalar functions of the database (the JSON path, dates,
  the summation of floating-point columns, rounding) are parameters.
\<close>

section \<open>The table\<close>

record log_ext = sql_ext +
  lx_provider :: "string \<Rightarrow> string option"
  lx_day :: "int \<Rightarrow> string"
  lx_hour :: "int \<Rightarrow> string"
  lx_sum :: "f64 list \<Rightarrow> f64"
  lx_round6 :: "f64 \<Rightarrow> f64"

text \<open>A row is the record with its metadata as text; the metadata field of \<open>lt_cols\<close> is not used.\<close>

record log_tuple =
  lt_cols :: request_log_record
  lt_metadata :: "string option"

record log_db =
  lg_rows :: "log_tuple list"
  lg_fault :: "nat \<Rightarrow> string option"

definition BATCH_MAX_ROWS :: nat where "BATCH_MAX_ROWS = 200"
definition CHANNEL_CAPACITY :: nat where "CHANNEL_CAPACITY = 4096"

text \<open>\<open>NULL\<close> for a NaN, as SQLite stores it.\<close>

definition null_nan :: "f64 option \<Rightarrow> f64 option" where
  "null_nan v = (if v = Some NaN then None else v)"

definition log_tuple_of :: "log_ext \<Rightarrow> request_log_record \<Rightarrow> log_tuple" where
  "log_tuple_of x rec = \<lparr>lt_cols = rec\<lparr>lr_metadata := None, lr_cost_usd := null_nan (lr_cost_usd rec),
       lr_would_have_cost_usd := null_nan (lr_would_have_cost_usd rec)\<rparr>,
     lt_metadata = map_option (sx_enc x) (lr_metadata rec)\<rparr>"

text \<open>One multi-row INSERT: a duplicate id, in the table or in the batch, or a failing connection rejects all of its rows.
  The worker only counts and logs the error.\<close>

definition insert_logs :: "log_ext \<Rightarrow> request_log_record list \<Rightarrow> log_db \<Rightarrow> log_db" where
  "insert_logs x recs db =
     (if lg_fault db 0 = None \<and> distinct (map lr_id recs) \<and> (\<forall>r \<in> set recs. \<forall>t \<in> set (lg_rows db). lr_id (lt_cols t) \<noteq> lr_id r)
      then db\<lparr>lg_rows := lg_rows db @ map (log_tuple_of x) recs\<rparr>
      else db)"

type_synonym sq_logs = "log_db log_store"

definition sq_append :: "sq_logs \<Rightarrow> request_log_record \<Rightarrow> sq_logs \<times> unit sresult" where
  "sq_append st rec = bl_append CHANNEL_CAPACITY st rec"

definition sq_worker_turn :: "log_ext \<Rightarrow> sq_logs \<Rightarrow> sq_logs" where
  "sq_worker_turn x st = bl_turn BATCH_MAX_ROWS (insert_logs x) st"

definition sq_flush :: "log_ext \<Rightarrow> sq_logs \<Rightarrow> sq_logs \<times> unit sresult" where
  "sq_flush x st = bl_flush BATCH_MAX_ROWS (insert_logs x) st"

section \<open>Queries\<close>

definition encode_cursor :: "timestamp \<Rightarrow> string \<Rightarrow> string" where
  "encode_cursor ts ident = show_int ts @ [CHR '':''] @ ident"

definition parse_cursor :: "string \<Rightarrow> (timestamp \<times> string) option" where
  "parse_cursor c =
     (case split_once (CHR '':'') c of
        None \<Rightarrow> None
      | Some (ts, ident) \<Rightarrow> (case parse_i64 ts of None \<Rightarrow> None | Some t \<Rightarrow> Some (t, ident)))"

definition sq_where :: "log_query \<Rightarrow> request_log_record \<Rightarrow> bool" where
  "sq_where q r \<longleftrightarrow>
     opt_ok (q_project_id q) (\<lambda>v. lr_project_id r = v)
     \<and> opt_ok (q_gateway_key_id q) (\<lambda>v. lr_gateway_key_id r = Some v)
     \<and> opt_ok (q_namespace q) (\<lambda>v. lr_namespace r = Some v)
     \<and> opt_ok (q_model q) (\<lambda>v. lr_model r = Some v)
     \<and> opt_ok (q_status q) (\<lambda>v. lr_status r = v)
     \<and> opt_ok (q_from_ts q) (\<lambda>v. v \<le> lr_request_ts r)
     \<and> opt_ok (q_to_ts q) (\<lambda>v. lr_request_ts r \<le> v)"

definition before_cursor :: "log_query \<Rightarrow> request_log_record \<Rightarrow> bool" where
  "before_cursor q r =
     opt_ok (Option.bind (q_cursor q) parse_cursor)
       (\<lambda>(ts, ident). lr_request_ts r < ts \<or> (lr_request_ts r = ts \<and> lr_id r < ident))"

text \<open>\<open>ORDER BY request_ts DESC, id DESC\<close>.\<close>

definition log_order :: "request_log_record \<Rightarrow> timestamp \<times> string" where
  "log_order r = (lr_request_ts r, lr_id r)"

definition order_desc :: "request_log_record list \<Rightarrow> request_log_record list" where
  "order_desc rs = rev (sort_key log_order rs)"

definition sq_query :: "log_ext \<Rightarrow> sq_logs \<Rightarrow> log_query \<Rightarrow> request_log_row page sresult" where
  "sq_query x st q =
     (let limit = (if q_limit q = 0 then 50 else min (q_limit q) 500) in
      case lg_fault (ls_table st) 0 of
        Some m \<Rightarrow> Inl (SDatabase (sx_msg x (ConnError m)))
      | None \<Rightarrow>
          (let rows = take (limit + 1)
                 (order_desc (filter (\<lambda>r. sq_where q r \<and> before_cursor q r) (map lt_cols (lg_rows (ls_table st)))));
               its = map row_of (take limit rows)
           in Inr \<lparr>items = its,
                   next_cursor = (if length rows > limit \<and> its \<noteq> []
                                  then Some (encode_cursor (lw_request_ts (last its)) (lw_id (last its))) else None)\<rparr>))"

definition sq_get_by_id :: "log_ext \<Rightarrow> sq_logs \<Rightarrow> string \<Rightarrow> request_log_record option sresult" where
  "sq_get_by_id x st ident =
     (case lg_fault (ls_table st) 0 of
        Some m \<Rightarrow> Inl (SDatabase (sx_msg x (ConnError m)))
      | None \<Rightarrow>
          (case List.find (\<lambda>t. lr_id (lt_cols t) = ident) (lg_rows (ls_table st)) of
             None \<Rightarrow> Inr None
           | Some t \<Rightarrow>
               (case lt_metadata t of
                  None \<Rightarrow> Inr (Some ((lt_cols t)\<lparr>lr_metadata := None\<rparr>))
                | Some s \<Rightarrow>
                    if s = [] then Inr (Some ((lt_cols t)\<lparr>lr_metadata := None\<rparr>))
                    else (case sx_dec x s of
                            Inl m \<Rightarrow> Inl (SSerde m)
                          | Inr v \<Rightarrow> Inr (Some ((lt_cols t)\<lparr>lr_metadata := Some v\<rparr>))))))"

section \<open>Aggregation\<close>

text \<open>SQL's integer division truncates.\<close>

definition sql_idiv :: "int \<Rightarrow> int \<Rightarrow> int" where
  "sql_idiv a b = (if a < 0 then - ((- a) div b) else a div b)"

definition opt_json_str :: "string option \<Rightarrow> json" where
  "opt_json_str s = (case s of None \<Rightarrow> JNull | Some v \<Rightarrow> JString v)"

fun dim_value :: "log_ext \<Rightarrow> aggregate_dimension \<Rightarrow> request_log_record \<Rightarrow> string \<times> json" where
  "dim_value x DimNamespace r = (''namespace'', opt_json_str (lr_namespace r))"
| "dim_value x DimModel r = (''model'', opt_json_str (lr_model r))"
| "dim_value x DimGatewayKey r = (''gateway_key_id'', opt_json_str (lr_gateway_key_id r))"
| "dim_value x DimDay r = (''day'', JString (lx_day x (sql_idiv (lr_request_ts r) 1000)))"
| "dim_value x DimHour r = (''hour'', JString (lx_hour x (sql_idiv (lr_request_ts r) 1000)))"

definition group_key :: "log_ext \<Rightarrow> aggregate_dimension list \<Rightarrow> request_log_record \<Rightarrow> (string \<times> json) list" where
  "group_key x dims r = fold (\<lambda>d m. obj_insert (fst (dim_value x d r)) (snd (dim_value x d r)) m) dims []"

text \<open>\<open>COALESCE(SUM(c), 0)\<close> of an integer column: the non-null values; SQLite reports an overflow.\<close>

definition sum_column :: "(request_log_record \<Rightarrow> int option) \<Rightarrow> request_log_record list \<Rightarrow> sql_error + int" where
  "sum_column c rs = (let s = sum_list (List.map_filter c rs) in if in_i64 s then Inr s else Inl OutOfRange)"

definition sum_real :: "log_ext \<Rightarrow> f64 list \<Rightarrow> f64" where
  "sum_real x vs = (if vs = [] then f64_0 else lx_sum x vs)"

definition savings :: "request_log_record \<Rightarrow> f64 option" where
  "savings r = (case (lr_would_have_cost_usd r, lr_cost_usd r) of
      (Some w, Some c) \<Rightarrow> null_nan (Some (f64_add w (f64_mul (Finite (-1)) c))) | _ \<Rightarrow> None)"

definition group_row :: "log_ext \<Rightarrow> json \<Rightarrow> request_log_record list \<Rightarrow> sql_error + aggregate_group" where
  "group_row x key rs =
     (case (sum_column lr_prompt_tokens rs, sum_column lr_completion_tokens rs) of
        (Inr p, Inr c) \<Rightarrow> Inr \<lparr>ag_key = key, ag_requests = int (length rs), ag_prompt_tokens = p, ag_completion_tokens = c,
            ag_cost_usd = sum_real x (List.map_filter lr_cost_usd rs), ag_cached_savings_usd = sum_real x (List.map_filter savings rs)\<rparr>
      | _ \<Rightarrow> Inl OutOfRange)"

text \<open>\<open>ORDER BY cost_usd DESC\<close> on floating-point values.\<close>

fun cost_rank :: "f64 \<Rightarrow> int \<times> rat" where
  "cost_rank NaN = (3, 0)"
| "cost_rank (Infinity neg) = (if neg then 2 else 0, 0)"
| "cost_rank (Finite q) = (1, - q)"

fun group_rows :: "log_ext \<Rightarrow> aggregate_dimension list \<Rightarrow> request_log_record list \<Rightarrow> (string \<times> json) list list
    \<Rightarrow> sql_error + aggregate_group list" where
  "group_rows x dims rs [] = Inr []"
| "group_rows x dims rs (k # ks) =
     (case group_row x (JObject k) (filter (\<lambda>r. group_key x dims r = k) rs) of
        Inl e \<Rightarrow> Inl e
      | Inr g \<Rightarrow> (case group_rows x dims rs ks of Inl e \<Rightarrow> Inl e | Inr gs \<Rightarrow> Inr (g # gs)))"

definition aggregate_where :: "aggregate_query \<Rightarrow> request_log_record \<Rightarrow> bool" where
  "aggregate_where q r \<longleftrightarrow> opt_ok (aq_project_id q) (\<lambda>v. lr_project_id r = v)
     \<and> opt_ok (aq_from_ts q) (\<lambda>v. v \<le> lr_request_ts r) \<and> opt_ok (aq_to_ts q) (\<lambda>v. lr_request_ts r \<le> v)"

definition sq_aggregate :: "log_ext \<Rightarrow> sq_logs \<Rightarrow> aggregate_query \<Rightarrow> aggregate_result sresult" where
  "sq_aggregate x st q =
     (case lg_fault (ls_table st) 0 of
        Some m \<Rightarrow> Inl (SDatabase (sx_msg x (ConnError m)))
      | None \<Rightarrow>
          (let rs = filter (aggregate_where q) (map lt_cols (lg_rows (ls_table st)));
               groups = (if aq_group_by q = [] then map_sum id (\<lambda>g. [g]) (group_row x (JObject []) rs)
                         else map_sum id (\<lambda>gs. take 500 (sort_key (\<lambda>g. cost_rank (ag_cost_usd g)) gs))
                                (group_rows x (aq_group_by q) rs (remdups (map (group_key x (aq_group_by q)) rs))))
           in case groups of
                Inl e \<Rightarrow> Inl (SDatabase (sx_msg x e))
              | Inr gs \<Rightarrow> Inr \<lparr>ar_groups = gs, ar_total_cost_usd = foldl f64_add f64_0 (map ag_cost_usd gs)\<rparr>))"

section \<open>Maintenance\<close>

definition sq_purge_older_than :: "log_ext \<Rightarrow> sq_logs \<Rightarrow> timestamp \<Rightarrow> sq_logs \<times> nat sresult" where
  "sq_purge_older_than x st ts =
     (let db = ls_table st in
      case lg_fault db 0 of
        Some m \<Rightarrow> (st, Inl (SDatabase (sx_msg x (ConnError m))))
      | None \<Rightarrow> (st\<lparr>ls_table := db\<lparr>lg_rows := filter (\<lambda>t. ts \<le> lr_request_ts (lt_cols t)) (lg_rows db)\<rparr>\<rparr>,
                 Inr (count_where (\<lambda>t. lr_request_ts (lt_cols t) < ts) (lg_rows db))))"

text \<open>\<open>COALESCE(fallback_used, json_extract(metadata, '$.attempts[#-1].provider'), namespace)\<close>.\<close>

definition tuple_provider :: "log_ext \<Rightarrow> log_tuple \<Rightarrow> string option" where
  "tuple_provider x t =
     or_else (lr_fallback_used (lt_cols t)) (or_else (Option.bind (lt_metadata t) (lx_provider x)) (lr_namespace (lt_cols t)))"

definition sq_distinct_cost_keys :: "log_ext \<Rightarrow> sq_logs \<Rightarrow> timestamp option \<Rightarrow> timestamp option \<Rightarrow> (string \<times> string) list sresult" where
  "sq_distinct_cost_keys x st from until =
     (let db = ls_table st in
      case lg_fault db 0 of
        Some m \<Rightarrow> Inl (SDatabase (sx_msg x (ConnError m)))
      | None \<Rightarrow> Inr (remdups (List.map_filter
          (\<lambda>t. Option.bind (tuple_provider x t) (\<lambda>p. map_option (\<lambda>m. (p, m)) (lr_model (lt_cols t))))
          (filter (\<lambda>t. has_tokens (lt_cols t) \<and> in_range from until (lt_cols t)) (lg_rows db)))))"

text \<open>\<open>MAX(COALESCE(prompt_tokens, 0) - COALESCE(cached_tokens, 0), 0)\<close> as a real; an integer subtraction that overflows is done
  in floating point.\<close>

definition sql_uncached :: "int \<Rightarrow> int \<Rightarrow> f64" where
  "sql_uncached prompt cached =
     (if in_i64 (prompt - cached) then f64_of_int (max (prompt - cached) 0)
      else (let d = f64_add (f64_of_int prompt) (f64_mul (Finite (-1)) (f64_of_int cached)) in if f64_lt d f64_0 then f64_0 else d))"

definition sql_cost :: "log_ext \<Rightarrow> f64 \<Rightarrow> f64 \<Rightarrow> f64 \<Rightarrow> request_log_record \<Rightarrow> f64" where
  "sql_cost x inp cinp out r =
     (let prompt = unwrap_or (lr_prompt_tokens r) 0; cached = unwrap_or (lr_cached_tokens r) 0;
          completion = unwrap_or (lr_completion_tokens r) 0
      in lx_round6 x (f64_div (f64_add (f64_add (f64_mul (sql_uncached prompt cached) inp)
            (f64_mul (f64_of_int cached) cinp)) (f64_mul (f64_of_int completion) out)) (Finite 1000)))"

definition sql_reprice :: "log_ext \<Rightarrow> f64 \<Rightarrow> f64 \<Rightarrow> f64 \<Rightarrow> log_tuple \<Rightarrow> log_tuple" where
  "sql_reprice x inp cinp out t =
     (let r = lt_cols t; cost = sql_cost x inp cinp out r
      in t\<lparr>lt_cols := r\<lparr>lr_would_have_cost_usd := null_nan (Some cost),
                         lr_cost_usd := (if lr_cached r then Some f64_0 else null_nan (Some cost))\<rparr>\<rparr>)"

definition sql_reprice_where :: "log_ext \<Rightarrow> string \<Rightarrow> string \<Rightarrow> timestamp option \<Rightarrow> timestamp option \<Rightarrow> log_tuple \<Rightarrow> bool" where
  "sql_reprice_where x provider model from until t \<longleftrightarrow> tuple_provider x t = Some provider \<and> lr_model (lt_cols t) = Some model
     \<and> has_tokens (lt_cols t) \<and> in_range from until (lt_cols t)"

definition sq_recompute_costs :: "log_ext \<Rightarrow> sq_logs \<Rightarrow> string \<Rightarrow> string \<Rightarrow> f64 \<Rightarrow> f64 \<Rightarrow> f64 \<Rightarrow> timestamp option \<Rightarrow> timestamp option
    \<Rightarrow> sq_logs \<times> nat sresult" where
  "sq_recompute_costs x st provider model inp cinp out from until =
     (let db = ls_table st; P = sql_reprice_where x provider model from until in
      case lg_fault db 0 of
        Some m \<Rightarrow> (st, Inl (SDatabase (sx_msg x (ConnError m))))
      | None \<Rightarrow> (st\<lparr>ls_table := db\<lparr>lg_rows := upd_where P (sql_reprice x inp cinp out) (lg_rows db)\<rparr>\<rparr>,
                 Inr (count_where P (lg_rows db))))"

definition sq_log_ops :: "log_ext \<Rightarrow> sq_logs log_ops" where
  "sq_log_ops x = \<lparr>log_append = sq_append, log_query_rows = sq_query x, get_by_id = sq_get_by_id x,
     log_aggregate = sq_aggregate x, purge_older_than = sq_purge_older_than x,
     distinct_cost_keys = sq_distinct_cost_keys x, recompute_costs = sq_recompute_costs x, log_flush = sq_flush x\<rparr>"

end
