(* ===== verification/Postgres_Logs.thy ===== *)
theory Postgres_Logs
  imports Sqlite_Logs
begin

text \<open>
  The PostgreSQL log store (\<open>gateway-storage/src/postgres/logs.rs\<close>): the same worker with larger batches, and
  queries that differ from the SQLite ones in the cursor, the treatment of NaN and arithmetic errors. The
  summation of a floating-point column is a parameter and total, so an overflow of such a sum, which PostgreSQL reports as an
  error, has no counterpart.
\<close>

definition PG_BATCH_MAX_ROWS :: nat where "PG_BATCH_MAX_ROWS = 500"
definition PG_CHANNEL_CAPACITY :: nat where "PG_CHANNEL_CAPACITY = 8192"

definition pg_log_tuple :: "log_ext \<Rightarrow> request_log_record \<Rightarrow> log_tuple" where
  "pg_log_tuple x rec = \<lparr>lt_cols = rec\<lparr>lr_metadata := None\<rparr>, lt_metadata = map_option (sx_enc x) (lr_metadata rec)\<rparr>"

definition pg_insert_logs :: "log_ext \<Rightarrow> request_log_record list \<Rightarrow> log_db \<Rightarrow> log_db" where
  "pg_insert_logs x recs db =
     (if lg_fault db 0 = None \<and> distinct (map lr_id recs) \<and> (\<forall>r \<in> set recs. \<forall>t \<in> set (lg_rows db). lr_id (lt_cols t) \<noteq> lr_id r)
      then db\<lparr>lg_rows := lg_rows db @ map (pg_log_tuple x) recs\<rparr>
      else db)"

type_synonym pg_logs = "log_db log_store"

definition pg_append :: "pg_logs \<Rightarrow> request_log_record \<Rightarrow> pg_logs \<times> unit sresult" where
  "pg_append st rec = bl_append PG_CHANNEL_CAPACITY st rec"

definition pg_worker_turn :: "log_ext \<Rightarrow> pg_logs \<Rightarrow> pg_logs" where
  "pg_worker_turn x st = bl_turn PG_BATCH_MAX_ROWS (pg_insert_logs x) st"

definition pg_flush :: "log_ext \<Rightarrow> pg_logs \<Rightarrow> pg_logs \<times> unit sresult" where
  "pg_flush x st = bl_flush PG_BATCH_MAX_ROWS (pg_insert_logs x) st"

text \<open>The query looks at every filter but the cursor.\<close>

definition pg_query :: "log_ext \<Rightarrow> pg_logs \<Rightarrow> log_query \<Rightarrow> request_log_row page sresult" where
  "pg_query x st q =
     (let limit = (if q_limit q = 0 then 50 else min (q_limit q) 500) in
      case lg_fault (ls_table st) 0 of
        Some m \<Rightarrow> Inl (SDatabase (sx_msg x (ConnError m)))
      | None \<Rightarrow>
          (let rows = take (limit + 1) (order_desc (filter (sq_where q) (map lt_cols (lg_rows (ls_table st)))));
               its = map row_of (take limit rows)
           in Inr \<lparr>items = its,
                   next_cursor = (if length rows > limit \<and> its \<noteq> []
                                  then Some (show_int (lw_request_ts (last its)) @ [CHR '':''] @ lw_id (last its)) else None)\<rparr>))"

definition pg_get_by_id :: "log_ext \<Rightarrow> pg_logs \<Rightarrow> string \<Rightarrow> request_log_record option sresult" where
  "pg_get_by_id x st ident =
     (case lg_fault (ls_table st) 0 of
        Some m \<Rightarrow> Inl (SDatabase (sx_msg x (ConnError m)))
      | None \<Rightarrow>
          (case List.find (\<lambda>t. lr_id (lt_cols t) = ident) (lg_rows (ls_table st)) of
             None \<Rightarrow> Inr None
           | Some t \<Rightarrow>
               (case lt_metadata t of
                  None \<Rightarrow> Inr (Some ((lt_cols t)\<lparr>lr_metadata := None\<rparr>))
                | Some s \<Rightarrow>
                    if s = [] then Inr (Some ((lt_cols t)\<lparr>lr_metadata := None\<rparr>))
                    else (case sx_dec x s of
                            Inl m \<Rightarrow> Inl (SSerde m)
                          | Inr v \<Rightarrow> Inr (Some ((lt_cols t)\<lparr>lr_metadata := Some v\<rparr>))))))"

text \<open>PostgreSQL keeps a NaN in the sums and orders it above every number.\<close>

definition pg_savings :: "request_log_record \<Rightarrow> f64 option" where
  "pg_savings r = (case (lr_would_have_cost_usd r, lr_cost_usd r) of
      (Some w, Some c) \<Rightarrow> Some (f64_add w (f64_mul (Finite (-1)) c)) | _ \<Rightarrow> None)"

definition pg_group_row :: "log_ext \<Rightarrow> json \<Rightarrow> request_log_record list \<Rightarrow> sql_error + aggregate_group" where
  "pg_group_row x key rs =
     (case (sum_column lr_prompt_tokens rs, sum_column lr_completion_tokens rs) of
        (Inr p, Inr c) \<Rightarrow> Inr \<lparr>ag_key = key, ag_requests = int (length rs), ag_prompt_tokens = p, ag_completion_tokens = c,
            ag_cost_usd = sum_real x (List.map_filter lr_cost_usd rs), ag_cached_savings_usd = sum_real x (List.map_filter pg_savings rs)\<rparr>
      | _ \<Rightarrow> Inl OutOfRange)"

fun pg_group_rows :: "log_ext \<Rightarrow> aggregate_dimension list \<Rightarrow> request_log_record list \<Rightarrow> (string \<times> json) list list
    \<Rightarrow> sql_error + aggregate_group list" where
  "pg_group_rows x dims rs [] = Inr []"
| "pg_group_rows x dims rs (k # ks) =
     (case pg_group_row x (JObject k) (filter (\<lambda>r. group_key x dims r = k) rs) of
        Inl e \<Rightarrow> Inl e
      | Inr g \<Rightarrow> (case pg_group_rows x dims rs ks of Inl e \<Rightarrow> Inl e | Inr gs \<Rightarrow> Inr (g # gs)))"

fun pg_cost_rank :: "f64 \<Rightarrow> int \<times> rat" where
  "pg_cost_rank NaN = (-1, 0)"
| "pg_cost_rank (Infinity neg) = (if neg then 2 else 0, 0)"
| "pg_cost_rank (Finite q) = (1, - q)"

definition pg_aggregate :: "log_ext \<Rightarrow> pg_logs \<Rightarrow> aggregate_query \<Rightarrow> aggregate_result sresult" where
  "pg_aggregate x st q =
     (case lg_fault (ls_table st) 0 of
        Some m \<Rightarrow> Inl (SDatabase (sx_msg x (ConnError m)))
      | None \<Rightarrow>
          (let rs = filter (aggregate_where q) (map lt_cols (lg_rows (ls_table st)));
               groups = (if aq_group_by q = [] then map_sum id (\<lambda>g. [g]) (pg_group_row x (JObject []) rs)
                         else map_sum id (\<lambda>gs. take 500 (sort_key (\<lambda>g. pg_cost_rank (ag_cost_usd g)) gs))
                                (pg_group_rows x (aq_group_by q) rs (remdups (map (group_key x (aq_group_by q)) rs))))
           in case groups of
                Inl e \<Rightarrow> Inl (SDatabase (sx_msg x e))
              | Inr gs \<Rightarrow> Inr \<lparr>ar_groups = gs, ar_total_cost_usd = foldl f64_add f64_0 (map ag_cost_usd gs)\<rparr>))"

definition pg_purge_older_than :: "log_ext \<Rightarrow> pg_logs \<Rightarrow> timestamp \<Rightarrow> pg_logs \<times> nat sresult" where
  "pg_purge_older_than x st ts =
     (let db = ls_table st in
      case lg_fault db 0 of
        Some m \<Rightarrow> (st, Inl (SDatabase (sx_msg x (ConnError m))))
      | None \<Rightarrow> (st\<lparr>ls_table := db\<lparr>lg_rows := filter (\<lambda>t. ts \<le> lr_request_ts (lt_cols t)) (lg_rows db)\<rparr>\<rparr>,
                 Inr (count_where (\<lambda>t. lr_request_ts (lt_cols t) < ts) (lg_rows db))))"

definition pg_distinct_cost_keys :: "log_ext \<Rightarrow> pg_logs \<Rightarrow> timestamp option \<Rightarrow> timestamp option \<Rightarrow> (string \<times> string) list sresult" where
  "pg_distinct_cost_keys x st from until =
     (let db = ls_table st in
      case lg_fault db 0 of
        Some m \<Rightarrow> Inl (SDatabase (sx_msg x (ConnError m)))
      | None \<Rightarrow> Inr (remdups (List.map_filter
          (\<lambda>t. Option.bind (tuple_provider x t) (\<lambda>p. map_option (\<lambda>m. (p, m)) (lr_model (lt_cols t))))
          (filter (\<lambda>t. has_tokens (lt_cols t) \<and> in_range from until (lt_cols t)) (lg_rows db)))))"

text \<open>PostgreSQL reports an arithmetic error where SQLite continues: a \<open>bigint\<close> subtraction that overflows, a
  floating-point operation on finite values with an infinite result, a product or quotient that underflows to zero. Any of them
  fails the whole statement.\<close>

definition pg_add :: "f64 \<Rightarrow> f64 \<Rightarrow> f64 option" where
  "pg_add a b = (let r = f64_add a b in if f64_is_finite a \<and> f64_is_finite b \<and> \<not> f64_is_finite r then None else Some r)"

definition pg_mul :: "f64 \<Rightarrow> f64 \<Rightarrow> f64 option" where
  "pg_mul a b =
     (let r = f64_mul a b in
      if f64_is_finite a \<and> f64_is_finite b \<and> (\<not> f64_is_finite r \<or> (r = f64_0 \<and> a \<noteq> f64_0 \<and> b \<noteq> f64_0)) then None else Some r)"

definition pg_div1000 :: "f64 \<Rightarrow> f64 option" where
  "pg_div1000 a = (let r = f64_div a (Finite 1000) in if f64_is_finite a \<and> r = f64_0 \<and> a \<noteq> f64_0 then None else Some r)"

definition pg_cost :: "log_ext \<Rightarrow> f64 \<Rightarrow> f64 \<Rightarrow> f64 \<Rightarrow> request_log_record \<Rightarrow> f64 option" where
  "pg_cost x inp cinp out r =
     (let prompt = unwrap_or (lr_prompt_tokens r) 0; cached = unwrap_or (lr_cached_tokens r) 0;
          completion = unwrap_or (lr_completion_tokens r) 0
      in if \<not> in_i64 (prompt - cached) then None
         else Option.bind (pg_mul (f64_of_int (max (prompt - cached) 0)) inp) (\<lambda>a.
              Option.bind (pg_mul (f64_of_int cached) cinp) (\<lambda>b.
              Option.bind (pg_add a b) (\<lambda>ab.
              Option.bind (pg_mul (f64_of_int completion) out) (\<lambda>c.
              Option.bind (pg_add ab c) (\<lambda>s. map_option (lx_round6 x) (pg_div1000 s)))))))"

definition pg_reprice :: "log_ext \<Rightarrow> f64 \<Rightarrow> f64 \<Rightarrow> f64 \<Rightarrow> log_tuple \<Rightarrow> log_tuple" where
  "pg_reprice x inp cinp out t =
     (let r = lt_cols t in
      case pg_cost x inp cinp out r of
        None \<Rightarrow> t
      | Some cost \<Rightarrow> t\<lparr>lt_cols := r\<lparr>lr_would_have_cost_usd := Some cost, lr_cost_usd := Some (if lr_cached r then f64_0 else cost)\<rparr>\<rparr>)"

definition pg_recompute_costs :: "log_ext \<Rightarrow> pg_logs \<Rightarrow> string \<Rightarrow> string \<Rightarrow> f64 \<Rightarrow> f64 \<Rightarrow> f64 \<Rightarrow> timestamp option \<Rightarrow> timestamp option
    \<Rightarrow> pg_logs \<times> nat sresult" where
  "pg_recompute_costs x st provider model inp cinp out from until =
     (let db = ls_table st; P = sql_reprice_where x provider model from until in
      case lg_fault db 0 of
        Some m \<Rightarrow> (st, Inl (SDatabase (sx_msg x (ConnError m))))
      | None \<Rightarrow>
          if has_where (\<lambda>t. P t \<and> pg_cost x inp cinp out (lt_cols t) = None) (lg_rows db)
          then (st, Inl (SDatabase (sx_msg x OutOfRange)))
          else (st\<lparr>ls_table := db\<lparr>lg_rows := upd_where P (pg_reprice x inp cinp out) (lg_rows db)\<rparr>\<rparr>,
                Inr (count_where P (lg_rows db))))"

definition pg_log_ops :: "log_ext \<Rightarrow> pg_logs log_ops" where
  "pg_log_ops x = \<lparr>log_append = pg_append, log_query_rows = pg_query x, get_by_id = pg_get_by_id x,
     log_aggregate = pg_aggregate x, purge_older_than = pg_purge_older_than x,
     distinct_cost_keys = pg_distinct_cost_keys x, recompute_costs = pg_recompute_costs x, log_flush = pg_flush x\<rparr>"

end
