(* ===== verification/Log_Correct.thy ===== *)
theory Log_Correct
  imports Postgres_Logs "HOL-Library.Multiset"
begin

text \<open>
  The SQL log stores at work: every record that the channel accepted reaches the table after a bounded number of the
  worker's turns and can be read back unchanged; paging through the SQLite logs ends and shows every
  matching line once; paging through the PostgreSQL logs does not; a duplicate id costs the whole batch.
\<close>

section \<open>The batches reach the table\<close>

definition fresh_for :: "request_log_record list \<Rightarrow> log_db \<Rightarrow> bool" where
  "fresh_for recs db \<longleftrightarrow> distinct (map lr_id recs) \<and> (\<forall>r \<in> set recs. \<forall>t \<in> set (lg_rows db). lr_id (lt_cols t) \<noteq> lr_id r)"

lemma log_tuple_id [simp]: "lr_id (lt_cols (log_tuple_of x r)) = lr_id r"
  by (simp add: log_tuple_of_def)

lemma insert_logs_ok:
  assumes "lg_fault db 0 = None" "fresh_for recs db"
  shows "insert_logs x recs db = db\<lparr>lg_rows := lg_rows db @ map (log_tuple_of x) recs\<rparr>"
  using assms by (simp add: insert_logs_def fresh_for_def)

lemma insert_batches_ok:
  assumes "lg_fault db 0 = None" "fresh_for (concat bs) db"
  shows "fold (insert_logs x) bs db = db\<lparr>lg_rows := lg_rows db @ map (log_tuple_of x) (concat bs)\<rparr>"
  using assms
proof (induction bs arbitrary: db)
  case (Cons b bs)
  have b: "fresh_for b db" using Cons.prems(2) by (auto simp: fresh_for_def)
  have "fresh_for (concat bs) (db\<lparr>lg_rows := lg_rows db @ map (log_tuple_of x) b\<rparr>)"
    using Cons.prems(2) by (fastforce simp: fresh_for_def)
  with Cons.IH [of "db\<lparr>lg_rows := lg_rows db @ map (log_tuple_of x) b\<rparr>"] Cons.prems(1) insert_logs_ok [OF Cons.prems(1) b]
  show ?case by simp
qed simp

text \<open>C16: No accepted log record is lost while the database works. Take any interleaving of appends, flush
  requests and worker turns of the SQLite log store from an empty channel, in which \<open>acc\<close> were accepted, with
  fresh ids. After as many further turns of the worker as there are commands in the channel, plus one, the
  table holds all of \<open>acc\<close>, in order, after what it held before; the batches sent never exceeded 200 rows.\<close>

theorem accepted_records_persist:
  assumes "bl_run CHANNEL_CAPACITY BATCH_MAX_ROWS (insert_logs x) {} db acc st"
    and "lg_fault db 0 = None" "fresh_for acc db"
  shows "lg_rows (ls_table ((sq_worker_turn x ^^ Suc (length (ls_queue st))) st)) = lg_rows db @ map (log_tuple_of x) acc
    \<and> length (ls_queue st) \<le> CHANNEL_CAPACITY
    \<and> (\<forall>b \<in> set (ls_inserts ((sq_worker_turn x ^^ Suc (length (ls_queue st))) st)). b \<noteq> [] \<and> length b \<le> BATCH_MAX_ROWS)"
proof -
  let ?turn = "bl_turn BATCH_MAX_ROWS (insert_logs x)"
  let ?s = "(?turn ^^ length (ls_queue st)) st"
  have turn: "sq_worker_turn x = ?turn" by (simp add: fun_eq_iff sq_worker_turn_def)
  have run: "bl_run CHANNEL_CAPACITY BATCH_MAX_ROWS (insert_logs x) {} db acc ((?turn ^^ n) st)" for n
    using assms(1) by (induction n) (auto intro: bl_run.turn)
  from run [of "Suc (length (ls_queue st))"] have run': "bl_run CHANNEL_CAPACITY BATCH_MAX_ROWS (insert_logs x) {} db acc (?turn ?s)" by simp
  have q: "ls_queue (?turn ?s) = []"
    using turns_drain(1) [where maxrows = BATCH_MAX_ROWS and ins = "insert_logs x" and st = st] by (simp add: bl_turn_def bl_flush_batch_def)
  then have "concat (ls_inserts (?turn ?s)) = acc"
    using bl_run_pipeline [OF run'] turns_drain(2) [where maxrows = BATCH_MAX_ROWS and ins = "insert_logs x" and st = st] by (simp add: pipeline_def)
  with bl_run_table [OF run'] insert_batches_ok [OF assms(2), of "ls_inserts (?turn ?s)" x] assms(3)
  have "lg_rows (ls_table (?turn ?s)) = lg_rows db @ map (log_tuple_of x) acc" by simp
  moreover have "length (ls_queue st) \<le> CHANNEL_CAPACITY"
    by (rule bl_run_queue [OF assms(1)])
  moreover have "batches_ok BATCH_MAX_ROWS (?turn ?s)" by (rule bl_run_batches [OF run']) (simp add: BATCH_MAX_ROWS_def)
  ultimately show ?thesis by (simp add: turn batches_ok_def)
qed

definition demo_log_ext :: log_ext where
  "demo_log_ext = \<lparr>sx_msg = (\<lambda>e. ''db''), sx_enc_scopes = (\<lambda>s. []), sx_dec_scopes = (\<lambda>t. Inr []),
     sx_enc = (\<lambda>j. ''{}''), sx_dec = (\<lambda>t. Inr (JObject [])), lx_provider = (\<lambda>t. None), lx_day = show_int, lx_hour = show_int,
     lx_sum = foldl f64_add f64_0, lx_round6 = (\<lambda>v. v)\<rparr>"

definition demo_log_db :: log_db where
  "demo_log_db = \<lparr>lg_rows = [], lg_fault = (\<lambda>n. None)\<rparr>"

text \<open>The SQLite store after two appends.\<close>

definition demo_log_store :: sq_logs where
  "demo_log_store = fst (sq_append (fst (sq_append (log_store_new demo_log_db) (demo_log ''a'' 1))) (demo_log ''b'' 2))"

lemma demo_log_store_run:
  "bl_run CHANNEL_CAPACITY BATCH_MAX_ROWS (insert_logs x) {} demo_log_db [demo_log ''a'' 1, demo_log ''b'' 2] demo_log_store"
proof -
  have "bl_run CHANNEL_CAPACITY BATCH_MAX_ROWS (insert_logs x) {} demo_log_db ([] @ [demo_log ''a'' 1])
      (fst (sq_append (log_store_new demo_log_db) (demo_log ''a'' 1)))"
    unfolding sq_append_def
    by (rule bl_run.accepted [OF bl_run.start]) (simp_all add: log_store_new_def CHANNEL_CAPACITY_def)
  then have "bl_run CHANNEL_CAPACITY BATCH_MAX_ROWS (insert_logs x) {} demo_log_db (([] @ [demo_log ''a'' 1]) @ [demo_log ''b'' 2])
      (fst (bl_append CHANNEL_CAPACITY (fst (sq_append (log_store_new demo_log_db) (demo_log ''a'' 1))) (demo_log ''b'' 2)))"
    by (rule bl_run.accepted) (simp_all add: log_store_new_def CHANNEL_CAPACITY_def sq_append_def bl_append_def)
  then show ?thesis by (simp add: demo_log_store_def sq_append_def)
qed

theorem accepted_records_persist_witness:
  "lg_rows (ls_table ((sq_worker_turn demo_log_ext ^^ Suc (length (ls_queue demo_log_store))) demo_log_store))
     = map (log_tuple_of demo_log_ext) [demo_log ''a'' 1, demo_log ''b'' 2]"
  using accepted_records_persist [OF demo_log_store_run, of demo_log_ext]
  by (simp add: demo_log_db_def fresh_for_def demo_log_def)

section \<open>Reading back\<close>

text \<open>What the columns can hold: no NaN, and metadata that the JSON codec brings back.\<close>

definition storable :: "log_ext \<Rightarrow> request_log_record \<Rightarrow> bool" where
  "storable x r \<longleftrightarrow> lr_cost_usd r \<noteq> Some NaN \<and> lr_would_have_cost_usd r \<noteq> Some NaN
     \<and> opt_ok (lr_metadata r) (\<lambda>v. sx_enc x v \<noteq> [] \<and> sx_dec x (sx_enc x v) = Inr v)"

lemma find_fresh:
  assumes "r \<in> set recs" "fresh_for recs db"
  shows "List.find (\<lambda>t. lr_id (lt_cols t) = lr_id r) (lg_rows db @ map (log_tuple_of x) recs) = Some (log_tuple_of x r)"
proof -
  have none: "List.find P xs = None \<Longrightarrow> List.find P (xs @ ys) = List.find P ys" for P and xs ys :: "log_tuple list"
    by (induction xs) (auto split: if_splits)
  have "List.find (\<lambda>t. lr_id (lt_cols t) = lr_id r) (lg_rows db) = None"
    using assms by (auto simp: fresh_for_def find_None_iff)
  moreover have "distinct (map lr_id recs) \<Longrightarrow> r \<in> set recs \<Longrightarrow>
      List.find (\<lambda>t. lr_id (lt_cols t) = lr_id r) (map (log_tuple_of x) recs) = Some (log_tuple_of x r)"
    by (induction recs) (auto simp: image_iff)
  ultimately show ?thesis using assms by (simp add: none fresh_for_def)
qed

lemma flush_table:
  assumes "bl_run cap maxrows ins {} t0 acc st" "\<not> ls_closed st"
  shows "\<exists>bs. ls_table (fst (bl_flush maxrows ins st)) = fold ins bs t0 \<and> concat bs = acc"
proof -
  have fold: "ls_table (fold (bl_command maxrows ins) cs s) = fold ins (ls_inserts (fold (bl_command maxrows ins) cs s)) t0"
    if "ls_table s = fold ins (ls_inserts s) t0" for cs s
    using that by (induction cs arbitrary: s) (simp_all add: fold_inserts_command del: bl_command.simps)
  obtain st' where st': "bl_flush maxrows ins st = (st', Inr ())" "concat (ls_inserts st') = pipeline st"
    using bl_flush_result [OF assms(2)] by blast
  have "ls_table st' = fold ins (ls_inserts st') t0"
    using fold [of "st\<lparr>ls_queue := []\<rparr>" "ls_queue st @ [Flush (length (ls_acks st))]"] bl_run_table [OF assms(1)] st'(1) assms(2)
    by (auto simp: bl_flush_def simp del: fold_append fold_simps)
  with st' bl_run_pipeline [OF assms(1)] show ?thesis by auto
qed

text \<open>C17: A logged request can be read back. In any reachable state of the SQLite log store with room in its channel, append a
  record, then flush: \<open>get_by_id\<close> answers with exactly that record, metadata and bodies included, and with every record
  accepted earlier, provided the ids are fresh, the database answers and the records have no NaN cost.\<close>

theorem logged_record_readable:
  assumes "bl_run CHANNEL_CAPACITY BATCH_MAX_ROWS (insert_logs x) {} db acc st"
    and "\<not> ls_closed st" "length (ls_queue st) < CHANNEL_CAPACITY"
    and "lg_fault db 0 = None" "fresh_for (acc @ [r]) db" "\<forall>s \<in> set (acc @ [r]). storable x s"
  shows "snd (sq_append st r) = Inr () \<and> snd (sq_flush x (fst (sq_append st r))) = Inr ()
    \<and> (\<forall>s \<in> set (acc @ [r]). sq_get_by_id x (fst (sq_flush x (fst (sq_append st r)))) (lr_id s) = Inr (Some s))"
proof -
  let ?st = "fst (sq_append st r)"
  have run: "bl_run CHANNEL_CAPACITY BATCH_MAX_ROWS (insert_logs x) {} db (acc @ [r]) ?st"
    unfolding sq_append_def by (rule bl_run.accepted [OF assms(1-3)])
  have open': "\<not> ls_closed ?st" using assms(2,3) by (simp add: sq_append_def bl_append_def)
  obtain bs where bs: "ls_table (fst (sq_flush x ?st)) = fold (insert_logs x) bs db" "concat bs = acc @ [r]"
    using flush_table [OF run open'] unfolding sq_flush_def by blast
  then have tab: "ls_table (fst (sq_flush x ?st)) = db\<lparr>lg_rows := lg_rows db @ map (log_tuple_of x) (acc @ [r])\<rparr>"
    using insert_batches_ok [OF assms(4), of bs x] assms(5) by simp
  have "sq_get_by_id x (fst (sq_flush x ?st)) (lr_id s) = Inr (Some s)" if "s \<in> set (acc @ [r])" for s
  proof -
    have "List.find (\<lambda>t. lr_id (lt_cols t) = lr_id s) (lg_rows (ls_table (fst (sq_flush x ?st)))) = Some (log_tuple_of x s)"
      using find_fresh [OF that assms(5), of x] by (simp add: tab)
    then show ?thesis using that assms(4,6)
      by (auto simp: sq_get_by_id_def tab storable_def log_tuple_of_def null_nan_def opt_ok_def split: option.splits)
  qed
  moreover have "snd (sq_flush x ?st) = Inr ()"
    using bl_flush_result [OF open', of BATCH_MAX_ROWS "insert_logs x"] by (auto simp: sq_flush_def)
  ultimately show ?thesis using assms(2,3) by (simp add: sq_append_def bl_append_def)
qed

theorem logged_record_readable_witness:
  "sq_get_by_id demo_log_ext (fst (sq_flush demo_log_ext (fst (sq_append demo_log_store (demo_log ''c'' 3))))) ''c''
     = Inr (Some (demo_log ''c'' 3))"
  using logged_record_readable [OF demo_log_store_run, of "demo_log ''c'' 3" demo_log_ext]
  by (simp add: demo_log_db_def fresh_for_def demo_log_def demo_log_store_def sq_append_def bl_append_def log_store_new_def
      CHANNEL_CAPACITY_def storable_def opt_ok_def)

section \<open>Paging\<close>

lemma cursor_roundtrip: "in_i64 ts \<Longrightarrow> parse_cursor (encode_cursor ts ident) = Some (ts, ident)"
  using split_once_append [OF show_int_no_colon, of ts ident] by (simp add: parse_cursor_def encode_cursor_def)

text \<open>A client that asks for the next page until there is none; it stops at an error and gives up after \<open>n\<close> pages.\<close>

fun follow :: "(log_query \<Rightarrow> request_log_row page sresult) \<Rightarrow> nat \<Rightarrow> log_query \<Rightarrow> request_log_row list option" where
  "follow ask 0 q = None"
| "follow ask (Suc n) q =
     (case ask q of
        Inl e \<Rightarrow> None
      | Inr pg \<Rightarrow> (case next_cursor pg of
          None \<Rightarrow> Some (items pg)
        | Some c \<Rightarrow> map_option ((@) (items pg)) (follow ask n (q\<lparr>q_cursor := Some c\<rparr>))))"

definition matching :: "log_query \<Rightarrow> log_db \<Rightarrow> request_log_record list" where
  "matching q db = order_desc (filter (sq_where q) (map lt_cols (lg_rows db)))"

definition page_limit :: "log_query \<Rightarrow> nat" where
  "page_limit q = (if q_limit q = 0 then 50 else min (q_limit q) 500)"

lemma page_limit_pos: "0 < page_limit q"
  by (simp add: page_limit_def)

lemma order_desc_filter: "order_desc (filter P rs) = filter P (order_desc rs)"
  by (simp add: order_desc_def filter_sort flip: rev_filter)

lemma last_take_nth: "0 < l \<Longrightarrow> l \<le> length D \<Longrightarrow> last (take l D) = D ! (l - 1)"
  by (subst last_conv_nth) auto

lemma sq_query_page:
  assumes "lg_fault (ls_table st) 0 = None"
  shows "sq_query x st q =
    (let D = filter (before_cursor q) (matching q (ls_table st)); l = page_limit q in
     Inr \<lparr>items = map row_of (take l D),
          next_cursor = (if l < length D then Some (encode_cursor (lr_request_ts (D ! (l - 1))) (lr_id (D ! (l - 1)))) else None)\<rparr>)"
proof -
  let ?D = "filter (before_cursor q) (matching q (ls_table st))" and ?l = "page_limit q"
  have D: "order_desc (filter (\<lambda>r. sq_where q r \<and> before_cursor q r) (map lt_cols (lg_rows (ls_table st)))) = ?D"
    by (simp add: matching_def conj_commute flip: order_desc_filter)
  have "last (map row_of (take ?l ?D)) = row_of (?D ! (?l - 1))" if "?l < length ?D"
  proof -
    have "?D \<noteq> []" using that by (metis not_less0 list.size(3))
    then have "take ?l ?D \<noteq> []" "last (take ?l ?D) = ?D ! (?l - 1)"
      using that page_limit_pos [of q] last_take_nth [of ?l ?D] by simp_all
    then show ?thesis by (simp add: last_map)
  qed
  then show ?thesis using assms page_limit_pos [of q]
    by (auto simp: sq_query_def D Let_def row_of_def min_def simp flip: page_limit_def)
qed

lemma filter_below_nth:
  assumes "sorted_wrt (\<lambda>a b. f b < f a) D" "0 < l" "l \<le> length D"
  shows "filter (\<lambda>r. (f r :: 'b :: linorder) < f (D ! (l - 1))) D = drop l D"
proof -
  have lt: "f (D ! j) < f (D ! i)" if "i < j" "j < length D" for i j
    using assms(1) that by (simp add: sorted_wrt_iff_nth_less)
  have le: "\<not> f (D ! i) < f (D ! (l - 1))" if "i < l" for i
  proof (cases "i = l - 1")
    case False
    with that assms(3) have "f (D ! (l - 1)) < f (D ! i)" by (intro lt) simp_all
    then show ?thesis by (rule less_not_sym)
  qed simp
  have "filter (\<lambda>r. f r < f (D ! (l - 1))) (take l D) = []"
    using le assms(3) by (auto simp: filter_empty_conv in_set_conv_nth)
  moreover have "filter (\<lambda>r. f r < f (D ! (l - 1))) (drop l D) = drop l D"
    using lt [of "l - 1"] assms by (auto simp: filter_id_conv in_set_conv_nth)
  ultimately show ?thesis by (metis append_take_drop_id filter_append append_Nil)
qed

lemma order_desc_strict:
  assumes "distinct (map lr_id rs)"
  shows "sorted_wrt (\<lambda>a b. log_order b < log_order a) (order_desc rs)"
proof -
  let ?s = "sort_key log_order rs"
  have "sorted (map log_order ?s)" by simp
  moreover have "distinct (map log_order ?s)"
    using assms by (auto simp: distinct_map log_order_def inj_on_def)
  ultimately have "sorted_wrt (\<lambda>a b. log_order a < log_order b) ?s"
    using strict_sorted_iff [of "map log_order ?s"] by (simp add: sorted_wrt_map)
  then show ?thesis by (simp add: order_desc_def sorted_wrt_rev)
qed

lemma before_cursor_encoded:
  assumes "in_i64 (lr_request_ts r)"
  shows "before_cursor (q\<lparr>q_cursor := Some (encode_cursor (lr_request_ts r) (lr_id r))\<rparr>) = (\<lambda>s. log_order s < log_order r)"
  by (auto simp: before_cursor_def opt_ok_def cursor_roundtrip [OF assms] log_order_def fun_eq_iff)

lemma follow_sq:
  assumes fault: "lg_fault (ls_table st) 0 = None"
    and ids: "distinct (map (lr_id \<circ> lt_cols) (lg_rows (ls_table st)))"
    and ts: "\<forall>t \<in> set (lg_rows (ls_table st)). in_i64 (lr_request_ts (lt_cols t))"
    and fuel: "length (filter (before_cursor q) (matching q (ls_table st))) < n"
  shows "follow (sq_query x st) n q = Some (map row_of (filter (before_cursor q) (matching q (ls_table st))))"
  using fuel
proof (induction n arbitrary: q)
  case (Suc n)
  let ?L = "matching q (ls_table st)" and ?l = "page_limit q"
  define D where "D = filter (before_cursor q) ?L"
  have desc: "sorted_wrt (\<lambda>a b. log_order b < log_order a) ?L"
    using ids by (auto simp: matching_def o_def intro!: order_desc_strict distinct_map_filter)
  then have D: "sorted_wrt (\<lambda>a b. log_order b < log_order a) D" by (simp add: D_def sorted_wrt_filter)
  show ?case
  proof (cases "?l < length D")
    case False
    then show ?thesis using sq_query_page [OF fault, of x q] by (simp add: Let_def flip: D_def)
  next
    case True
    define r where "r = D ! (?l - 1)"
    let ?q = "q\<lparr>q_cursor := Some (encode_cursor (lr_request_ts r) (lr_id r))\<rparr>"
    from True page_limit_pos [of q] have "r \<in> set D" by (simp add: r_def)
    then have r: "in_i64 (lr_request_ts r)" "before_cursor q r"
      using ts by (auto simp: D_def matching_def order_desc_def)
    have bc: "before_cursor ?q = (\<lambda>s. log_order s < log_order r)" by (rule before_cursor_encoded [OF r(1)])
    have below: "log_order s < log_order r \<Longrightarrow> before_cursor q s" for s
      using r(2) by (auto simp: before_cursor_def opt_ok_def log_order_def split: option.splits)
    have L: "matching ?q (ls_table st) = ?L" by (simp add: matching_def sq_where_def [abs_def])
    have rest: "filter (before_cursor ?q) ?L = drop ?l D"
    proof -
      have "filter (before_cursor ?q) ?L = filter (\<lambda>s. log_order s < log_order r) D"
        unfolding bc D_def filter_filter by (rule filter_cong) (use below in blast)+
      also have "\<dots> = drop ?l D" unfolding r_def using True page_limit_pos [of q] by (intro filter_below_nth [OF D]) simp_all
      finally show ?thesis .
    qed
    have "follow (sq_query x st) n ?q = Some (map row_of (drop ?l D))"
      using Suc.IH [of ?q] Suc.prems True page_limit_pos [of q] by (simp add: L rest flip: D_def)
    moreover have "sq_query x st q = Inr \<lparr>items = map row_of (take ?l D),
        next_cursor = Some (encode_cursor (lr_request_ts r) (lr_id r))\<rparr>"
      using sq_query_page [OF fault, of x q] True by (simp add: Let_def r_def flip: D_def)
    ultimately show ?thesis by (simp flip: D_def map_append)
  qed
qed simp

text \<open>C18: Paging through the SQLite logs ends, and shows everything once. While the table does not change, a client that starts without
  a cursor and follows \<open>next_cursor\<close> stops after at most as many requests as there are matching lines, plus one, and
  has then received exactly the matching lines, newest first: no line is repeated or skipped, also among lines with the
  same time.\<close>

theorem paging_ends_complete:
  assumes "lg_fault (ls_table st) 0 = None"
    and "distinct (map (lr_id \<circ> lt_cols) (lg_rows (ls_table st)))"
    and "\<forall>t \<in> set (lg_rows (ls_table st)). in_i64 (lr_request_ts (lt_cols t))"
    and "q_cursor q = None" "length (filter (sq_where q \<circ> lt_cols) (lg_rows (ls_table st))) < n"
  shows "follow (sq_query x st) n q
    = Some (map row_of (rev (sort_key log_order (filter (sq_where q) (map lt_cols (lg_rows (ls_table st)))))))"
proof -
  have "before_cursor q = (\<lambda>r. True)" using assms(4) by (simp add: fun_eq_iff before_cursor_def opt_ok_def)
  then have "filter (before_cursor q) (matching q (ls_table st)) = matching q (ls_table st)" by simp
  moreover have "length (matching q (ls_table st)) < n"
    using assms(5) by (simp add: matching_def order_desc_def filter_map)
  ultimately show ?thesis using follow_sq [OF assms(1-3), of q n x] by (simp add: matching_def order_desc_def)
qed

text \<open>The PostgreSQL store accepts a cursor and ignores it: as soon as more lines match than fit on a page, every
  further page is the first one again, and a client that follows \<open>next_cursor\<close> never comes to an end.\<close>

theorem pg_paging_never_ends:
  assumes "lg_fault (ls_table st) 0 = None"
    and "page_limit q < length (filter (sq_where q \<circ> lt_cols) (lg_rows (ls_table st)))"
  shows "follow (pg_query x st) n q = None \<and> pg_query x st (q\<lparr>q_cursor := c\<rparr>) = pg_query x st q"
proof -
  have "sq_where (q\<lparr>q_cursor := c\<rparr>) = sq_where q" for c by (simp add: fun_eq_iff sq_where_def)
  then have same: "pg_query x st (q\<lparr>q_cursor := c\<rparr>) = pg_query x st q" for c
    using assms(1) by (simp add: pg_query_def)
  have len: "page_limit q < length (order_desc (filter (sq_where q) (map lt_cols (lg_rows (ls_table st)))))"
    using assms(2) by (simp add: order_desc_def filter_map)
  then have "take (page_limit q) (order_desc (filter (sq_where q) (map lt_cols (lg_rows (ls_table st))))) \<noteq> []"
    using page_limit_pos [of q] by (metis length_0_conv length_take less_not_refl2 min.absorb4 less_imp_le_nat)
  with len have more: "\<exists>pg c. pg_query x st q = Inr pg \<and> next_cursor pg = Some c"
    using assms(1) by (simp add: pg_query_def Let_def flip: page_limit_def)
  have "pg_query x st q' = pg_query x st q \<Longrightarrow> \<forall>c. pg_query x st (q'\<lparr>q_cursor := c\<rparr>) = pg_query x st q \<Longrightarrow> follow (pg_query x st) n q' = None" for q'
  proof (induction n arbitrary: q')
    case (Suc n)
    have "follow (pg_query x st) n (q'\<lparr>q_cursor := c\<rparr>) = None" for c
      using Suc.prems by (intro Suc.IH) simp_all
    with more Suc.prems(1) show ?case by auto
  qed simp
  from this [of q] same show ?thesis by simp
qed

definition demo_page_store :: sq_logs where
  "demo_page_store = (log_store_new demo_log_db)\<lparr>ls_table := demo_log_db\<lparr>lg_rows := map (log_tuple_of demo_log_ext)
     [demo_log ''a'' 1, demo_log ''b'' 2, demo_log ''c'' 2]\<rparr>\<rparr>"

definition demo_log_query :: log_query where
  "demo_log_query = \<lparr>q_project_id = None, q_gateway_key_id = None, q_namespace = None, q_model = None, q_status = None,
     q_from_ts = None, q_to_ts = None, q_limit = 1, q_cursor = None\<rparr>"

lemmas demo_page_simps = demo_page_store_def demo_log_query_def demo_log_db_def log_store_new_def log_tuple_of_def null_nan_def
  demo_log_def sq_where_def opt_ok_def in_i64_def

theorem paging_ends_complete_witness:
  "follow (sq_query demo_log_ext demo_page_store) 4 demo_log_query
     = Some (map row_of [demo_log ''c'' 2, demo_log ''b'' 2, demo_log ''a'' 1])"
proof -
  have "follow (sq_query demo_log_ext demo_page_store) 4 demo_log_query
     = Some (map row_of (rev (sort_key log_order (filter (sq_where demo_log_query)
         (map lt_cols (lg_rows (ls_table demo_page_store)))))))"
    by (rule paging_ends_complete) (simp_all add: demo_page_simps)
  then show ?thesis by (simp add: demo_page_simps log_order_def)
qed

theorem pg_paging_never_ends_witness:
  "follow (pg_query demo_log_ext demo_page_store) 1000 demo_log_query = None"
  using pg_paging_never_ends [of demo_page_store demo_log_query demo_log_ext 1000 None]
  by (simp add: demo_page_simps page_limit_def)

section \<open>A duplicate id\<close>

text \<open>The worker empties its buffer before it executes the statement, and a single known id fails the statement: every record of
  that batch is gone.\<close>

theorem duplicate_id_loses_batch:
  assumes "r \<in> set (ls_buf st)" "t \<in> set (lg_rows (ls_table st))" "lr_id (lt_cols t) = lr_id r"
  shows "ls_table (bl_flush_batch (insert_logs x) st) = ls_table st \<and> ls_buf (bl_flush_batch (insert_logs x) st) = []"
proof -
  have "ls_buf st \<noteq> []" using assms(1) by auto
  moreover have "insert_logs x (ls_buf st) (ls_table st) = ls_table st"
    using assms by (auto simp: insert_logs_def)
  ultimately show ?thesis by (simp add: bl_flush_batch_def)
qed

section \<open>Aggregation\<close>

lemma group_counts: "sum_list (map (\<lambda>k. int (length (filter (\<lambda>r. f r = k) rs))) (remdups (map f rs))) = int (length rs)"
proof -
  have "length (filter (\<lambda>r. f r = k) rs) = count_list (map f rs) k" for k
    by (induction rs) auto
  then have "sum_list (map (\<lambda>k. int (length (filter (\<lambda>r. f r = k) rs))) (remdups (map f rs)))
      = int (sum (count_list (map f rs)) (set (map f rs)))"
    by (simp add: sum_list_distinct_conv_sum_set)
  then show ?thesis by (simp add: sum_count_set)
qed

lemma group_rows_counts:
  "group_rows x dims rs ks = Inr gs \<Longrightarrow>
     map (\<lambda>g. (ag_key g, ag_requests g)) gs = map (\<lambda>k. (JObject k, int (length (filter (\<lambda>r. group_key x dims r = k) rs)))) ks"
  by (induction ks arbitrary: gs) (auto simp: group_row_def split: sum.splits)

lemma map_sum_InrD: "map_sum f g s = Inr y \<Longrightarrow> \<exists>z. s = Inr z \<and> y = g z"
  by (cases s) simp_all

lemma sum_list_sort_key: "sum_list (map (f :: 'a \<Rightarrow> int) (sort_key k xs)) = sum_list (map f xs)"
  by (simp flip: sum_mset_sum_list)

text \<open>C19: The aggregates of the SQLite logs count every matching line exactly once: the groups of an answer have different keys,
  and, when there are at most 500 of them, their request counts add up to the number of lines in the time range and
  project asked for.\<close>

theorem aggregate_counts_each_line_once:
  assumes "lg_fault (ls_table st) 0 = None" "sq_aggregate x st q = Inr res"
    and "length (remdups (map (group_key x (aq_group_by q)) (filter (aggregate_where q) (map lt_cols (lg_rows (ls_table st)))))) \<le> 500"
  shows "distinct (map ag_key (ar_groups res))
    \<and> sum_list (map ag_requests (ar_groups res)) = int (length (filter (aggregate_where q \<circ> lt_cols) (lg_rows (ls_table st))))"
proof (cases "aq_group_by q = []")
  case True
  with assms(1,2) show ?thesis
    by (auto simp: sq_aggregate_def Let_def group_row_def filter_map split: sum.splits)
next
  case False
  let ?rs = "filter (aggregate_where q) (map lt_cols (lg_rows (ls_table st)))" and ?f = "group_key x (aq_group_by q)"
  obtain gs where gs: "group_rows x (aq_group_by q) ?rs (remdups (map ?f ?rs)) = Inr gs"
    and res: "ar_groups res = take 500 (sort_key (\<lambda>g. cost_rank (ag_cost_usd g)) gs)"
    using assms(1,2) False by (auto simp: sq_aggregate_def Let_def dest: map_sum_InrD split: sum.splits)
  note counts = group_rows_counts [OF gs]
  have len: "length gs \<le> 500" using assms(3) arg_cong [OF counts, of length] by simp
  have keys: "map ag_key gs = map JObject (remdups (map ?f ?rs))" using arg_cong [OF counts, of "map fst"] by (simp add: o_def)
  have "map ag_requests gs = map (\<lambda>k. int (length (filter (\<lambda>r. ?f r = k) ?rs))) (remdups (map ?f ?rs))"
    using arg_cong [OF counts, of "map snd"] by (simp add: o_def)
  then have "sum_list (map ag_requests gs) = int (length ?rs)" by (simp only: group_counts)
  moreover have "distinct (map ag_key gs)" by (simp add: keys distinct_map inj_on_def)
  then have "distinct (map ag_key (sort_key (\<lambda>g. cost_rank (ag_cost_usd g)) gs))"
    by (simp add: distinct_map)
  ultimately show ?thesis using len by (simp add: res sum_list_sort_key filter_map)
qed

definition demo_aggregate_query :: aggregate_query where
  "demo_aggregate_query = \<lparr>aq_project_id = None, aq_from_ts = None, aq_to_ts = Some 1, aq_group_by = [DimModel]\<rparr>"

theorem aggregate_counts_each_line_once_witness:
  "\<exists>res. sq_aggregate demo_log_ext demo_page_store demo_aggregate_query = Inr res \<and> sum_list (map ag_requests (ar_groups res)) = 1"
proof -
  obtain res where res: "sq_aggregate demo_log_ext demo_page_store demo_aggregate_query = Inr res"
    by (simp add: sq_aggregate_def demo_aggregate_query_def aggregate_where_def group_key_def group_row_def sum_column_def
        sum_real_def List.map_filter_def demo_page_simps)
  have "sum_list (map ag_requests (ar_groups res))
      = int (length (filter (aggregate_where demo_aggregate_query \<circ> lt_cols) (lg_rows (ls_table demo_page_store))))"
    using aggregate_counts_each_line_once [OF _ res]
    by (simp add: demo_aggregate_query_def aggregate_where_def group_key_def demo_page_simps)
  with res show ?thesis by (simp add: demo_aggregate_query_def aggregate_where_def demo_page_simps)
qed

end
