(* ===== verification/Sqlite_Kv.thy ===== *)
theory Sqlite_Kv
  imports Storage_Models
begin

text \<open>
  The two-level response cache of the single-process profile (\<open>gateway-storage/src/sqlite/kv.rs\<close>): an
  in-process cache of a fixed lifetime in front of the table \<open>kv_cache\<close>, and the task that evicts expired
  rows. The in-process cache is the crate \<open>moka\<close>; its three operations are a parameter.
\<close>

section \<open>The in-process level\<close>

record 'l l1_ops =
  l1_get :: "'l \<Rightarrow> int \<Rightarrow> string \<Rightarrow> 'l \<times> bytes option"
  l1_insert :: "'l \<Rightarrow> int \<Rightarrow> string \<Rightarrow> bytes \<Rightarrow> 'l"
  l1_invalidate :: "'l \<Rightarrow> string \<Rightarrow> 'l"

text \<open>\<open>time_to_live\<close>: 24 hours, in milliseconds.\<close>

definition L1_TTL :: int where "L1_TTL = 86400000"

text \<open>
  What moka documents: \<open>held l k\<close> is the value last inserted for \<open>k\<close> and the time of the insertion. A read
  returns a held value, and no longer than the time to live after its insertion; an insertion replaces the
  entry of its key; an invalidation removes it; and any operation may evict any entry.
\<close>

definition dropped_or :: "'a option \<Rightarrow> 'a option \<Rightarrow> bool" where
  "dropped_or new old \<longleftrightarrow> new = None \<or> new = old"

definition l1_law :: "'l l1_ops \<Rightarrow> ('l \<Rightarrow> string \<Rightarrow> (int \<times> bytes) option) \<Rightarrow> bool" where
  "l1_law ops held \<longleftrightarrow>
     (\<forall>l now k l' v. l1_get ops l now k = (l', Some v) \<longrightarrow> (\<exists>t. held l k = Some (t, v) \<and> now < t + L1_TTL))
   \<and> (\<forall>l now k k'. dropped_or (held (fst (l1_get ops l now k)) k') (held l k'))
   \<and> (\<forall>l now k v k'. dropped_or (held (l1_insert ops l now k v) k') (if k' = k then Some (now, v) else held l k'))
   \<and> (\<forall>l k k'. dropped_or (held (l1_invalidate ops l k) k') (if k' = k then None else held l k'))"

section \<open>The store\<close>

record kv_row =
  kvr_value :: bytes
  kvr_expires_at :: int
  kvr_size_bytes :: int
  kvr_hit_count :: int
  kvr_last_accessed_at :: int
  kvr_created_at :: int

text \<open>\<open>skv_fault\<close> gives the failures of the statements of one operation, by their number.\<close>

record 'l sq_kv =
  skv_l1 :: 'l
  skv_rows :: "(string, kv_row) hmap"
  skv_fault :: "nat \<Rightarrow> string option"

definition skv_get :: "'l l1_ops \<Rightarrow> (string \<Rightarrow> string) \<Rightarrow> 'l sq_kv \<Rightarrow> int \<Rightarrow> string \<Rightarrow> 'l sq_kv \<times> bytes option sresult" where
  "skv_get ops msg st now k =
     (case l1_get ops (skv_l1 st) now k of
        (l, Some v) \<Rightarrow> (st\<lparr>skv_l1 := l\<rparr>, Inr (Some v))
      | (l, None) \<Rightarrow>
          (let st1 = st\<lparr>skv_l1 := l\<rparr> in
           case skv_fault st 0 of
             Some m \<Rightarrow> (st1, Inl (SDatabase (msg m)))
           | None \<Rightarrow>
               (case hm_get (skv_rows st) k of
                  None \<Rightarrow> (st1, Inr None)
                | Some r \<Rightarrow>
                    if kvr_expires_at r < now
                    then (if skv_fault st 1 = None then st1\<lparr>skv_rows := hm_remove k (skv_rows st)\<rparr> else st1, Inr None)
                    else (st1\<lparr>skv_l1 := l1_insert ops l now k (kvr_value r)\<rparr>, Inr (Some (kvr_value r))))))"

text \<open>The expiry time: \<open>ttl.as_millis().min(i64::MAX as u128) as i64\<close> added to the clock.\<close>

definition skv_expiry :: "int \<Rightarrow> nat \<Rightarrow> int" where
  "skv_expiry now ttl = wrap_i64 (now + min (1000 * int ttl) i64_max)"

definition skv_upsert :: "string \<Rightarrow> bytes \<Rightarrow> int \<Rightarrow> int \<Rightarrow> (string, kv_row) hmap \<Rightarrow> (string, kv_row) hmap" where
  "skv_upsert k v e now rows =
     (case hm_get rows k of
        None \<Rightarrow> hm_insert k \<lparr>kvr_value = v, kvr_expires_at = e, kvr_size_bytes = int (length v), kvr_hit_count = 0,
                  kvr_last_accessed_at = now, kvr_created_at = now\<rparr> rows
      | Some r \<Rightarrow> hm_insert k (r\<lparr>kvr_value := v, kvr_expires_at := e, kvr_size_bytes := int (length v),
                  kvr_last_accessed_at := now\<rparr>) rows)"

definition skv_put :: "'l l1_ops \<Rightarrow> (string \<Rightarrow> string) \<Rightarrow> 'l sq_kv \<Rightarrow> int \<Rightarrow> string \<Rightarrow> bytes \<Rightarrow> nat \<Rightarrow> ('l sq_kv \<times> unit sresult) option" where
  "skv_put ops msg st now k v ttl =
     (let st1 = st\<lparr>skv_l1 := l1_insert ops (skv_l1 st) now k v\<rparr> in
      case skv_fault st 0 of
        Some m \<Rightarrow> Some (st1, Inl (SDatabase (msg m)))
      | None \<Rightarrow> Some (st1\<lparr>skv_rows := skv_upsert k v (skv_expiry now ttl) now (skv_rows st)\<rparr>, Inr ()))"

definition skv_delete :: "'l l1_ops \<Rightarrow> (string \<Rightarrow> string) \<Rightarrow> 'l sq_kv \<Rightarrow> string \<Rightarrow> 'l sq_kv \<times> unit sresult" where
  "skv_delete ops msg st k =
     (let st1 = st\<lparr>skv_l1 := l1_invalidate ops (skv_l1 st) k\<rparr> in
      case skv_fault st 0 of
        Some m \<Rightarrow> (st1, Inl (SDatabase (msg m)))
      | None \<Rightarrow> (st1\<lparr>skv_rows := hm_remove k (skv_rows st)\<rparr>, Inr ()))"

text \<open>One tick of the evictor: of the expired rows, in the order in which the subquery meets them (\<open>scan\<close>), the first 5000.\<close>

definition skv_evict :: "((string \<times> kv_row) list \<Rightarrow> (string \<times> kv_row) list) \<Rightarrow> 'l sq_kv \<Rightarrow> int \<Rightarrow> 'l sq_kv" where
  "skv_evict scan st now =
     (if skv_fault st 0 = None
      then st\<lparr>skv_rows := fold hm_remove (map fst (take 5000 (filter (\<lambda>(k, r). kvr_expires_at r < now) (scan (skv_rows st))))) (skv_rows st)\<rparr>
      else st)"

definition skv_ops :: "'l l1_ops \<Rightarrow> (string \<Rightarrow> string) \<Rightarrow> 'l sq_kv kv_ops" where
  "skv_ops ops msg = \<lparr>kv_get = skv_get ops msg, kv_put = skv_put ops msg, kv_delete = skv_delete ops msg\<rparr>"

section \<open>Runs\<close>

text \<open>What can happen to the store: the calls, ticks of the evictor, and a change of the database's behaviour.\<close>

datatype kv_event =
    KvGet int string
  | KvPut int string bytes nat
  | KvDelete string
  | KvTick int
  | KvFaults "nat \<Rightarrow> string option"

fun skv_step :: "'l l1_ops \<Rightarrow> (string \<Rightarrow> string) \<Rightarrow> ((string \<times> kv_row) list \<Rightarrow> (string \<times> kv_row) list) \<Rightarrow> kv_event \<Rightarrow> 'l sq_kv \<Rightarrow> 'l sq_kv" where
  "skv_step ops msg scan (KvGet now k) st = fst (skv_get ops msg st now k)"
| "skv_step ops msg scan (KvPut now k v ttl) st = (case skv_put ops msg st now k v ttl of None \<Rightarrow> st | Some (st', r) \<Rightarrow> st')"
| "skv_step ops msg scan (KvDelete k) st = fst (skv_delete ops msg st k)"
| "skv_step ops msg scan (KvTick now) st = skv_evict scan st now"
| "skv_step ops msg scan (KvFaults f) st = st\<lparr>skv_fault := f\<rparr>"

definition skv_run :: "'l l1_ops \<Rightarrow> (string \<Rightarrow> string) \<Rightarrow> ((string \<times> kv_row) list \<Rightarrow> (string \<times> kv_row) list) \<Rightarrow> kv_event list \<Rightarrow> 'l sq_kv \<Rightarrow> 'l sq_kv" where
  "skv_run ops msg scan evs st = fold (skv_step ops msg scan) evs st"

text \<open>An event that leaves the entry of \<open>k\<close> alone and happens at \<open>t\<close> or before.\<close>

fun spares :: "string \<Rightarrow> int \<Rightarrow> kv_event \<Rightarrow> bool" where
  "spares k t (KvGet now k') = (now \<le> t)"
| "spares k t (KvPut now k' v ttl) = (k' \<noteq> k)"
| "spares k t (KvDelete k') = (k' \<noteq> k)"
| "spares k t (KvTick now) = (now \<le> t)"
| "spares k t (KvFaults f) = True"

section \<open>How long an entry is served\<close>

text \<open>The state of the entry of \<open>k\<close> after \<open>v\<close> was stored with the expiry time \<open>e\<close> and nothing later than \<open>t\<close> happened.\<close>

definition kv_entry_ok :: "('l \<Rightarrow> string \<Rightarrow> (int \<times> bytes) option) \<Rightarrow> string \<Rightarrow> bytes \<Rightarrow> int \<Rightarrow> int \<Rightarrow> 'l sq_kv \<Rightarrow> bool" where
  "kv_entry_ok held k v e t st \<longleftrightarrow> hm_wf (skv_rows st)
     \<and> (case hm_get (skv_rows st) k of None \<Rightarrow> e < t | Some r \<Rightarrow> kvr_value r = v \<and> kvr_expires_at r = e)
     \<and> (\<forall>t0 u. held (skv_l1 st) k = Some (t0, u) \<longrightarrow> u = v \<and> t0 \<le> e)"

lemma l1_lawD:
  assumes "l1_law ops held"
  shows l1_get_held: "l1_get ops l now k = (l', Some v) \<Longrightarrow> \<exists>t. held l k = Some (t, v) \<and> now < t + L1_TTL"
    and l1_get_keeps: "l1_get ops l now k = (l', x) \<Longrightarrow> held l' k' = Some y \<Longrightarrow> held l k' = Some y"
    and l1_insert_held: "held (l1_insert ops l now k u) k' = Some y \<Longrightarrow> (if k' = k then Some (now, u) else held l k') = Some y"
    and l1_invalidate_held: "held (l1_invalidate ops l k) k' = Some y \<Longrightarrow> k' \<noteq> k \<and> held l k' = Some y"
proof -
  show "l1_get ops l now k = (l', Some v) \<Longrightarrow> \<exists>t. held l k = Some (t, v) \<and> now < t + L1_TTL"
    using assms unfolding l1_law_def by blast
  have "dropped_or (held (fst (l1_get ops l now k)) k') (held l k')" using assms unfolding l1_law_def by blast
  then show "l1_get ops l now k = (l', x) \<Longrightarrow> held l' k' = Some y \<Longrightarrow> held l k' = Some y"
    by (auto simp: dropped_or_def)
  have "dropped_or (held (l1_insert ops l now k u) k') (if k' = k then Some (now, u) else held l k')"
    using assms unfolding l1_law_def by blast
  then show "held (l1_insert ops l now k u) k' = Some y \<Longrightarrow> (if k' = k then Some (now, u) else held l k') = Some y"
    by (auto simp: dropped_or_def)
  have "dropped_or (held (l1_invalidate ops l k) k') (if k' = k then None else held l k')"
    using assms unfolding l1_law_def by blast
  then show "held (l1_invalidate ops l k) k' = Some y \<Longrightarrow> k' \<noteq> k \<and> held l k' = Some y"
    by (auto simp: dropped_or_def split: if_splits)
qed

lemma kv_entry_ok_get:
  assumes "l1_law ops held" "kv_entry_ok held k v e t st" "now \<le> t"
  shows "kv_entry_ok held k v e t (fst (skv_get ops msg st now k'))"
proof (cases "l1_get ops (skv_l1 st) now k'")
  case (Pair l x)
  note keeps = l1_get_keeps [OF assms(1) Pair]
  note ins = l1_insert_held [OF assms(1)]
  show ?thesis
    using assms(2,3)
    by (auto simp: skv_get_def Pair kv_entry_ok_def Let_def dest!: keeps ins split: option.splits if_splits)
qed

lemma kv_entry_ok_evict:
  assumes "\<forall>rows. set (scan rows) \<subseteq> set rows" "kv_entry_ok held k v e t st" "now \<le> t"
  shows "kv_entry_ok held k v e t (skv_evict scan st now)"
proof -
  let ?gone = "map fst (take 5000 (filter (\<lambda>(k, r). kvr_expires_at r < now) (scan (skv_rows st))))"
  have "e < t" if "k \<in> set ?gone" "hm_get (skv_rows st) k \<noteq> None"
  proof -
    from that(1) obtain r where "(k, r) \<in> set (filter (\<lambda>(k, r). kvr_expires_at r < now) (scan (skv_rows st)))"
      by (force dest: in_set_takeD)
    then have r: "(k, r) \<in> set (scan (skv_rows st))" "kvr_expires_at r < now" by simp_all
    with assms(1) have "(k, r) \<in> set (skv_rows st)" by blast
    with assms(2) have "hm_get (skv_rows st) k = Some r" by (simp add: kv_entry_ok_def hm_in_set)
    with r assms(2,3) show ?thesis by (simp add: kv_entry_ok_def)
  qed
  then show ?thesis using assms(2)
    by (auto simp: skv_evict_def kv_entry_ok_def hm_get_fold_remove hm_wf_fold_remove split: option.splits if_splits)
qed

lemma kv_entry_ok_step:
  assumes "l1_law ops held" "\<forall>rows. set (scan rows) \<subseteq> set rows" "kv_entry_ok held k v e t st" "spares k t ev"
  shows "kv_entry_ok held k v e t (skv_step ops msg scan ev st)"
proof (cases ev)
  case (KvPut now k' u ttl)
  then show ?thesis using assms(3,4)
    by (auto simp: skv_put_def kv_entry_ok_def skv_upsert_def Let_def dest!: l1_insert_held [OF assms(1)] split: option.splits)
next
  case (KvDelete k')
  then show ?thesis using assms(3,4)
    by (auto simp: skv_delete_def kv_entry_ok_def Let_def dest!: l1_invalidate_held [OF assms(1)] split: option.splits)
qed (use assms kv_entry_ok_get [OF assms(1,3)] kv_entry_ok_evict [OF assms(2,3)] in \<open>simp_all add: kv_entry_ok_def\<close>)

lemma kv_entry_ok_run:
  assumes "l1_law ops held" "\<forall>rows. set (scan rows) \<subseteq> set rows" "\<forall>ev \<in> set evs. spares k t ev" "kv_entry_ok held k v e t st"
  shows "kv_entry_ok held k v e t (skv_run ops msg scan evs st)"
  using assms(3,4) unfolding skv_run_def
  by (induction evs arbitrary: st) (simp_all add: kv_entry_ok_step [OF assms(1,2)])

text \<open>C20: How long the SQLite cache serves a response. After a successful put of \<open>v\<close>, and whatever reads, writes and deletions of
  other keys, evictor ticks and database failures follow: up to the expiry time a read that the database answers gives
  exactly \<open>v\<close>; after it, a read gives \<open>v\<close> or nothing, never an older value; and from 24 hours after the expiry
  time on it gives nothing. The hypotheses on moka are that it returns only what was inserted, not longer than its time to live.\<close>

theorem cached_until_expiry:
  assumes "l1_law ops held" "\<forall>rows. set (scan rows) \<subseteq> set rows" "hm_wf (skv_rows st)"
    and "skv_put ops msg st now k v ttl = Some (st1, Inr ())"
    and "e = now + min (1000 * int ttl) i64_max" "in_i64 e"
    and "\<forall>ev \<in> set evs. spares k t ev"
    and "skv_get ops msg (skv_run ops msg scan evs st1) t k = (st2, Inr r)"
  shows "(t \<le> e \<longrightarrow> r = Some v) \<and> (r = None \<or> (r = Some v \<and> t < e + L1_TTL))"
proof -
  have "now \<le> e" using assms(5) by simp
  then have "kv_entry_ok held k v e t st1"
    using assms(3-6) wrap_i64_id [OF assms(6)]
    by (auto simp: skv_put_def kv_entry_ok_def skv_upsert_def skv_expiry_def Let_def dest!: l1_insert_held [OF assms(1)] split: option.splits)
  then have ok: "kv_entry_ok held k v e t (skv_run ops msg scan evs st1)" by (rule kv_entry_ok_run [OF assms(1,2,7)])
  let ?st = "skv_run ops msg scan evs st1"
  show ?thesis
  proof (cases "l1_get ops (skv_l1 ?st) t k")
    case (Pair l x)
    show ?thesis
    proof (cases x)
      case None
      with Pair ok assms(8) show ?thesis
        by (auto simp: skv_get_def kv_entry_ok_def L1_TTL_def Let_def split: option.splits if_splits)
    next
      case (Some u)
      from l1_get_held [OF assms(1) Pair [unfolded Some]] ok have "u = v" "t < e + L1_TTL"
        by (fastforce simp: kv_entry_ok_def)+
      with Pair Some assms(8) show ?thesis by (simp add: skv_get_def)
    qed
  qed
qed

text \<open>An in-process cache that evicts nothing early.\<close>

definition demo_l1 :: "(string, int \<times> bytes) hmap l1_ops" where
  "demo_l1 = \<lparr>l1_get = (\<lambda>l now k. (l, case hm_get l k of Some (t, v) \<Rightarrow> if now < t + L1_TTL then Some v else None | None \<Rightarrow> None)),
     l1_insert = (\<lambda>l now k v. hm_insert k (now, v) l), l1_invalidate = (\<lambda>l k. hm_remove k l)\<rparr>"

lemma demo_l1_law: "l1_law demo_l1 hm_get"
  by (auto simp: l1_law_def demo_l1_def dropped_or_def split: option.splits if_splits)

definition demo_kv :: "(string, int \<times> bytes) hmap sq_kv" where
  "demo_kv = \<lparr>skv_l1 = [], skv_rows = [], skv_fault = (\<lambda>n. None)\<rparr>"

definition demo_kv1 :: "(string, int \<times> bytes) hmap sq_kv" where
  "demo_kv1 = demo_kv\<lparr>skv_l1 := [(''k'', (0, ''v''))],
     skv_rows := [(''k'', \<lparr>kvr_value = ''v'', kvr_expires_at = 1000, kvr_size_bytes = 1, kvr_hit_count = 0,
       kvr_last_accessed_at = 0, kvr_created_at = 0\<rparr>)]\<rparr>"

lemma demo_kv_put: "skv_put demo_l1 id demo_kv 0 ''k'' ''v'' 1 = Some (demo_kv1, Inr ())"
  by (simp add: skv_put_def demo_kv_def demo_kv1_def demo_l1_def skv_upsert_def skv_expiry_def wrap_i64_def
      hm_insert_def hm_get_def)

theorem cached_until_expiry_witness:
  "snd (skv_get demo_l1 id (skv_run demo_l1 id id [KvTick 500, KvFaults (\<lambda>n. None)] demo_kv1) 900 ''k'') = Inr (Some ''v'')"
proof -
  obtain st2 r where g: "skv_get demo_l1 id (skv_run demo_l1 id id [KvTick 500, KvFaults (\<lambda>n. None)] demo_kv1) 900 ''k'' = (st2, Inr r)"
    by (simp add: skv_run_def skv_evict_def skv_get_def demo_kv1_def demo_kv_def demo_l1_def hm_get_def L1_TTL_def)
  have "r = Some ''v''"
    using cached_until_expiry [OF demo_l1_law, of id demo_kv id 0 "''k''" "''v''" 1 demo_kv1 1000, OF _ _ demo_kv_put _ _ _ g]
    by (simp add: demo_kv_def hm_wf_def in_i64_def)
  with g show ?thesis by simp
qed

text \<open>The time to live of an entry does not bound how long the in-process level serves it: an entry stored for one second is
  still answered almost a day later.\<close>

theorem entry_outlives_ttl:
  "snd (skv_get demo_l1 id demo_kv1 86399999 ''k'') = Inr (Some ''v'')"
  by (simp add: skv_get_def demo_kv1_def demo_kv_def demo_l1_def hm_get_def L1_TTL_def)

end
