(* ===== verification/Redis_Store.thy ===== *)
theory Redis_Store
  imports Memory_Store
begin

text \<open>
  The shared cache and counters of the multi-process profile (\<open>gateway-storage/src/redis\<close>). The commands of the
  server are a parameter: each takes the server's state, which includes its clock, and returns the new one with the reply or
  the text of an error. Every command is atomic; an operation of the store is the sequence of commands it sends.
\<close>

section \<open>Commands\<close>

text \<open>\<open>r_get_i64\<close> and \<open>r_get_string\<close> are GET with the reply converted by the client library.\<close>

record 'r redis_cmds =
  r_incr :: "'r \<Rightarrow> string \<Rightarrow> int \<Rightarrow> 'r \<times> (string + int)"
  r_decr :: "'r \<Rightarrow> string \<Rightarrow> int \<Rightarrow> 'r \<times> (string + int)"
  r_expire :: "'r \<Rightarrow> string \<Rightarrow> int \<Rightarrow> 'r \<times> (string + bool)"
  r_get :: "'r \<Rightarrow> string \<Rightarrow> string + bytes option"
  r_get_i64 :: "'r \<Rightarrow> string \<Rightarrow> string + int option"
  r_get_string :: "'r \<Rightarrow> string \<Rightarrow> string + string option"
  r_set_ex :: "'r \<Rightarrow> string \<Rightarrow> bytes \<Rightarrow> nat \<Rightarrow> 'r \<times> (string + unit)"
  r_del :: "'r \<Rightarrow> string \<Rightarrow> 'r \<times> (string + unit)"
  r_incrbyfloat :: "'r \<Rightarrow> string \<Rightarrow> f64 \<Rightarrow> 'r \<times> (string + f64)"

section \<open>The cache\<close>

definition rd_kv_get :: "'r redis_cmds \<Rightarrow> 'r \<Rightarrow> int \<Rightarrow> string \<Rightarrow> 'r \<times> bytes option sresult" where
  "rd_kv_get cmds st now k = (st, map_sum (\<lambda>e. SUnavailable (''redis get: '' @ e)) id (r_get cmds st k))"

definition rd_kv_put :: "'r redis_cmds \<Rightarrow> 'r \<Rightarrow> int \<Rightarrow> string \<Rightarrow> bytes \<Rightarrow> nat \<Rightarrow> ('r \<times> unit sresult) option" where
  "rd_kv_put cmds st now k v ttl =
     (case r_set_ex cmds st k v (max ttl 1) of
        (st', Inl e) \<Rightarrow> Some (st', Inl (SUnavailable (''redis set: '' @ e)))
      | (st', Inr _) \<Rightarrow> Some (st', Inr ()))"

definition rd_kv_delete :: "'r redis_cmds \<Rightarrow> 'r \<Rightarrow> string \<Rightarrow> 'r \<times> unit sresult" where
  "rd_kv_delete cmds st k =
     (case r_del cmds st k of
        (st', Inl e) \<Rightarrow> (st', Inl (SUnavailable (''redis del: '' @ e)))
      | (st', Inr _) \<Rightarrow> (st', Inr ()))"

definition rd_kv_ops :: "'r redis_cmds \<Rightarrow> 'r kv_ops" where
  "rd_kv_ops cmds = \<lparr>kv_get = rd_kv_get cmds, kv_put = rd_kv_put cmds, kv_delete = rd_kv_delete cmds\<rparr>"

section \<open>The counters\<close>

definition bucket_key :: "string \<Rightarrow> nat \<Rightarrow> int \<Rightarrow> string" where
  "bucket_key key window_ms now =
     ''ctr:'' @ key @ [CHR '':''] @ show_nat window_ms @ [CHR '':''] @ show_nat (i64_as_u64 now div max window_ms 1)"

definition rd_incr_window :: "'r redis_cmds \<Rightarrow> 'r \<Rightarrow> int \<Rightarrow> string \<Rightarrow> nat \<Rightarrow> int \<Rightarrow> 'r \<times> int sresult" where
  "rd_incr_window cmds st now key window_ms n =
     (let k = bucket_key key window_ms now in
      case r_incr cmds st k n of
        (st1, Inl e) \<Rightarrow> (st1, Inl (SUnavailable (''redis incr: '' @ e)))
      | (st1, Inr v) \<Rightarrow>
          (case r_expire cmds st1 k (int (max (window_ms div 1000) 1 * 2)) of
             (st2, Inl e) \<Rightarrow> (st2, Inl (SUnavailable (''redis expire: '' @ e)))
           | (st2, Inr _) \<Rightarrow> (st2, Inr v)))"

definition rd_current :: "'r redis_cmds \<Rightarrow> 'r \<Rightarrow> int \<Rightarrow> string \<Rightarrow> nat \<Rightarrow> int sresult" where
  "rd_current cmds st now key window_ms =
     (case r_get_i64 cmds st (bucket_key key window_ms now) of
        Inl e \<Rightarrow> Inl (SUnavailable (''redis get: '' @ e))
      | Inr v \<Rightarrow> Inr (unwrap_or v 0))"

text \<open>\<open>v as u32\<close> keeps the low 32 bits.\<close>

definition i64_as_u32 :: "int \<Rightarrow> nat" where
  "i64_as_u32 v = nat (v mod 4294967296)"

definition conc_key :: "string \<Rightarrow> string" where
  "conc_key key = ''conc:'' @ key"

definition rd_try_acquire_concurrency :: "'r redis_cmds \<Rightarrow> 'r \<Rightarrow> string \<Rightarrow> nat \<Rightarrow> 'r \<times> string option sresult" where
  "rd_try_acquire_concurrency cmds st key m =
     (let k = conc_key key in
      case r_incr cmds st k 1 of
        (st1, Inl e) \<Rightarrow> (st1, Inl (SUnavailable (''redis incr conc: '' @ e)))
      | (st1, Inr v) \<Rightarrow>
          (case r_expire cmds st1 k 60 of
             (st2, Inl e) \<Rightarrow> (st2, Inl (SUnavailable (''redis expire: '' @ e)))
           | (st2, Inr _) \<Rightarrow>
               if m < i64_as_u32 v
               then (case r_decr cmds st2 k 1 of
                       (st3, Inl e) \<Rightarrow> (st3, Inl (SUnavailable (''redis decr: '' @ e)))
                     | (st3, Inr _) \<Rightarrow> (st3, Inr None))
               else (st2, Inr (Some k))))"

text \<open>Dropping a permit sends a decrement; its outcome is ignored. The permit is known by the server's key.\<close>

definition rd_release :: "'r redis_cmds \<Rightarrow> 'r \<Rightarrow> string \<Rightarrow> 'r" where
  "rd_release cmds st k = fst (r_decr cmds st k 1)"

definition budget_key :: "string \<Rightarrow> timestamp \<Rightarrow> string" where
  "budget_key budget_id period_start = ''budget:'' @ budget_id @ [CHR '':''] @ show_int period_start"

definition rd_incr_budget :: "'r redis_cmds \<Rightarrow> 'r \<Rightarrow> string \<Rightarrow> timestamp \<Rightarrow> f64 \<Rightarrow> 'r \<times> f64 sresult" where
  "rd_incr_budget cmds st budget_id period_start delta =
     (let k = budget_key budget_id period_start in
      case r_incrbyfloat cmds st k delta of
        (st1, Inl e) \<Rightarrow> (st1, Inl (SUnavailable (''redis incrbyfloat: '' @ e)))
      | (st1, Inr v) \<Rightarrow>
          (case r_expire cmds st1 k (60 * 60 * 24 * 35) of
             (st2, Inl e) \<Rightarrow> (st2, Inl (SUnavailable (''redis expire: '' @ e)))
           | (st2, Inr _) \<Rightarrow> (st2, Inr v)))"

definition rd_read_budget :: "'r redis_cmds \<Rightarrow> 'r \<Rightarrow> string \<Rightarrow> timestamp \<Rightarrow> f64 sresult" where
  "rd_read_budget cmds st budget_id period_start =
     (case r_get_string cmds st (budget_key budget_id period_start) of
        Inl e \<Rightarrow> Inl (SUnavailable (''redis get: '' @ e))
      | Inr v \<Rightarrow> Inr (unwrap_or (Option.bind v parse_f64) f64_0))"

definition rd_counter_ops :: "'r redis_cmds \<Rightarrow> 'r counter_ops" where
  "rd_counter_ops cmds = \<lparr>incr_window = rd_incr_window cmds, current = rd_current cmds,
     try_acquire_concurrency = rd_try_acquire_concurrency cmds, release = rd_release cmds,
     incr_budget = rd_incr_budget cmds, read_budget = rd_read_budget cmds\<rparr>"

section \<open>What the server promises\<close>

text \<open>
  \<open>cnt st k\<close> is the integer stored at \<open>k\<close>. INCR and DECR take a missing key as zero and change that key only; when
  they fail, the change may or may not have happened. EXPIRE with a positive time changes no value, and GET reads it.
\<close>

definition add_law :: "('r \<Rightarrow> string \<Rightarrow> int option) \<Rightarrow> 'r \<Rightarrow> string \<Rightarrow> int \<Rightarrow> 'r \<times> (string + int) \<Rightarrow> bool" where
  "add_law cnt st k n res \<longleftrightarrow>
     (let v = unwrap_or (cnt st k) 0 + n in
      case res of
        (st', Inr u) \<Rightarrow> u = v \<and> cnt st' = (cnt st)(k \<mapsto> v)
      | (st', Inl e) \<Rightarrow> cnt st' = cnt st \<or> cnt st' = (cnt st)(k \<mapsto> v))"

definition redis_law :: "'r redis_cmds \<Rightarrow> ('r \<Rightarrow> string \<Rightarrow> int option) \<Rightarrow> bool" where
  "redis_law cmds cnt \<longleftrightarrow>
     (\<forall>st k n. add_law cnt st k n (r_incr cmds st k n))
   \<and> (\<forall>st k n. add_law cnt st k (- n) (r_decr cmds st k n))
   \<and> (\<forall>st k secs. 0 < secs \<longrightarrow> cnt (fst (r_expire cmds st k secs)) = cnt st)
   \<and> (\<forall>st k v. r_get_i64 cmds st k = Inr v \<longrightarrow> v = cnt st k)"

lemma redis_incr: "redis_law cmds cnt \<Longrightarrow> add_law cnt st k n (r_incr cmds st k n)"
  by (simp add: redis_law_def)

lemma redis_decr: "redis_law cmds cnt \<Longrightarrow> add_law cnt st k (- n) (r_decr cmds st k n)"
  by (simp add: redis_law_def)

lemma redis_expire: "redis_law cmds cnt \<Longrightarrow> r_expire cmds st k secs = (st', x) \<Longrightarrow> 0 < secs \<Longrightarrow> cnt st' = cnt st"
  unfolding redis_law_def by (metis fst_conv)

lemma redis_get: "redis_law cmds cnt \<Longrightarrow> r_get_i64 cmds st k = Inr v \<Longrightarrow> v = cnt st k"
  by (simp add: redis_law_def)

section \<open>Windows\<close>

lemma show_nat_no_colon: "CHR '':'' \<notin> set (show_nat n)"
  using show_nat_digits [of n] by (auto simp: list_all_iff is_ascii_digit_def byte_def)

lemma bucket_key_inj:
  "bucket_key k w now = bucket_key k' w' now' \<longleftrightarrow> k = k' \<and> w = w' \<and> bucket_of now w = bucket_of now' w'"
proof -
  have split: "a @ CHR '':'' # show_nat m = b @ CHR '':'' # show_nat n \<longleftrightarrow> a = b \<and> m = n" (is "?x = ?y \<longleftrightarrow> _") for a b m n
  proof
    assume "?x = ?y"
    then have "rsplit_once CHR '':'' ?x = rsplit_once CHR '':'' ?y" by (rule arg_cong)
    then have "Some (a, show_nat m) = Some (b, show_nat n)"
      unfolding rsplit_once_append [OF show_nat_no_colon] .
    then show "a = b \<and> m = n" by simp
  qed simp
  show ?thesis
    using split [of "k @ CHR '':'' # show_nat w" "bucket_of now w" "k' @ CHR '':'' # show_nat w'" "bucket_of now' w'"] split [of k w k' w']
    by (simp add: bucket_key_def bucket_of_def)
qed

text \<open>The count of the window of \<open>w\<close> milliseconds that contains \<open>now\<close>.\<close>

definition rd_window :: "('r \<Rightarrow> string \<Rightarrow> int option) \<Rightarrow> 'r \<Rightarrow> int \<Rightarrow> string \<Rightarrow> nat \<Rightarrow> int" where
  "rd_window cnt st now key w = unwrap_or (cnt st (bucket_key key w now)) 0"

text \<open>A rate window on Redis counts exactly: a successful increment returns the count of its window before plus the amount,
  a later read of the window gives that count, and no other window, of another key, another width or another
  period, changes. Different windows never share a server key, whatever characters the gateway's keys contain.\<close>

theorem redis_windows_exact:
  assumes "redis_law cmds cnt" "rd_incr_window cmds st now key w n = (st', Inr v)"
  shows "v = rd_window cnt st now key w + n \<and> rd_window cnt st' now key w = v
    \<and> (\<forall>u. rd_current cmds st' now key w = Inr u \<longrightarrow> u = v)
    \<and> (\<forall>key' w' now'. (key', w', bucket_of now' w') \<noteq> (key, w, bucket_of now w) \<longrightarrow>
         rd_window cnt st' now' key' w' = rd_window cnt st now' key' w')"
proof -
  let ?k = "bucket_key key w now"
  from assms(2) obtain st1 b where i: "r_incr cmds st ?k n = (st1, Inr v)"
    and e: "r_expire cmds st1 ?k (int (max (w div 1000) 1 * 2)) = (st', Inr b)"
    by (auto simp: rd_incr_window_def Let_def split: prod.splits sum.splits)
  have v: "v = rd_window cnt st now key w + n" and cnt1: "cnt st1 = (cnt st)(?k \<mapsto> v)"
    using redis_incr [OF assms(1), of st ?k n] i by (auto simp: add_law_def rd_window_def Let_def)
  have cnt': "cnt st' = (cnt st)(?k \<mapsto> v)" using redis_expire [OF assms(1) e] cnt1 by simp
  then have win: "rd_window cnt st' now' key' w' = (if bucket_key key' w' now' = ?k then v else rd_window cnt st now' key' w')" for now' key' w'
    by (simp add: rd_window_def unwrap_or_def)
  have "u = v" if "rd_current cmds st' now key w = Inr u" for u
    using that cnt' by (auto simp: rd_current_def unwrap_or_def dest!: redis_get [OF assms(1)] split: sum.splits)
  with v win show ?thesis by (auto simp: bucket_key_inj)
qed

section \<open>Concurrency\<close>

text \<open>
  Runs of the gateways that share the key: \<open>n\<close> permits are outstanding. A call of another operation, a repeated
  EXPIRE included, leaves the counter alone. The key does not expire in such a run, and the counter stays below \<open>2 ^ 32 - 1\<close>, which it
  could only reach through lost decrements.
\<close>

inductive rc_run :: "'r redis_cmds \<Rightarrow> ('r \<Rightarrow> string \<Rightarrow> int option) \<Rightarrow> string \<Rightarrow> nat \<Rightarrow> nat \<Rightarrow> 'r \<Rightarrow> bool"
  for cmds cnt key m where
  start: "cnt st (conc_key key) = None \<Longrightarrow> rc_run cmds cnt key m 0 st"
| acquire: "rc_run cmds cnt key m n st \<Longrightarrow> unwrap_or (cnt st (conc_key key)) 0 < 4294967295 \<Longrightarrow>
    rd_try_acquire_concurrency cmds st key m = (st', ra) \<Longrightarrow>
    rc_run cmds cnt key m (case ra of Inr (Some p) \<Rightarrow> Suc n | _ \<Rightarrow> n) st'"
| release: "rc_run cmds cnt key m (Suc n) st \<Longrightarrow> rc_run cmds cnt key m n (rd_release cmds st (conc_key key))"
| other: "rc_run cmds cnt key m n st \<Longrightarrow> cnt st' (conc_key key) = cnt st (conc_key key) \<Longrightarrow> rc_run cmds cnt key m n st'"

lemma acquire_counts:
  assumes "redis_law cmds cnt" "rd_try_acquire_concurrency cmds st key m = (st', ra)"
    and "0 \<le> c" "c < 4294967295" "unwrap_or (cnt st (conc_key key)) 0 = c"
  shows "case ra of
      Inr (Some p) \<Rightarrow> unwrap_or (cnt st' (conc_key key)) 0 = c + 1 \<and> c + 1 \<le> int m \<and> p = conc_key key
    | Inr None \<Rightarrow> unwrap_or (cnt st' (conc_key key)) 0 = c \<and> int m < c + 1
    | Inl e \<Rightarrow> c \<le> unwrap_or (cnt st' (conc_key key)) 0"
proof -
  let ?k = "conc_key key"
  obtain st1 x where i: "r_incr cmds st ?k 1 = (st1, x)" by fastforce
  obtain st2 y where e: "r_expire cmds st1 ?k 60 = (st2, y)" by fastforce
  obtain st3 z where d: "r_decr cmds st2 ?k 1 = (st3, z)" by fastforce
  note incr = redis_incr [OF assms(1), of st ?k 1, unfolded i]
  have c2: "cnt st2 = cnt st1" using redis_expire [OF assms(1) e] by simp
  note decr = redis_decr [OF assms(1), of st2 ?k 1, unfolded d]
  have u32: "i64_as_u32 (c + 1) = nat (c + 1)" using assms(3,4) by (simp add: i64_as_u32_def)
  show ?thesis
    using assms(2,3,5) incr decr c2 u32
    by (auto simp: rd_try_acquire_concurrency_def i e d add_law_def unwrap_or_def Let_def split: sum.splits if_splits option.splits)
qed


section \<open>A counter below zero\<close>

text \<open>The counter's key expires 60 seconds after the last acquisition, whether or not permits are held. Each permit that is
  released afterwards pushes the counter further below zero, and from minus two on the comparison as an
  unsigned number refuses every request, without any permit outstanding; every refused request
  renews the key's time to live.\<close>

theorem negative_counter_locks_out:
  assumes "redis_law cmds cnt" "cnt st (conc_key key) = Some v" "- 2147483648 \<le> v" "v < - 1" "m < 2147483648"
    and "rd_try_acquire_concurrency cmds st key m = (st', Inr p)"
  shows "p = None \<and> cnt st' (conc_key key) = Some v"
proof -
  let ?k = "conc_key key"
  obtain st1 x where i: "r_incr cmds st ?k 1 = (st1, x)" by fastforce
  obtain st2 y where e: "r_expire cmds st1 ?k 60 = (st2, y)" by fastforce
  obtain st3 z where d: "r_decr cmds st2 ?k 1 = (st3, z)" by fastforce
  have c2: "cnt st2 = cnt st1" using redis_expire [OF assms(1) e] by simp
  have "(v + 1) mod 4294967296 = v + 1 + 4294967296"
    using assms(3,4) by (subst mod_add_self2 [symmetric]) (simp add: mod_pos_pos_trivial)
  then have "m < i64_as_u32 (v + 1)" using assms(3,5) by (simp add: i64_as_u32_def)
  with assms(2,6) redis_incr [OF assms(1), of st ?k 1, unfolded i] redis_decr [OF assms(1), of st2 ?k 1, unfolded d] c2 show ?thesis
    by (auto simp: rd_try_acquire_concurrency_def i e d add_law_def unwrap_or_def Let_def split: sum.splits if_splits)
qed

section \<open>A server\<close>

text \<open>The counter commands on a table of integers with expiry times; the other commands are refused.\<close>

record demo_redis =
  dr_now :: int
  dr_data :: "(string, int \<times> int option) hmap"

definition dr_cnt :: "demo_redis \<Rightarrow> string \<Rightarrow> int option" where
  "dr_cnt st k = (case hm_get (dr_data st) k of
      Some (v, Some t) \<Rightarrow> if dr_now st < t then Some v else None | Some (v, None) \<Rightarrow> Some v | None \<Rightarrow> None)"

definition dr_ttl :: "demo_redis \<Rightarrow> string \<Rightarrow> int option" where
  "dr_ttl st k = (if dr_cnt st k = None then None else Option.bind (hm_get (dr_data st) k) snd)"

definition dr_add :: "demo_redis \<Rightarrow> string \<Rightarrow> int \<Rightarrow> demo_redis \<times> (string + int)" where
  "dr_add st k n = (let v = unwrap_or (dr_cnt st k) 0 + n in (st\<lparr>dr_data := hm_insert k (v, dr_ttl st k) (dr_data st)\<rparr>, Inr v))"

definition demo_cmds :: "demo_redis redis_cmds" where
  "demo_cmds = \<lparr>r_incr = dr_add, r_decr = (\<lambda>st k n. dr_add st k (- n)),
     r_expire = (\<lambda>st k secs. case dr_cnt st k of
         None \<Rightarrow> (st, Inr False)
       | Some v \<Rightarrow> (st\<lparr>dr_data := hm_insert k (v, Some (dr_now st + secs)) (dr_data st)\<rparr>, Inr True)),
     r_get = (\<lambda>st k. Inl []), r_get_i64 = (\<lambda>st k. Inr (dr_cnt st k)), r_get_string = (\<lambda>st k. Inl []),
     r_set_ex = (\<lambda>st k v secs. (st, Inl [])), r_del = (\<lambda>st k. (st, Inl [])), r_incrbyfloat = (\<lambda>st k d. (st, Inl []))\<rparr>"

lemma dr_cnt_add: "dr_cnt (st\<lparr>dr_data := hm_insert k (v, dr_ttl st k) (dr_data st)\<rparr>) = (dr_cnt st)(k \<mapsto> v)"
  by (auto simp: fun_eq_iff dr_cnt_def dr_ttl_def split: option.splits prod.splits if_splits)

lemma demo_redis_law: "redis_law demo_cmds dr_cnt"
proof -
  have add: "add_law dr_cnt st k n (dr_add st k n)" for st k n
    by (simp add: add_law_def dr_add_def Let_def dr_cnt_add)
  have "dr_cnt (fst (r_expire demo_cmds st k secs)) = dr_cnt st" if "0 < secs" for st k secs
    using that by (auto simp: demo_cmds_def fun_eq_iff dr_cnt_def split: option.splits prod.splits)
  with add show ?thesis by (simp add: redis_law_def demo_cmds_def)
qed

definition demo_server :: demo_redis where
  "demo_server = \<lparr>dr_now = 0, dr_data = []\<rparr>"

lemmas demo_redis_simps = demo_server_def demo_cmds_def dr_add_def dr_cnt_def dr_ttl_def unwrap_or_def Let_def

theorem redis_windows_exact_witness:
  "snd (rd_incr_window demo_cmds demo_server 5 ''k'' 60000 3) = Inr 3
   \<and> rd_window dr_cnt (fst (rd_incr_window demo_cmds demo_server 5 ''k'' 60000 3)) 5 ''k'' 60000 = 3"
proof -
  obtain st' where r: "rd_incr_window demo_cmds demo_server 5 ''k'' 60000 3 = (st', Inr 3)"
    by (simp add: rd_incr_window_def demo_redis_simps)
  from redis_windows_exact [OF demo_redis_law r] r show ?thesis by simp
qed


text \<open>Two requests that take longer than a minute, with nothing in between: after both have ended the key admits
  nobody, with no permit outstanding.\<close>

theorem negative_counter_reached:
  "let st2 = fst (rd_try_acquire_concurrency demo_cmds (fst (rd_try_acquire_concurrency demo_cmds demo_server ''k'' 5)) ''k'' 5);
       late = st2\<lparr>dr_now := 61\<rparr>;
       idle = rd_release demo_cmds (rd_release demo_cmds late (conc_key ''k'')) (conc_key ''k'')
   in snd (rd_try_acquire_concurrency demo_cmds idle ''k'' 5) = Inr None"
  by (simp add: rd_try_acquire_concurrency_def rd_release_def demo_redis_simps conc_key_def i64_as_u32_def)

end
