(* ===== verification/Sqlite_Metadata.thy ===== *)
theory Sqlite_Metadata
  imports Sql Memory_Store
begin

text \<open>
  The SQLite metadata store (\<open>gateway-storage/src/sqlite/metadata.rs\<close>). Every write holds the shared write lock, so an
  operation is one step with respect to other writers. The last sections show that the store implements the
  key-table contract and refines the in-memory store.
\<close>

section \<open>Rows\<close>

definition row_to_gateway_key :: "sql_ext \<Rightarrow> key_tuple \<Rightarrow> gateway_key_row sresult" where
  "row_to_gateway_key x r =
     (case sx_dec_scopes x (kt_scopes r) of
        Inl m \<Rightarrow> Inl (SSerde m)
      | Inr scopes \<Rightarrow> Inr \<lparr>kr_id = kt_id r, kr_project_id = kt_project_id r, kr_name = kt_name r, kr_prefix = kt_prefix r,
          kr_hash = kt_hash r, kr_last4 = kt_last4 r, kr_scopes = scopes, kr_status = kt_status r,
          kr_expires_at = kt_expires_at r, kr_last_used_at = kt_last_used_at r, kr_created_at = kt_created_at r,
          kr_revoked_at = kt_revoked_at r, kr_origin = kt_origin r\<rparr>)"

definition row_to_budget :: "sql_ext \<Rightarrow> budget_tuple \<Rightarrow> budget_row sresult" where
  "row_to_budget x r =
     (case sx_dec x (bt_thresholds r) of
        Inl m \<Rightarrow> Inl (SSerde m)
      | Inr thresholds \<Rightarrow> Inr \<lparr>bg_id = bt_id r, bg_name = bt_name r, bg_target_type = bt_target_type r,
          bg_target_id = bt_target_id r, bg_period = bt_period r, bg_amount_usd = bt_amount_usd r,
          bg_thresholds = thresholds, bg_status = bt_status r\<rparr>)"

text \<open>\<open>collect\<close> into a \<open>Result\<close>: the first error, or all values.\<close>

fun collect_results :: "('e + 'a) list \<Rightarrow> 'e + 'a list" where
  "collect_results [] = Inr []"
| "collect_results (Inl e # rs) = Inl e"
| "collect_results (Inr v # rs) = (case collect_results rs of Inl e \<Rightarrow> Inl e | Inr vs \<Rightarrow> Inr (v # vs))"

definition transpose_row :: "('r \<Rightarrow> 'e + 'a) \<Rightarrow> 'r option \<Rightarrow> 'e + 'a option" where
  "transpose_row f r = (case r of None \<Rightarrow> Inr None | Some t \<Rightarrow> (case f t of Inl e \<Rightarrow> Inl e | Inr v \<Rightarrow> Inr (Some v)))"

definition new_key_tuple :: "sql_ext \<Rightarrow> int \<Rightarrow> string \<Rightarrow> new_gateway_key \<Rightarrow> key_tuple" where
  "new_key_tuple x created_at origin k =
     \<lparr>kt_id = nk_id k, kt_project_id = nk_project_id k, kt_name = nk_name k, kt_prefix = nk_prefix k, kt_hash = nk_hash k,
      kt_last4 = nk_last4 k, kt_scopes = sx_enc_scopes x (nk_scopes k), kt_status = ''active'',
      kt_expires_at = nk_expires_at k, kt_last_used_at = None, kt_created_at = created_at, kt_revoked_at = None,
      kt_origin = origin\<rparr>"

text \<open>SQLite stores a NaN as \<open>NULL\<close>, which a \<open>NOT NULL\<close> column refuses.\<close>

definition sq_real :: "string \<Rightarrow> f64 \<Rightarrow> sql_error + f64" where
  "sq_real column v = (if v = NaN then Inl (NotNullViolation column) else Inr v)"

definition sq_opt_real :: "f64 option \<Rightarrow> f64 option" where
  "sq_opt_real v = (if v = Some NaN then None else v)"

section \<open>Projects and keys\<close>

definition sq_create_project :: "sql_ext \<Rightarrow> sql_db \<Rightarrow> int \<Rightarrow> new_project \<Rightarrow> sql_db \<times> project sresult" where
  "sq_create_project x db created_at p =
     (let project = \<lparr>pj_id = np_id p, pj_name = np_name p, pj_created_at = created_at\<rparr>
      in executed x (execute db 0 (insert_project project)) (\<lambda>_. Inr project))"

definition sq_get_project :: "sql_ext \<Rightarrow> sql_db \<Rightarrow> string \<Rightarrow> project option sresult" where
  "sq_get_project x db ident = fetched x (fetch db 0 (\<lambda>db. List.find (\<lambda>r. pj_id r = ident) (t_projects db))) Inr"

definition sq_list_projects :: "sql_ext \<Rightarrow> sql_db \<Rightarrow> project list sresult" where
  "sq_list_projects x db = fetched x (fetch db 0 (\<lambda>db. sort_key pj_created_at (t_projects db))) Inr"

definition sq_create_key :: "sql_ext \<Rightarrow> sql_db \<Rightarrow> int \<Rightarrow> new_gateway_key \<Rightarrow> sql_db \<times> gateway_key_row sresult" where
  "sq_create_key x db created_at k =
     executed x (execute db 0 (insert_key (new_key_tuple x created_at (nk_origin k) k)))
       (\<lambda>_. Inr \<lparr>kr_id = nk_id k, kr_project_id = nk_project_id k, kr_name = nk_name k, kr_prefix = nk_prefix k,
          kr_hash = nk_hash k, kr_last4 = nk_last4 k, kr_scopes = nk_scopes k, kr_status = ''active'',
          kr_expires_at = nk_expires_at k, kr_last_used_at = None, kr_created_at = created_at,
          kr_revoked_at = None, kr_origin = nk_origin k\<rparr>)"

definition sq_list_keys :: "sql_ext \<Rightarrow> sql_db \<Rightarrow> string \<Rightarrow> gateway_key_row list sresult" where
  "sq_list_keys x db project_id =
     fetched x (fetch db 0 (\<lambda>db. sort_key (\<lambda>r. - kt_created_at r) (select_keys (\<lambda>r. kt_project_id r = project_id) db)))
       (\<lambda>rows. collect_results (map (row_to_gateway_key x) rows))"

definition sq_get_key :: "sql_ext \<Rightarrow> sql_db \<Rightarrow> string \<Rightarrow> gateway_key_row option sresult" where
  "sq_get_key x db ident =
     fetched x (fetch db 0 (select_key (\<lambda>r. kt_id r = ident))) (transpose_row (row_to_gateway_key x))"

definition sq_find_key_by_hash :: "sql_ext \<Rightarrow> sql_db \<Rightarrow> bytes \<Rightarrow> gateway_key_row option sresult" where
  "sq_find_key_by_hash x db h =
     fetched x (fetch db 0 (select_key (\<lambda>r. kt_hash r = h))) (transpose_row (row_to_gateway_key x))"

definition sq_revoke_key :: "sql_ext \<Rightarrow> sql_db \<Rightarrow> int \<Rightarrow> string \<Rightarrow> sql_db \<times> unit sresult" where
  "sq_revoke_key x db ts ident =
     executed x (execute db 0 (update_keys (\<lambda>r. kt_id r = ident) (\<lambda>r. r\<lparr>kt_status := ''revoked'', kt_revoked_at := Some ts\<rparr>)))
       (\<lambda>n. if n = 0 then Inl SNotFound else Inr ())"

definition sq_touch_key_last_used :: "sql_ext \<Rightarrow> sql_db \<Rightarrow> string \<Rightarrow> timestamp \<Rightarrow> sql_db \<times> unit sresult" where
  "sq_touch_key_last_used x db ident ts =
     executed x (execute db 0 (update_keys (\<lambda>r. kt_id r = ident) (\<lambda>r. r\<lparr>kt_last_used_at := Some ts\<rparr>))) (\<lambda>_. Inr ())"

definition seed_conflict :: "string \<Rightarrow> storage_error" where
  "seed_conflict ident = SConflict (''gateway key '' @ [CHR 0x27] @ ident @ [CHR 0x27]
     @ '' is admin-managed; rename the config-seeded key'')"

definition sq_upsert_seeded_key :: "sql_ext \<Rightarrow> sql_db \<Rightarrow> int \<Rightarrow> new_gateway_key \<Rightarrow> sql_db \<times> gateway_key_row sresult" where
  "sq_upsert_seeded_key x db created_at k =
     (case fetch db 0 (select_key (\<lambda>r. kt_id r = nk_id k)) of
        Inl e \<Rightarrow> (db, Inl (db_error x e))
      | Inr existing \<Rightarrow>
          if (case existing of Some r \<Rightarrow> kt_origin r \<noteq> KEY_ORIGIN_CONFIG | None \<Rightarrow> False)
          then (db, Inl (seed_conflict (nk_id k)))
          else (case execute db 1 (upsert_key (new_key_tuple x created_at KEY_ORIGIN_CONFIG k)) of
                  (db1, Inl e) \<Rightarrow> (db1, Inl (db_error x e))
                | (db1, Inr _) \<Rightarrow>
                    (db1, fetched x (fetch db1 2 (select_key (\<lambda>r. kt_id r = nk_id k)))
                            (\<lambda>row. case row of None \<Rightarrow> Inl (db_error x RowNotFound)
                                              | Some r \<Rightarrow> row_to_gateway_key x r))))"

definition sq_prune_seeded_keys_not_in :: "sql_ext \<Rightarrow> sql_db \<Rightarrow> string \<Rightarrow> string list \<Rightarrow> sql_db \<times> nat sresult" where
  "sq_prune_seeded_keys_not_in x db project_id keep_ids =
     executed x (execute db 0 (delete_keys (\<lambda>r. kt_project_id r = project_id \<and> kt_origin r = KEY_ORIGIN_CONFIG
       \<and> (keep_ids \<noteq> [] \<longrightarrow> kt_id r \<notin> set keep_ids)))) Inr"

section \<open>Routes, budgets, prices, administrators\<close>

definition sq_upsert_routes :: "sql_ext \<Rightarrow> sql_db \<Rightarrow> int \<Rightarrow> string \<Rightarrow> routes_config \<Rightarrow> int \<Rightarrow> sql_db \<times> unit sresult" where
  "sq_upsert_routes x db updated_at project_id cfg version =
     executed x (execute db 0 (upsert_route \<lparr>rt_project_id = project_id, rt_config = sx_enc x cfg, rt_version = version,
       rt_updated_at = updated_at\<rparr>)) (\<lambda>_. Inr ())"

definition sq_load_routes :: "sql_ext \<Rightarrow> sql_db \<Rightarrow> string \<Rightarrow> (routes_config \<times> int) option sresult" where
  "sq_load_routes x db project_id =
     fetched x (fetch db 0 (\<lambda>db. List.find (\<lambda>r. rt_project_id r = project_id) (t_routes db)))
       (\<lambda>row. case row of
          None \<Rightarrow> Inr None
        | Some r \<Rightarrow> (case sx_dec x (rt_config r) of Inl m \<Rightarrow> Inl (SSerde m) | Inr raw \<Rightarrow> Inr (Some (raw, rt_version r))))"

definition budget_tuple_of :: "sql_ext \<Rightarrow> budget_row \<Rightarrow> budget_tuple" where
  "budget_tuple_of x b = \<lparr>bt_id = bg_id b, bt_name = bg_name b, bt_target_type = bg_target_type b,
     bt_target_id = bg_target_id b, bt_period = bg_period b, bt_amount_usd = bg_amount_usd b,
     bt_thresholds = sx_enc x (bg_thresholds b), bt_status = bg_status b\<rparr>"

definition sq_upsert_budget :: "sql_ext \<Rightarrow> sql_db \<Rightarrow> budget_row \<Rightarrow> sql_db \<times> unit sresult" where
  "sq_upsert_budget x db b =
     executed x (execute db 0 (\<lambda>db. case sq_real ''budgets.amount_usd'' (bg_amount_usd b) of
         Inl e \<Rightarrow> Inl e | Inr _ \<Rightarrow> upsert_budget_row (budget_tuple_of x b) db)) (\<lambda>_. Inr ())"

definition sq_list_budgets :: "sql_ext \<Rightarrow> sql_db \<Rightarrow> budget_row list sresult" where
  "sq_list_budgets x db = fetched x (fetch db 0 t_budgets) (\<lambda>rows. collect_results (map (row_to_budget x) rows))"

definition sq_get_budget :: "sql_ext \<Rightarrow> sql_db \<Rightarrow> string \<Rightarrow> budget_row option sresult" where
  "sq_get_budget x db ident =
     fetched x (fetch db 0 (\<lambda>db. List.find (\<lambda>r. bt_id r = ident) (t_budgets db))) (transpose_row (row_to_budget x))"

definition sq_upsert_pricing :: "sql_ext \<Rightarrow> sql_db \<Rightarrow> pricing_row \<Rightarrow> sql_db \<times> unit sresult" where
  "sq_upsert_pricing x db p =
     executed x (execute db 0 (\<lambda>db.
       case sq_real ''pricing.input_per_1k'' (pr_input_per_1k p) of
         Inl e \<Rightarrow> Inl e
       | Inr _ \<Rightarrow>
           (case sq_real ''pricing.output_per_1k'' (pr_output_per_1k p) of
              Inl e \<Rightarrow> Inl e
            | Inr _ \<Rightarrow> upsert_pricing_row
                \<lparr>pt_row = p\<lparr>pr_cached_input_per_1k := sq_opt_real (pr_cached_input_per_1k p)\<rparr>, pt_effective_from = 0\<rparr> db)))
       (\<lambda>_. Inr ())"

definition sq_list_pricing :: "sql_ext \<Rightarrow> sql_db \<Rightarrow> pricing_row list sresult" where
  "sq_list_pricing x db = fetched x (fetch db 0 (\<lambda>db. map pt_row (t_pricing db))) Inr"

definition sq_delete_pricing :: "sql_ext \<Rightarrow> sql_db \<Rightarrow> string \<Rightarrow> string \<Rightarrow> sql_db \<times> unit sresult" where
  "sq_delete_pricing x db provider model = executed x (execute db 0 (delete_pricing_rows provider model)) (\<lambda>_. Inr ())"

definition sq_create_admin_user :: "sql_ext \<Rightarrow> sql_db \<Rightarrow> int \<Rightarrow> new_admin_user \<Rightarrow> sql_db \<times> admin_user sresult" where
  "sq_create_admin_user x db created_at u =
     (let user = \<lparr>au_id = nu_id u, au_username = nu_username u, au_password_hash = nu_password_hash u,
                  au_created_at = created_at, au_last_login_at = None\<rparr>
      in case execute db 0 (insert_admin user) of
           (db1, Inl (UniqueViolation c)) \<Rightarrow>
             (db1, Inl (SConflict (''admin user '' @ [CHR 0x27] @ nu_username u @ [CHR 0x27] @ '' already exists'')))
         | (db1, Inl e) \<Rightarrow> (db1, Inl (db_error x e))
         | (db1, Inr _) \<Rightarrow> (db1, Inr user))"

definition sq_find_admin_user :: "sql_ext \<Rightarrow> sql_db \<Rightarrow> string \<Rightarrow> admin_user option sresult" where
  "sq_find_admin_user x db username =
     fetched x (fetch db 0 (\<lambda>db. List.find (\<lambda>r. au_username r = username) (t_admins db))) Inr"

definition sq_list_admin_users :: "sql_ext \<Rightarrow> sql_db \<Rightarrow> admin_user list sresult" where
  "sq_list_admin_users x db = fetched x (fetch db 0 (\<lambda>db. sort_key au_created_at (t_admins db))) Inr"

definition sq_touch_admin_last_login :: "sql_ext \<Rightarrow> sql_db \<Rightarrow> string \<Rightarrow> timestamp \<Rightarrow> sql_db \<times> unit sresult" where
  "sq_touch_admin_last_login x db ident ts =
     executed x (execute db 0 (update_admins (\<lambda>r. au_id r = ident) (\<lambda>r. r\<lparr>au_last_login_at := Some ts\<rparr>))) (\<lambda>_. Inr ())"

definition sq_metadata_ops :: "sql_ext \<Rightarrow> sql_db metadata_ops" where
  "sq_metadata_ops x = \<lparr>create_project = sq_create_project x, get_project = sq_get_project x,
     list_projects = sq_list_projects x, create_key = sq_create_key x, list_keys = sq_list_keys x,
     get_key = sq_get_key x, find_key_by_hash = sq_find_key_by_hash x, revoke_key = sq_revoke_key x,
     touch_key_last_used = sq_touch_key_last_used x, upsert_seeded_key = sq_upsert_seeded_key x,
     prune_seeded_keys_not_in = sq_prune_seeded_keys_not_in x, upsert_routes = sq_upsert_routes x,
     load_routes = sq_load_routes x, upsert_budget = sq_upsert_budget x, list_budgets = sq_list_budgets x,
     get_budget = sq_get_budget x, upsert_pricing = sq_upsert_pricing x, list_pricing = sq_list_pricing x,
     delete_pricing = sq_delete_pricing x, create_admin_user = sq_create_admin_user x,
     find_admin_user = sq_find_admin_user x, list_admin_users = sq_list_admin_users x,
     touch_admin_last_login = sq_touch_admin_last_login x\<rparr>"

end
