(* ===== verification/Security.thy ===== *)
theory Security
  imports Config
begin

text \<open>
  Keys and tokens: \<open>gateway-core/src/security/\<close>. The cryptographic functions are parameters:
  \<open>keyed_hash\<close> (BLAKE3), \<open>b64\<close> (base64 decoding), the JWT codec and Argon2.
\<close>

section \<open>Gateway keys\<close>

definition SECRET_LEN :: nat where "SECRET_LEN = 32"

datatype key_env = Live | Test

fun key_env_prefix :: "key_env \<Rightarrow> string" where
  "key_env_prefix Live = PREFIX_LIVE"
| "key_env_prefix Test = PREFIX_TEST"

definition key_env_parse :: "string \<Rightarrow> key_env option" where
  "key_env_parse s = (if s = ''live'' then Some Live else if s = ''test'' then Some Test else None)"

record gateway_key_secret =
  gs_plaintext :: string
  gs_prefix :: string
  gs_last4 :: string
  gs_hash :: bytes

type_synonym keyed_hash_fn = "bytes \<Rightarrow> bytes \<Rightarrow> bytes"

definition derive_hash :: "keyed_hash_fn \<Rightarrow> bytes \<Rightarrow> string \<Rightarrow> bytes" where
  "derive_hash keyed_hash master plaintext = keyed_hash master plaintext"

definition last4_of :: "string \<Rightarrow> string" where
  "last4_of s = concat (rev (take 4 (rev (utf8_chars s))))"

text \<open>\<open>rnd\<close> is the stream of random alphanumeric characters.\<close>

definition generate_gateway_key ::
  "keyed_hash_fn \<Rightarrow> string \<Rightarrow> key_env \<Rightarrow> bytes \<Rightarrow> gateway_error + gateway_key_secret" where
  "generate_gateway_key keyed_hash rnd env master =
     (let secret = take SECRET_LEN rnd;
          plaintext = key_env_prefix env @ secret
      in Inr \<lparr>gs_plaintext = plaintext, gs_prefix = key_env_prefix env, gs_last4 = last4_of plaintext,
              gs_hash = derive_hash keyed_hash master plaintext\<rparr>)"

definition parse_gateway_key :: "string \<Rightarrow> string option" where
  "parse_gateway_key secret =
     (if starts_with secret PREFIX_LIVE then Some PREFIX_LIVE
      else if starts_with secret PREFIX_TEST then Some PREFIX_TEST
      else None)"

definition verify_gateway_key :: "keyed_hash_fn \<Rightarrow> string \<Rightarrow> bytes \<Rightarrow> bytes \<Rightarrow> bool" where
  "verify_gateway_key keyed_hash presented master stored_hash =
     (if length stored_hash \<noteq> 32 then False
      else derive_hash keyed_hash master presented = stored_hash)"

section \<open>Master key\<close>

definition from_base64 :: "(string \<Rightarrow> string + bytes) \<Rightarrow> string \<Rightarrow> gateway_error + bytes" where
  "from_base64 b64 s =
     (case b64 (trim s) of
        Inl e \<Rightarrow> Inl (Internal (''master key base64 decode failed: '' @ e))
      | Inr raw \<Rightarrow>
          if length raw \<noteq> 32
          then Inl (Internal (''master key must decode to exactly 32 bytes (got '' @ show_nat (length raw) @ '')''))
          else Inr raw)"

definition master_key_from_env ::
  "(string \<Rightarrow> string + bytes) \<Rightarrow> (string \<Rightarrow> string option) \<Rightarrow> string \<Rightarrow> gateway_error + bytes" where
  "master_key_from_env b64 env var =
     (case env var of
        None \<Rightarrow> Inl (Internal (''env var '' @ var @ '' not set''))
      | Some v \<Rightarrow> from_base64 b64 v)"

section \<open>Admin sessions\<close>

record admin_token_claims =
  at_sub :: string
  at_username :: string
  at_exp :: nat
  at_iat :: nat

text \<open>\<open>jwt_encode\<close> signs claims with a secret; \<open>jwt_decode\<close> checks signature and expiry at a time.\<close>

definition token_issue ::
  "(bytes \<Rightarrow> admin_token_claims \<Rightarrow> string + string) \<Rightarrow> bytes \<Rightarrow> int \<Rightarrow> string \<Rightarrow> string \<Rightarrow> int
     \<Rightarrow> gateway_error + string" where
  "token_issue jwt_encode master now user_id username ttl_secs =
     (let claims = \<lparr>at_sub = user_id, at_username = username,
                    at_exp = i64_as_u64 (wrap_i64 (now + ttl_secs)), at_iat = i64_as_u64 now\<rparr>
      in case jwt_encode master claims of
           Inl e \<Rightarrow> Inl (Internal (''jwt encode: '' @ e))
         | Inr t \<Rightarrow> Inr t)"

definition token_verify ::
  "(bytes \<Rightarrow> int \<Rightarrow> string \<Rightarrow> admin_token_claims option) \<Rightarrow> bytes \<Rightarrow> int \<Rightarrow> string \<Rightarrow> gateway_error + admin_token_claims" where
  "token_verify jwt_decode master now token = ok_or (jwt_decode master now token) Unauthorized"

definition hash_password :: "(string \<Rightarrow> string \<Rightarrow> string + string) \<Rightarrow> string \<Rightarrow> string \<Rightarrow> gateway_error + string" where
  "hash_password argon2 salt password =
     (case argon2 salt password of Inl e \<Rightarrow> Inl (Internal (''argon2 hash: '' @ e)) | Inr phc \<Rightarrow> Inr phc)"

text \<open>Argon2's verification: a stored string that does not parse, a match, a mismatch or another error.\<close>

datatype argon_result = ArgonParse string | ArgonOk | ArgonMismatch | ArgonError string

definition verify_password :: "(string \<Rightarrow> string \<Rightarrow> argon_result) \<Rightarrow> string \<Rightarrow> string \<Rightarrow> gateway_error + bool" where
  "verify_password argon2_verify presented stored_phc =
     (case argon2_verify presented stored_phc of
        ArgonParse e \<Rightarrow> Inl (Internal (''parse argon2: '' @ e))
      | ArgonOk \<Rightarrow> Inr True
      | ArgonMismatch \<Rightarrow> Inr False
      | ArgonError e \<Rightarrow> Inl (Internal (''argon2 verify: '' @ e)))"

section \<open>Facts\<close>

lemma parse_gateway_key_prefix: "parse_gateway_key (key_env_prefix env @ s) = Some (key_env_prefix env)"
  by (cases env) (simp_all add: parse_gateway_key_def starts_with_def PREFIX_LIVE_def PREFIX_TEST_def)

lemma parse_gateway_key_Some:
  "parse_gateway_key s = Some p \<Longrightarrow> starts_with s p \<and> (p = PREFIX_LIVE \<or> p = PREFIX_TEST)"
  by (auto simp: parse_gateway_key_def split: if_splits)

text \<open>a minted key is recognised and verified: its plaintext carries the prefix of its environment followed by
  32 secret characters, \<open>parse_gateway_key\<close> returns that prefix, the stored hash is the one an
  authentication derives from the plaintext, and another plaintext is rejected unless it has the
  same keyed hash.\<close>

theorem generated_key_verifies:
  assumes "generate_gateway_key keyed_hash rnd env master = Inr k" "32 \<le> length rnd"
    and "\<And>m p. length (keyed_hash m p) = 32"
  shows "parse_gateway_key (gs_plaintext k) = Some (key_env_prefix env)
    \<and> length (gs_plaintext k) = length (key_env_prefix env) + 32
    \<and> gs_hash k = derive_hash keyed_hash master (gs_plaintext k)
    \<and> (\<forall>p. verify_gateway_key keyed_hash p master (gs_hash k) \<longleftrightarrow>
          keyed_hash master p = keyed_hash master (gs_plaintext k))"
  using assms
  by (auto simp: generate_gateway_key_def Let_def parse_gateway_key_prefix verify_gateway_key_def
      derive_hash_def SECRET_LEN_def)

theorem generated_key_verifies_witness:
  "\<exists>k. generate_gateway_key (\<lambda>m p. take 32 (rev p @ replicate 32 CHR ''0'')) (replicate 40 CHR ''x'') Live [] = Inr k
     \<and> parse_gateway_key (gs_plaintext k) = Some ''sk-gw-live-''"
proof -
  obtain k where k: "generate_gateway_key (\<lambda>m p. take 32 (rev p @ replicate 32 CHR ''0''))
      (replicate 40 CHR ''x'') Live [] = Inr k" by (simp add: generate_gateway_key_def Let_def)
  from generated_key_verifies [OF this] have "parse_gateway_key (gs_plaintext k) = Some ''sk-gw-live-''"
    by (simp add: PREFIX_LIVE_def)
  with k show ?thesis by blast
qed

end
