(* ===== verification/Cache_Policy.thy ===== *)
theory Cache_Policy
  imports Engine
begin

text \<open>
  The per-request cache policy (\<open>gateway-core/src/cache/policy.rs\<close>) and the stored form of a
  response (\<open>gateway-core/src/cache/payload.rs\<close>). \<open>ts\<close> is \<open>HeaderValue::to_str\<close>; the
  serialiser (bincode) and the compressor (zstd) are parameters. A \<open>Duration\<close> of whole seconds is
  its number of seconds.
\<close>

section \<open>Policy\<close>

datatype cache_directive = CdDefault | CdBypass | CdRefresh | CdOnlyIfCached

datatype cache_status = CsHit | CsMiss | CsBypass | CsRefresh | CsDisabled

fun as_header :: "cache_status \<Rightarrow> string" where
  "as_header CsHit = ''hit''"
| "as_header CsMiss = ''miss''"
| "as_header CsBypass = ''bypass''"
| "as_header CsRefresh = ''refresh''"
| "as_header CsDisabled = ''disabled''"

record cache_policy =
  cp_directive :: cache_directive
  cp_ttl :: nat
  cp_cache_scope :: "string option"
  cp_allow_nondeterministic :: bool

definition hdr_str :: "(string \<Rightarrow> string option) \<Rightarrow> header_map \<Rightarrow> string \<Rightarrow> string option" where
  "hdr_str ts h k = Option.bind (hdr_get h k) ts"

definition from_headers ::
  "(string \<Rightarrow> string option) \<Rightarrow> header_map \<Rightarrow> bool \<Rightarrow> nat \<Rightarrow> bool \<Rightarrow> cache_policy option" where
  "from_headers ts headers route_enabled default_ttl route_allow_nondeterministic =
     (if \<not> route_enabled then None
      else
        (let d = map_option to_ascii_lowercase (hdr_str ts headers ''x-gateway-cache'');
             directive =
               (if d = Some ''bypass'' then CdBypass
                else if d = Some ''refresh'' then CdRefresh
                else if d = Some ''only'' \<or> d = Some ''only-if-cached'' then CdOnlyIfCached
                else CdDefault);
             ttl = unwrap_or (Option.bind (hdr_str ts headers ''x-gateway-cache-ttl'') parse_u64) default_ttl;
             header_force =
               unwrap_or (map_option (\<lambda>s. to_ascii_lowercase (trim s) \<in> {''1'', ''true'', ''yes''})
                 (hdr_str ts headers ''x-gateway-cache-force'')) False
         in Some \<lparr>cp_directive = directive, cp_ttl = ttl,
              cp_cache_scope = hdr_str ts headers ''x-gateway-cache-scope'',
              cp_allow_nondeterministic = route_allow_nondeterministic \<or> header_force\<rparr>))"

definition top_p_min :: f64 where
  "top_p_min = f64_round (999 / 1000)"

definition body_is_cacheable :: "cache_policy \<Rightarrow> json option \<Rightarrow> bool" where
  "body_is_cacheable p body =
     (case body of
        None \<Rightarrow> False
      | Some b \<Rightarrow>
          if cp_allow_nondeterministic p then True
          else (let temperature = unwrap_or (Option.bind (json_get b ''temperature'') as_f64) f64_0;
                    top_p = unwrap_or (Option.bind (json_get b ''top_p'') as_f64) (Finite 1)
                in f64_eq temperature f64_0 \<and> f64_le top_p_min top_p))"

section \<open>Stored responses\<close>

record cached_response =
  cd_status :: nat
  cd_headers :: "(string \<times> string) list"
  cd_chunks :: "bytes list"
  cd_finished_at_ms :: int
  cd_served_by :: "string option"

text \<open>The codec libraries: serialise, compress and their inverses, each with the text of its error.\<close>

record codec =
  bincode_encode :: "cached_response \<Rightarrow> string + bytes"
  bincode_decode :: "bytes \<Rightarrow> string + cached_response"
  zstd_encode :: "bytes \<Rightarrow> string + bytes"
  zstd_decode :: "bytes \<Rightarrow> string + bytes"

definition cached_encode :: "codec \<Rightarrow> cached_response \<Rightarrow> string + bytes" where
  "cached_encode cdc r = (case bincode_encode cdc r of Inl e \<Rightarrow> Inl e | Inr b \<Rightarrow> zstd_encode cdc b)"

definition cached_decode :: "codec \<Rightarrow> bytes \<Rightarrow> string + cached_response" where
  "cached_decode cdc blob = (case zstd_decode cdc blob of Inl e \<Rightarrow> Inl e | Inr b \<Rightarrow> bincode_decode cdc b)"

section \<open>Facts\<close>

lemma body_is_cacheable_json: "body_is_cacheable p body \<Longrightarrow> body \<noteq> None"
  by (cases body) (simp_all add: body_is_cacheable_def)

lemma from_headers_enabled: "from_headers ts h en ttl nd = Some p \<Longrightarrow> en"
  by (simp add: from_headers_def split: if_splits)

text \<open>A response that was stored is read back unchanged, when the libraries' decoders invert
  their encoders.\<close>

lemma cached_roundtrip:
  assumes "\<And>r b. bincode_encode cdc r = Inr b \<Longrightarrow> bincode_decode cdc b = Inr r"
    and "\<And>b z. zstd_encode cdc b = Inr z \<Longrightarrow> zstd_decode cdc z = Inr b"
    and "cached_encode cdc r = Inr blob"
  shows "cached_decode cdc blob = Inr r"
  using assms by (auto simp: cached_encode_def cached_decode_def split: sum.splits)

end
