(* ===== verification/Auth.thy ===== *)
theory Auth
  imports Security Cache_Policy Memory_Store
begin

text \<open>
  Authentication of requests: \<open>gateway-api/src/auth.rs\<close>. A request's headers decide who is
  calling; the metadata store holds the gateway keys. The \<open>last_used\<close> touch, which the code spawns as
  a task of its own, happens here before the answer.
\<close>

section \<open>Definitions\<close>

datatype admin_principal = Root | User string string

record gateway_key_principal =
  gp_key_id :: string
  gp_project_id :: string

definition extract_bearer :: "(string \<Rightarrow> string option) \<Rightarrow> header_map \<Rightarrow> string option" where
  "extract_bearer ts headers =
     Option.bind (hdr_str ts headers ''authorization'') (\<lambda>s.
     Option.bind (strip_prefix s ''Bearer '') (\<lambda>r.
       let rest = trim r in if rest = [] then None else Some rest))"

definition admin_auth ::
  "(string \<Rightarrow> string option) \<Rightarrow> (bytes \<Rightarrow> int \<Rightarrow> string \<Rightarrow> admin_token_claims option) \<Rightarrow> string option \<Rightarrow> bytes
     \<Rightarrow> int \<Rightarrow> header_map \<Rightarrow> api_error + admin_principal" where
  "admin_auth ts jwt_decode admin_root_token master now headers =
     (case extract_bearer ts headers of
        None \<Rightarrow> Inl ApiUnauthorized
      | Some token \<Rightarrow>
          if admin_root_token = Some token then Inr Root
          else (case token_verify jwt_decode master now token of
                  Inr claims \<Rightarrow> Inr (User (at_sub claims) (at_username claims))
                | Inl _ \<Rightarrow> Inl ApiUnauthorized))"

definition row_usable :: "int \<Rightarrow> gateway_key_row \<Rightarrow> bool" where
  "row_usable now row \<longleftrightarrow>
     kr_status row = ''active'' \<and> (case kr_expires_at row of Some e \<Rightarrow> now < e | None \<Rightarrow> True)"

definition gateway_key_auth ::
  "(string \<Rightarrow> string option) \<Rightarrow> keyed_hash_fn \<Rightarrow> 'm metadata_ops \<Rightarrow> bytes \<Rightarrow> 'm \<Rightarrow> int \<Rightarrow> header_map
     \<Rightarrow> 'm \<times> (api_error + gateway_key_principal)" where
  "gateway_key_auth ts keyed_hash ops master st now headers =
     (case extract_bearer ts headers of
        None \<Rightarrow> (st, Inl ApiUnauthorized)
      | Some token \<Rightarrow>
          (case parse_gateway_key token of
             None \<Rightarrow> (st, Inl ApiUnauthorized)
           | Some _ \<Rightarrow>
               (case find_key_by_hash ops st (derive_hash keyed_hash master token) of
                  Inl e \<Rightarrow> (st, Inl (ApiStorage e))
                | Inr None \<Rightarrow> (st, Inl ApiUnauthorized)
                | Inr (Some row) \<Rightarrow>
                    if kr_status row \<noteq> ''active'' then (st, Inl ApiUnauthorized)
                    else if (case kr_expires_at row of Some e \<Rightarrow> e \<le> now | None \<Rightarrow> False)
                    then (st, Inl ApiUnauthorized)
                    else (fst (touch_key_last_used ops st (kr_id row) now),
                          Inr \<lparr>gp_key_id = kr_id row, gp_project_id = kr_project_id row\<rparr>))))"

section \<open>Authentication against any key store\<close>

context key_store_contract
begin

lemma auth_sound:
  assumes "ok st" "gateway_key_auth ts kh ops master st now headers = (st', Inr p)"
  shows "\<exists>token row. extract_bearer ts headers = Some token \<and> parse_gateway_key token \<noteq> None
    \<and> key st (gp_key_id p) = Some row \<and> kr_hash row = derive_hash kh master token
    \<and> row_usable now row \<and> gp_project_id p = kr_project_id row"
proof -
  from assms(2) obtain token row where t: "extract_bearer ts headers = Some token" "parse_gateway_key token \<noteq> None"
      "find_key_by_hash ops st (derive_hash kh master token) = Inr (Some row)" "row_usable now row"
      "p = \<lparr>gp_key_id = kr_id row, gp_project_id = kr_project_id row\<rparr>"
    by (auto simp: gateway_key_auth_def row_usable_def split: option.splits sum.splits if_splits)
  with find_sound [OF assms(1) t(3)] show ?thesis by auto
qed

lemma auth_complete:
  assumes "ok st" "extract_bearer ts headers = Some token" "parse_gateway_key token \<noteq> None"
    and "\<exists>r. find_key_by_hash ops st (derive_hash kh master token) = Inr r"
    and "key st i = Some row" "kr_hash row = derive_hash kh master token"
    and "\<And>j r. key st j = Some r \<Longrightarrow> kr_hash r = derive_hash kh master token \<Longrightarrow> j = i"
  shows "snd (gateway_key_auth ts kh ops master st now headers) =
    (if row_usable now row then Inr \<lparr>gp_key_id = kr_id row, gp_project_id = kr_project_id row\<rparr>
     else Inl ApiUnauthorized)"
proof -
  obtain r where r: "find_key_by_hash ops st (derive_hash kh master token) = Inr r" using assms(4) by blast
  have "r \<noteq> None" using find_complete [OF assms(1), of "derive_hash kh master token" i row] r assms(5,6) by auto
  then obtain row' where row': "r = Some row'" by blast
  with find_sound [OF assms(1)] r have "kr_hash row' = derive_hash kh master token" "key st (kr_id row') = Some row'"
    by auto
  with assms(5) assms(7) [of "kr_id row'" row'] have "row' = row" by auto
  with r row' assms(2,3) show ?thesis
    by (auto simp: gateway_key_auth_def row_usable_def split: option.splits)
qed

text \<open>Revoking a key locks its holder out at once.\<close>

lemma revoked_rejected:
  assumes "ok st" "revoke_key ops st now0 i = (st1, Inr ())"
    and "key st i = Some row" "kr_id row = i" "kr_hash row = derive_hash kh master token"
    and "\<And>j r. key st j = Some r \<Longrightarrow> kr_hash r = derive_hash kh master token \<Longrightarrow> j = i"
    and "extract_bearer ts headers = Some token"
  shows "\<forall>p. snd (gateway_key_auth ts kh ops master st1 now headers) \<noteq> Inr p"
proof (rule allI, rule notI)
  fix p assume p: "snd (gateway_key_auth ts kh ops master st1 now headers) = Inr p"
  from revoke_result [OF assms(1,2)] assms(3) have st1: "ok st1"
      "key st1 = (key st)(i \<mapsto> row\<lparr>kr_status := ''revoked'', kr_revoked_at := Some now0\<rparr>)" by auto
  from auth_sound [OF st1(1)] p obtain row' where r: "key st1 (gp_key_id p) = Some row'"
      "kr_hash row' = derive_hash kh master token" "row_usable now row'"
    using assms(7) by (metis option.inject prod.collapse)
  show False
  proof (cases "gp_key_id p = i")
    case True
    with r st1(2) show False by (auto simp: row_usable_def)
  next
    case False
    with r(1) st1(2) have "key st (gp_key_id p) = Some row'" by simp
    with r(2) assms(6) False show False by blast
  qed
qed

end

section \<open>Properties\<close>

text \<open>C9: a request is admitted to the proxy only with a bearer token that carries a gateway key prefix and whose
  keyed hash is stored for an active, unexpired key; the caller is then exactly that key and its project. Conversely
  the holder of a usable key whose hash no other key shares is admitted, and the holder of an
  inactive or expired one is refused.\<close>

theorem gateway_key_auth_exact:
  assumes "mem_keys_ok st"
  shows "(\<forall>st' p. gateway_key_auth ts kh mem_metadata_ops master st now headers = (st', Inr p) \<longrightarrow>
      (\<exists>token row. extract_bearer ts headers = Some token \<and> parse_gateway_key token \<noteq> None
        \<and> mem_key st (gp_key_id p) = Some row \<and> kr_hash row = derive_hash kh master token
        \<and> row_usable now row \<and> gp_project_id p = kr_project_id row))
    \<and> (\<forall>token i row. extract_bearer ts headers = Some token \<and> parse_gateway_key token \<noteq> None
        \<and> mem_key st i = Some row \<and> kr_hash row = derive_hash kh master token
        \<and> (\<forall>j r. mem_key st j = Some r \<and> kr_hash r = derive_hash kh master token \<longrightarrow> j = i) \<longrightarrow>
        snd (gateway_key_auth ts kh mem_metadata_ops master st now headers) =
          (if row_usable now row then Inr \<lparr>gp_key_id = kr_id row, gp_project_id = kr_project_id row\<rparr>
           else Inl ApiUnauthorized))"
proof -
  have found: "\<exists>r. find_key_by_hash mem_metadata_ops st h = Inr r" for h
    by (simp add: mem_metadata_ops_def mem_find_key_by_hash_def)
  show ?thesis
    using mem_keys.auth_sound [OF assms] mem_keys.auth_complete [OF assms _ _ found] by blast
qed

definition demo_key :: gateway_key_row where
  "demo_key = \<lparr>kr_id = ''k1'', kr_project_id = ''default'', kr_name = ''n'', kr_prefix = ''sk-gw-live-'',
     kr_hash = ''sk-gw-live-x'', kr_last4 = ''e-x'', kr_scopes = [], kr_status = ''active'', kr_expires_at = None,
     kr_last_used_at = None, kr_created_at = 0, kr_revoked_at = None, kr_origin = ''admin''\<rparr>"

lemma demo_token: "extract_bearer Some [(''authorization'', ''Bearer sk-gw-live-x'')] = Some ''sk-gw-live-x''"
  by (simp add: extract_bearer_def hdr_str_def hdr_get_def strip_prefix_def trim_def is_whitespace_def
      is_cont_byte_def byte_def Let_def)

theorem gateway_key_auth_exact_witness:
  "snd (gateway_key_auth Some (\<lambda>m p. p) mem_metadata_ops [] (mem_meta_new\<lparr>mm_keys := [(''k1'', demo_key)]\<rparr>) 5
      [(''authorization'', ''Bearer sk-gw-live-x'')]) = Inr \<lparr>gp_key_id = ''k1'', gp_project_id = ''default''\<rparr>"
proof -
  let ?st = "mem_meta_new\<lparr>mm_keys := [(''k1'', demo_key)]\<rparr>"
  have ok: "mem_keys_ok ?st"
    by (auto simp: mem_keys_ok_def hm_wf_def hm_get_def demo_key_def split: if_splits)
  show ?thesis
    using conjunct2 [OF gateway_key_auth_exact [OF ok, of Some "\<lambda>m p. p" "[]" 5
          "[(''authorization'', ''Bearer sk-gw-live-x'')]"], rule_format, of "''sk-gw-live-x''" "''k1''" demo_key]
    by (simp add: demo_token mem_key_def hm_get_def parse_gateway_key_def starts_with_def PREFIX_LIVE_def
        derive_hash_def demo_key_def row_usable_def)
qed

text \<open>After a key has been revoked, no request bearing it is admitted any more, at any later time.\<close>

theorem revoked_key_rejected:
  assumes "mem_keys_ok st" "mem_revoke_key st now0 i = (st1, Inr ())"
    and "mem_key st i = Some row" "kr_hash row = derive_hash kh master token"
    and "\<And>j r. mem_key st j = Some r \<Longrightarrow> kr_hash r = derive_hash kh master token \<Longrightarrow> j = i"
    and "extract_bearer ts headers = Some token"
  shows "\<forall>p. snd (gateway_key_auth ts kh mem_metadata_ops master st1 now headers) \<noteq> Inr p"
proof (rule mem_keys.revoked_rejected [OF assms(1) _ assms(3) _ assms(4,5,6)])
  show "revoke_key mem_metadata_ops st now0 i = (st1, Inr ())" using assms(2) by (simp add: mem_metadata_ops_def)
  show "kr_id row = i" using assms(1,3) by (simp add: mem_keys_ok_def mem_key_def)
qed

theorem revoked_key_rejected_witness:
  "\<forall>p. snd (gateway_key_auth Some (\<lambda>m p. p) mem_metadata_ops []
      (fst (mem_revoke_key (mem_meta_new\<lparr>mm_keys := [(''k1'', demo_key)]\<rparr>) 3 ''k1'')) 5
      [(''authorization'', ''Bearer sk-gw-live-x'')]) \<noteq> Inr p"
proof -
  let ?st = "mem_meta_new\<lparr>mm_keys := [(''k1'', demo_key)]\<rparr>"
  have ok: "mem_keys_ok ?st"
    by (auto simp: mem_keys_ok_def hm_wf_def hm_get_def demo_key_def split: if_splits)
  have rev: "mem_revoke_key ?st 3 ''k1'' = (fst (mem_revoke_key ?st 3 ''k1''), Inr ())"
    by (simp add: mem_revoke_key_def hm_get_def)
  have row: "mem_key ?st ''k1'' = Some demo_key" "kr_hash demo_key = derive_hash (\<lambda>m p. p) [] ''sk-gw-live-x''"
    by (simp_all add: mem_key_def hm_get_def derive_hash_def demo_key_def)
  have uniq: "mem_key ?st j = Some r \<Longrightarrow> kr_hash r = derive_hash (\<lambda>m p. p) [] ''sk-gw-live-x'' \<Longrightarrow> j = ''k1''" for j r
    by (simp add: mem_key_def hm_get_def split: if_splits)
  show ?thesis by (rule revoked_key_rejected [OF ok rev row uniq demo_token])
qed

end
