(* ===== verification/Seed_Keys.thy ===== *)
theory Seed_Keys
  imports Auth
begin

text \<open>
  Keys declared in the configuration file: \<open>gateway-api/src/seed_keys.rs\<close>, and the hot reload
  that applies them: \<open>gateway-api/src/reload.rs\<close>. The metadata store is any store with
  the key-table contract; \<open>env\<close> gives the environment variables.
\<close>

section \<open>Applying declared keys\<close>

definition key_project :: "string \<Rightarrow> gateway_key_config \<Rightarrow> string" where
  "key_project dflt k = unwrap_or (gk_project_id k) dflt"

definition by_project_push :: "string \<Rightarrow> string \<Rightarrow> (string, string list) hmap \<Rightarrow> (string, string list) hmap" where
  "by_project_push project ident m = hm_insert project (unwrap_or (hm_get m project) [] @ [ident]) m"

fun seed_collect ::
  "(string \<Rightarrow> string option) \<Rightarrow> string \<Rightarrow> gateway_key_config list \<Rightarrow> (string, string list) hmap
     \<Rightarrow> (gateway_key_config \<times> string \<times> string) list
     \<Rightarrow> string + (string, string list) hmap \<times> (gateway_key_config \<times> string \<times> string) list" where
  "seed_collect env dflt [] by_project to_upsert = Inr (by_project, to_upsert)"
| "seed_collect env dflt (k # ks) by_project to_upsert =
     (case resolve_secret env k of
        Inl e \<Rightarrow> Inl (''gateway_keys[id='' @ gk_id k @ ''].secret could not be resolved: '' @ e)
      | Inr plaintext \<Rightarrow>
          (case parse_gateway_key plaintext of
             None \<Rightarrow> Inl (''gateway_keys[id='' @ gk_id k @ ''].secret must start with '' @ quoted PREFIX_LIVE
                       @ '' or '' @ quoted PREFIX_TEST)
           | Some pre \<Rightarrow>
               seed_collect env dflt ks (by_project_push (key_project dflt k) (gk_id k) by_project)
                 (to_upsert @ [(k, plaintext, pre)])))"

definition seeded_key :: "keyed_hash_fn \<Rightarrow> bytes \<Rightarrow> string \<Rightarrow> gateway_key_config \<times> string \<times> string \<Rightarrow> new_gateway_key" where
  "seeded_key keyed_hash master dflt t =
     (case t of (k, plaintext, pre) \<Rightarrow>
        \<lparr>nk_id = gk_id k, nk_project_id = key_project dflt k, nk_name = gk_name k, nk_prefix = pre,
         nk_hash = derive_hash keyed_hash master plaintext, nk_last4 = last4_of plaintext,
         nk_scopes = gk_scopes k, nk_expires_at = None, nk_origin = KEY_ORIGIN_CONFIG\<rparr>)"

fun seed_upserts ::
  "'m metadata_ops \<Rightarrow> int \<Rightarrow> new_gateway_key list \<Rightarrow> 'm \<Rightarrow> 'm \<times> (string + unit)" where
  "seed_upserts ops now [] st = (st, Inr ())"
| "seed_upserts ops now (k # ks) st =
     (case upsert_seeded_key ops st now k of
        (st', Inl e) \<Rightarrow> (st', Inl (''upsert gateway_keys[id='' @ nk_id k @ ''] failed: '' @ storage_error_display e))
      | (st', Inr _) \<Rightarrow> seed_upserts ops now ks st')"

fun seed_prunes :: "'m metadata_ops \<Rightarrow> (string \<times> string list) list \<Rightarrow> 'm \<Rightarrow> 'm \<times> (string + unit)" where
  "seed_prunes ops [] st = (st, Inr ())"
| "seed_prunes ops ((project, ids) # ps) st =
     (case prune_seeded_keys_not_in ops st project ids of
        (st', Inl e) \<Rightarrow> (st', Inl (''prune seeded keys for project '' @ quoted project @ '' failed: ''
                         @ storage_error_display e))
      | (st', Inr _) \<Rightarrow> seed_prunes ops ps st')"

definition seed_prune_default ::
  "'m metadata_ops \<Rightarrow> string \<Rightarrow> gateway_key_config list \<Rightarrow> 'm \<Rightarrow> 'm \<times> (string + unit)" where
  "seed_prune_default ops dflt keys st =
     (if \<not> (\<exists>k \<in> set keys. key_project dflt k = dflt)
      then (case prune_seeded_keys_not_in ops st dflt [] of
              (st', Inl e) \<Rightarrow> (st', Inl (''prune seeded keys for default project failed: '' @ storage_error_display e))
            | (st', Inr _) \<Rightarrow> (st', Inr ()))
      else (st, Inr ()))"

definition seed_apply ::
  "(string \<Rightarrow> string option) \<Rightarrow> keyed_hash_fn \<Rightarrow> 'm metadata_ops \<Rightarrow> bytes \<Rightarrow> int \<Rightarrow> string
     \<Rightarrow> gateway_key_config list \<Rightarrow> 'm \<Rightarrow> 'm \<times> (string + unit)" where
  "seed_apply env keyed_hash ops master now dflt keys st =
     (case seed_collect env dflt keys [] [] of
        Inl e \<Rightarrow> (st, Inl e)
      | Inr (by_project, to_upsert) \<Rightarrow>
          (case seed_upserts ops now (map (seeded_key keyed_hash master dflt) to_upsert) st of
             (st1, Inl e) \<Rightarrow> (st1, Inl e)
           | (st1, Inr _) \<Rightarrow>
               (case seed_prunes ops by_project st1 of
                  (st2, Inl e) \<Rightarrow> (st2, Inl e)
                | (st2, Inr _) \<Rightarrow> seed_prune_default ops dflt keys st2)))"

text \<open>\<open>apply_from_config\<close> only logs and counts a failure.\<close>

definition apply_from_config ::
  "(string \<Rightarrow> string option) \<Rightarrow> keyed_hash_fn \<Rightarrow> 'm metadata_ops \<Rightarrow> bytes \<Rightarrow> int \<Rightarrow> string \<Rightarrow> app_config \<Rightarrow> 'm \<Rightarrow> 'm" where
  "apply_from_config env keyed_hash ops master now dflt config st =
     fst (seed_apply env keyed_hash ops master now dflt (gateway_keys config) st)"

section \<open>Hot reload\<close>

definition warn_unsafe_changes :: "app_config \<Rightarrow> app_config \<Rightarrow> string list" where
  "warn_unsafe_changes old new =
     (if bind (server old) \<noteq> bind (server new) then [''server.bind changed (requires restart)''] else [])
     @ (if length (providers old) \<noteq> length (providers new)
           \<or> (\<exists>(k, v) \<in> set (providers old).
                unwrap_or (map_option (\<lambda>n. base_url n \<noteq> base_url v) (hm_get (providers new) k)) True)
        then [''providers changed (proxy engine still uses old credentials until restart)''] else [])
     @ (if profile_name (storage old) \<noteq> profile_name (storage new)
        then [''storage.profile changed (requires restart)''] else [])"

definition try_reload ::
  "(string \<Rightarrow> string + app_config) \<Rightarrow> (string \<Rightarrow> string + string) \<Rightarrow> (string \<Rightarrow> string option) \<Rightarrow> keyed_hash_fn
     \<Rightarrow> 'm metadata_ops \<Rightarrow> bytes \<Rightarrow> string \<Rightarrow> string \<Rightarrow> int \<Rightarrow> app_config \<times> 'm \<Rightarrow> app_config \<times> 'm" where
  "try_reload from_yaml read_file env keyed_hash ops master dflt path now s =
     (case load_from_path from_yaml read_file path of
        Inr new_cfg \<Rightarrow> (new_cfg, apply_from_config env keyed_hash ops master now dflt new_cfg (snd s))
      | Inl _ \<Rightarrow> s)"

text \<open>The watcher reloads once per debounced change; each reload sees the file and the clock of its time.\<close>

inductive reloads ::
  "(string \<Rightarrow> string option) \<Rightarrow> keyed_hash_fn \<Rightarrow> 'm metadata_ops \<Rightarrow> bytes \<Rightarrow> string \<Rightarrow> string
     \<Rightarrow> (string \<Rightarrow> string + app_config) \<Rightarrow> app_config \<times> 'm \<Rightarrow> app_config \<times> 'm \<Rightarrow> bool"
  for env keyed_hash ops master dflt path from_yaml where
  start: "reloads env keyed_hash ops master dflt path from_yaml s s"
| reload: "reloads env keyed_hash ops master dflt path from_yaml s t \<Longrightarrow>
    reloads env keyed_hash ops master dflt path from_yaml s
      (try_reload from_yaml read_file env keyed_hash ops master dflt path now t)"

section \<open>The grouping by project\<close>

lemma by_project_push_wf: "hm_wf m \<Longrightarrow> hm_wf (by_project_push p i m)"
  by (simp add: by_project_push_def)

lemma seed_collect_result:
  assumes "seed_collect env dflt ks bp up = Inr (bp', up')"
  shows "(\<exists>pts. up' = up @ pts \<and> map fst pts = ks \<and>
      (\<forall>(k, pt, pre) \<in> set pts. resolve_secret env k = Inr pt \<and> parse_gateway_key pt = Some pre))
    \<and> (\<forall>p. unwrap_or (hm_get bp' p) [] =
          unwrap_or (hm_get bp p) [] @ map gk_id (filter (\<lambda>k. key_project dflt k = p) ks))
    \<and> (hm_wf bp \<longrightarrow> hm_wf bp')
    \<and> (\<forall>p. hm_get bp' p \<noteq> None \<longleftrightarrow> hm_get bp p \<noteq> None \<or> (\<exists>k \<in> set ks. key_project dflt k = p))"
  using assms
proof (induction env dflt ks bp up rule: seed_collect.induct)
  case (2 env dflt k ks bp up)
  from "2.prems" obtain pt pre where pt: "resolve_secret env k = Inr pt" "parse_gateway_key pt = Some pre"
      "seed_collect env dflt ks (by_project_push (key_project dflt k) (gk_id k) bp) (up @ [(k, pt, pre)]) = Inr (bp', up')"
    by (auto split: sum.splits option.splits)
  note IH = "2.IH" [OF pt]
  from IH obtain pts where "up' = (up @ [(k, pt, pre)]) @ pts" "map fst pts = ks"
      "\<forall>(k, pt, pre) \<in> set pts. resolve_secret env k = Inr pt \<and> parse_gateway_key pt = Some pre" by blast
  then have "\<exists>pts. up' = up @ pts \<and> map fst pts = k # ks \<and>
      (\<forall>(k, pt, pre) \<in> set pts. resolve_secret env k = Inr pt \<and> parse_gateway_key pt = Some pre)"
    using pt by (intro exI [of _ "(k, pt, pre) # pts"]) simp
  with IH show ?case by (simp add: by_project_push_def)
qed simp

section \<open>Seeding any key store\<close>

definition admin_managed :: "gateway_key_row \<Rightarrow> bool" where
  "admin_managed row \<longleftrightarrow> kr_origin row \<noteq> KEY_ORIGIN_CONFIG"

text \<open>What every step keeps: the store's invariant and every admin-managed key.\<close>

definition keeps_admin_keys :: "('m \<Rightarrow> bool) \<Rightarrow> ('m \<Rightarrow> string \<Rightarrow> gateway_key_row option) \<Rightarrow> 'm \<Rightarrow> 'm \<Rightarrow> bool" where
  "keeps_admin_keys ok key st st' \<longleftrightarrow>
     ok st' \<and> (\<forall>i row. key st i = Some row \<and> admin_managed row \<longrightarrow> key st' i = Some row)"

text \<open>The row that an upsert leaves for a new key, and the rows that a list of prunes removes.\<close>

definition seeded_row :: "new_gateway_key \<Rightarrow> gateway_key_row \<Rightarrow> bool" where
  "seeded_row k row \<longleftrightarrow> kr_id row = nk_id k \<and> kr_hash row = nk_hash k \<and> kr_project_id row = nk_project_id k
     \<and> kr_status row = ''active'' \<and> kr_expires_at row = nk_expires_at k \<and> kr_origin row = KEY_ORIGIN_CONFIG"

definition pruned :: "(string \<times> string list) list \<Rightarrow> string \<Rightarrow> gateway_key_row \<Rightarrow> bool" where
  "pruned ps i row \<longleftrightarrow> kr_origin row = KEY_ORIGIN_CONFIG \<and> (\<exists>ids. (kr_project_id row, ids) \<in> set ps \<and> i \<notin> set ids)"

context key_store_contract
begin

abbreviation keeps_admin :: "'m \<Rightarrow> 'm \<Rightarrow> bool" where
  "keeps_admin \<equiv> keeps_admin_keys ok key"

lemma keeps_admin_trans: "keeps_admin st st1 \<Longrightarrow> keeps_admin st1 st2 \<Longrightarrow> keeps_admin st st2"
  by (simp add: keeps_admin_keys_def)

lemma upsert_keeps_admin: "ok st \<Longrightarrow> upsert_seeded_key ops st now k = (st', r) \<Longrightarrow> keeps_admin st st'"
  using upsert_seeded_result [of st now k st' r]
  by (cases r) (auto simp: keeps_admin_keys_def admin_managed_def)

lemma prune_keeps_admin: "ok st \<Longrightarrow> prune_seeded_keys_not_in ops st p ids = (st', r) \<Longrightarrow> keeps_admin st st'"
  using prune_result [of st p ids st' r]
  by (cases r) (auto simp: keeps_admin_keys_def admin_managed_def)

lemma seed_upserts_keeps_admin: "ok st \<Longrightarrow> seed_upserts ops now ks st = (st', r) \<Longrightarrow> keeps_admin st st'"
proof (induction ks arbitrary: st)
  case (Cons k ks)
  obtain st1 r1 where u: "upsert_seeded_key ops st now k = (st1, r1)" by fastforce
  from upsert_keeps_admin [OF Cons.prems(1) u] have k1: "keeps_admin st st1" .
  show ?case
  proof (cases r1)
    case (Inl e)
    with Cons.prems u k1 show ?thesis by simp
  next
    case (Inr row)
    with Cons.prems(2) u have "seed_upserts ops now ks st1 = (st', r)" by simp
    with Cons.IH k1 keeps_admin_trans show ?thesis by (meson keeps_admin_keys_def)
  qed
qed (simp add: keeps_admin_keys_def)

lemma seed_prunes_keeps_admin: "ok st \<Longrightarrow> seed_prunes ops ps st = (st', r) \<Longrightarrow> keeps_admin st st'"
proof (induction ps arbitrary: st)
  case (Cons pi ps)
  obtain p ids where pi: "pi = (p, ids)" by (cases pi)
  obtain st1 r1 where u: "prune_seeded_keys_not_in ops st p ids = (st1, r1)" by fastforce
  from prune_keeps_admin [OF Cons.prems(1) u] have k1: "keeps_admin st st1" .
  show ?case
  proof (cases r1)
    case (Inl e)
    with Cons.prems u k1 pi show ?thesis by simp
  next
    case (Inr n)
    with Cons.prems(2) u pi have "seed_prunes ops ps st1 = (st', r)" by simp
    with Cons.IH k1 keeps_admin_trans show ?thesis by (meson keeps_admin_keys_def)
  qed
qed (simp add: keeps_admin_keys_def)

lemma seed_prune_default_keeps_admin:
  "ok st \<Longrightarrow> seed_prune_default ops dflt keys st = (st', r) \<Longrightarrow> keeps_admin st st'"
  using prune_keeps_admin [of st dflt "[]"]
  by (auto simp: seed_prune_default_def keeps_admin_keys_def split: if_splits prod.splits sum.splits)

lemma seed_apply_keeps_admin:
  assumes "ok st" "seed_apply env kh ops master now dflt keys st = (st', r)"
  shows "keeps_admin st st'"
proof (cases "seed_collect env dflt keys [] []")
  case (Inl e)
  with assms show ?thesis by (simp add: seed_apply_def keeps_admin_keys_def)
next
  case (Inr bu)
  obtain bp up where bu: "bu = (bp, up)" by (cases bu)
  obtain st1 r1 where u: "seed_upserts ops now (map (seeded_key kh master dflt) up) st = (st1, r1)" by fastforce
  have k1: "keeps_admin st st1" by (rule seed_upserts_keeps_admin [OF assms(1) u])
  obtain st2 r2 where p: "seed_prunes ops bp st1 = (st2, r2)" by fastforce
  have k2: "keeps_admin st1 st2" using k1 by (intro seed_prunes_keeps_admin [OF _ p]) (simp add: keeps_admin_keys_def)
  from assms(2) Inr bu u p consider "st' = st1" | "st' = st2"
    | "seed_prune_default ops dflt keys st2 = (st', r)"
    by (auto simp: seed_apply_def split: sum.splits)
  then show ?thesis
  proof cases
    case 3
    with k2 have "keeps_admin st2 st'" by (intro seed_prune_default_keeps_admin) (simp_all add: keeps_admin_keys_def)
    with k1 k2 keeps_admin_trans show ?thesis by blast
  qed (use k1 k2 keeps_admin_trans in blast)+
qed

lemma seed_upserts_result:
  assumes "ok st" "distinct (map nk_id ks)" "seed_upserts ops now ks st = (st', Inr ())"
  shows "ok st' \<and> (\<forall>k \<in> set ks. \<exists>row. key st' (nk_id k) = Some row \<and> seeded_row k row)
    \<and> (\<forall>i. i \<notin> nk_id ` set ks \<longrightarrow> key st' i = key st i)"
  using assms
proof (induction ks arbitrary: st)
  case (Cons k ks)
  then obtain st1 row where u: "upsert_seeded_key ops st now k = (st1, Inr row)"
      "seed_upserts ops now ks st1 = (st', Inr ())" by (auto split: prod.splits sum.splits)
  from upsert_seeded_result [OF Cons.prems(1) u(1)]
  have k1: "ok st1" "key st1 = (key st)(nk_id k \<mapsto> row)" "seeded_row k row"
    by (auto simp: seeded_row_def)
  from Cons.IH [OF k1(1) _ u(2)] Cons.prems(2) k1(2,3) show ?case by auto
qed simp

lemma seed_prunes_result:
  assumes "ok st" "seed_prunes ops ps st = (st', Inr ())"
  shows "ok st' \<and> (\<forall>i. key st' i = (case key st i of None \<Rightarrow> None
    | Some row \<Rightarrow> if pruned ps i row then None else Some row))"
  using assms
proof (induction ps arbitrary: st)
  case Nil
  then show ?case by (auto simp: pruned_def split: option.split)
next
  case (Cons pi ps)
  obtain p ids where pi: "pi = (p, ids)" by (cases pi)
  with Cons.prems obtain st1 n where u: "prune_seeded_keys_not_in ops st p ids = (st1, Inr n)"
      "seed_prunes ops ps st1 = (st', Inr ())" by (auto split: prod.splits sum.splits)
  from prune_result [OF Cons.prems(1) u(1)] have k1: "ok st1"
      "key st1 = (\<lambda>i. case key st i of None \<Rightarrow> None | Some row \<Rightarrow>
         if kr_project_id row = p \<and> kr_origin row = KEY_ORIGIN_CONFIG \<and> i \<notin> set ids then None else Some row)"
    by auto
  from Cons.IH [OF k1(1) u(2)] k1(2) pi show ?case
    by (auto simp: pruned_def split: option.split)
qed

lemma seed_prune_default_result:
  assumes "ok st" "seed_prune_default ops dflt keys st = (st', Inr ())"
  shows "ok st' \<and> (\<forall>i. key st' i = (case key st i of None \<Rightarrow> None
    | Some row \<Rightarrow> if (\<forall>k \<in> set keys. key_project dflt k \<noteq> dflt) \<and> pruned [(dflt, [])] i row
                  then None else Some row))"
proof (cases "\<exists>k \<in> set keys. key_project dflt k = dflt")
  case True
  with assms show ?thesis by (auto simp: seed_prune_default_def split: option.split)
next
  case False
  with assms(2) obtain n where "prune_seeded_keys_not_in ops st dflt [] = (st', Inr n)"
    by (auto simp: seed_prune_default_def split: prod.splits sum.splits)
  from prune_result [OF assms(1) this] False show ?thesis
    by (auto simp: pruned_def split: option.split)
qed

text \<open>The store after a successful application: the declared keys, and of the others exactly
  those that are admin-managed or belong to a project that the configuration does not govern.\<close>

lemma seed_apply_result:
  assumes "ok st" "distinct (map gk_id keys)" "seed_apply env kh ops master now dflt keys st = (st', Inr ())"
  shows "ok st'
    \<and> (\<forall>k \<in> set keys. \<exists>pt row. resolve_secret env k = Inr pt \<and> parse_gateway_key pt \<noteq> None
         \<and> key st' (gk_id k) = Some row \<and> kr_hash row = derive_hash kh master pt
         \<and> kr_project_id row = key_project dflt k \<and> kr_status row = ''active'' \<and> kr_expires_at row = None
         \<and> kr_origin row = KEY_ORIGIN_CONFIG)
    \<and> (\<forall>i. i \<notin> gk_id ` set keys \<longrightarrow> key st' i =
         (case key st i of None \<Rightarrow> None
          | Some row \<Rightarrow> if \<not> admin_managed row \<and> kr_project_id row \<in> insert dflt (key_project dflt ` set keys)
                        then None else Some row))"
proof -
  from assms(3) obtain bp up where c: "seed_collect env dflt keys [] [] = Inr (bp, up)"
    by (auto simp: seed_apply_def split: sum.splits)
  let ?nks = "map (seeded_key kh master dflt) up"
  from c assms(3) obtain st1 st2 where u: "seed_upserts ops now ?nks st = (st1, Inr ())"
      and p: "seed_prunes ops bp st1 = (st2, Inr ())" and d: "seed_prune_default ops dflt keys st2 = (st', Inr ())"
    by (auto simp: seed_apply_def split: sum.splits prod.splits)
  from seed_collect_result [OF c] have up: "map fst up = keys"
      "\<forall>(k, pt, pre) \<in> set up. resolve_secret env k = Inr pt \<and> parse_gateway_key pt = Some pre"
    and bp: "\<And>q. unwrap_or (hm_get bp q) [] = map gk_id (filter (\<lambda>k. key_project dflt k = q) keys)"
      "hm_wf bp" "\<And>q. hm_get bp q \<noteq> None \<longleftrightarrow> (\<exists>k \<in> set keys. key_project dflt k = q)" by auto
  have ids: "map nk_id ?nks = map gk_id keys"
    using up(1) by (auto simp: seeded_key_def case_prod_unfold)
  have bp_in: "(q, l) \<in> set bp \<longleftrightarrow> (\<exists>k \<in> set keys. key_project dflt k = q)
      \<and> l = map gk_id (filter (\<lambda>k. key_project dflt k = q) keys)" for q l
    using bp(1) [of q] bp(3) [of q] by (cases "hm_get bp q") (auto simp: hm_in_set [OF bp(2)])
  have r1: "ok st1" "\<forall>k \<in> set ?nks. \<exists>row. key st1 (nk_id k) = Some row \<and> seeded_row k row"
      "\<forall>i. i \<notin> gk_id ` set keys \<longrightarrow> key st1 i = key st i"
    using seed_upserts_result [OF assms(1) _ u] ids assms(2) by (simp_all flip: set_map)
  have r2: "ok st2" "\<And>i. key st2 i = (case key st1 i of None \<Rightarrow> None
      | Some row \<Rightarrow> if pruned bp i row then None else Some row)"
    using seed_prunes_result [OF r1(1) p] by auto
  have r3: "ok st'" "\<And>i. key st' i = (case key st2 i of None \<Rightarrow> None
      | Some row \<Rightarrow> if (\<forall>k \<in> set keys. key_project dflt k \<noteq> dflt) \<and> pruned [(dflt, [])] i row
                  then None else Some row)"
    using seed_prune_default_result [OF r2(1) d] by auto
  have decl: "\<exists>pt row. resolve_secret env k = Inr pt \<and> parse_gateway_key pt \<noteq> None
         \<and> key st' (gk_id k) = Some row \<and> kr_hash row = derive_hash kh master pt
         \<and> kr_project_id row = key_project dflt k \<and> kr_status row = ''active'' \<and> kr_expires_at row = None
         \<and> kr_origin row = KEY_ORIGIN_CONFIG" if k: "k \<in> set keys" for k
  proof -
    from k up(1) obtain pt pre where t: "(k, pt, pre) \<in> set up" by fastforce
    with r1(2) obtain row where row: "key st1 (gk_id k) = Some row"
        "seeded_row (seeded_key kh master dflt (k, pt, pre)) row" by (force simp: seeded_key_def)
    then have pr: "kr_project_id row = key_project dflt k" by (simp add: seeded_row_def seeded_key_def)
    with k have "\<not> pruned bp (gk_id k) row" by (auto simp: pruned_def bp_in)
    moreover have "\<not> ((\<forall>k \<in> set keys. key_project dflt k \<noteq> dflt) \<and> pruned [(dflt, [])] (gk_id k) row)"
      using k pr by (auto simp: pruned_def)
    ultimately have "key st' (gk_id k) = Some row" using row(1) r2(2) r3(2) by simp
    with row(2) t up(2) show ?thesis by (auto simp: seeded_row_def seeded_key_def)
  qed
  have oth: "key st' i = (case key st i of None \<Rightarrow> None
          | Some row \<Rightarrow> if \<not> admin_managed row \<and> kr_project_id row \<in> insert dflt (key_project dflt ` set keys)
                        then None else Some row)" if i: "i \<notin> gk_id ` set keys" for i
  proof (cases "key st i")
    case None
    with i r1(3) r2(2) r3(2) show ?thesis by simp
  next
    case (Some row)
    have "pruned bp i row \<longleftrightarrow> \<not> admin_managed row \<and> kr_project_id row \<in> key_project dflt ` set keys"
      using i by (auto simp: pruned_def bp_in admin_managed_def image_iff eq_commute [of "kr_project_id row"])
    moreover have "pruned [(dflt, [])] i row \<longleftrightarrow> \<not> admin_managed row \<and> kr_project_id row = dflt"
      by (auto simp: pruned_def admin_managed_def)
    ultimately show ?thesis using Some i r1(3) r2(2) r3(2) by (auto simp: image_iff)
  qed
  from r3(1) decl oth show ?thesis by blast
qed

end

section \<open>Properties\<close>

text \<open>applying the configured keys never touches a key that was created through the admin API, whether the
  application succeeds, fails half-way or is rejected: such a key is still there, unchanged.\<close>

theorem seeding_keeps_admin_keys:
  assumes "mem_keys_ok st" "seed_apply env kh mem_metadata_ops master now dflt keys st = (st', r)"
    and "mem_key st i = Some row" "kr_origin row \<noteq> KEY_ORIGIN_CONFIG"
  shows "mem_keys_ok st' \<and> mem_key st' i = Some row"
  using mem_keys.seed_apply_keeps_admin [OF assms(1,2)] assms(3,4)
  by (simp add: keeps_admin_keys_def admin_managed_def)

theorem seeding_keeps_admin_keys_witness:
  "mem_key (fst (seed_apply (\<lambda>_. None) (\<lambda>m p. p) mem_metadata_ops [] 0 ''default''
      [\<lparr>gk_id = ''k1'', gk_name = ''n'', gk_project_id = None, gk_secret = ''sk-gw-test-a'', gk_scopes = []\<rparr>]
      (mem_meta_new\<lparr>mm_keys := [(''k1'', demo_key)]\<rparr>))) ''k1'' = Some demo_key"
proof -
  let ?st = "mem_meta_new\<lparr>mm_keys := [(''k1'', demo_key)]\<rparr>"
  have ok: "mem_keys_ok ?st" "mem_key ?st ''k1'' = Some demo_key" "kr_origin demo_key \<noteq> KEY_ORIGIN_CONFIG"
    by (auto simp: mem_keys_ok_def hm_wf_def hm_get_def demo_key_def mem_key_def KEY_ORIGIN_CONFIG_def split: if_splits)
  show ?thesis by (rule conjunct2 [OF seeding_keeps_admin_keys [OF ok(1) prod.collapse [symmetric] ok(2,3)]])
qed

text \<open>after a successful application of a configuration with distinct key ids, every declared key is
  stored active and unexpiring, with the hash of its resolved secret, in its project; and an undeclared
  key is gone exactly when an earlier configuration seeded it and its project is the default project or one
  that the configuration names.\<close>

theorem seeding_exact:
  assumes "mem_keys_ok st" "distinct (map gk_id keys)"
    and "seed_apply env kh mem_metadata_ops master now dflt keys st = (st', Inr ())"
  shows "(\<forall>k \<in> set keys. \<exists>pt row. resolve_secret env k = Inr pt \<and> parse_gateway_key pt \<noteq> None
         \<and> mem_key st' (gk_id k) = Some row \<and> kr_hash row = derive_hash kh master pt
         \<and> kr_project_id row = key_project dflt k \<and> kr_status row = ''active'' \<and> kr_expires_at row = None
         \<and> kr_origin row = KEY_ORIGIN_CONFIG)
    \<and> (\<forall>i. i \<notin> gk_id ` set keys \<longrightarrow> mem_key st' i =
         (case mem_key st i of None \<Rightarrow> None
          | Some row \<Rightarrow> if \<not> admin_managed row \<and> kr_project_id row \<in> insert dflt (key_project dflt ` set keys)
                        then None else Some row))"
  using mem_keys.seed_apply_result [OF assms] by blast

theorem seeding_exact_witness:
  "\<exists>row. mem_key (fst (seed_apply (\<lambda>_. Some ''sk-gw-test-a'') (\<lambda>m p. p) mem_metadata_ops [] 0 ''default''
      [\<lparr>gk_id = ''k2'', gk_name = ''n'', gk_project_id = None, gk_secret = ''env://K'', gk_scopes = []\<rparr>]
      (mem_meta_new\<lparr>mm_keys := [(''k1'', demo_key\<lparr>kr_origin := ''config''\<rparr>)]\<rparr>))) ''k2'' = Some row
    \<and> kr_hash row = ''sk-gw-test-a''"
proof -
  let ?st = "mem_meta_new\<lparr>mm_keys := [(''k1'', demo_key\<lparr>kr_origin := ''config''\<rparr>)]\<rparr>"
  let ?k = "\<lparr>gk_id = ''k2'', gk_name = ''n'', gk_project_id = None, gk_secret = ''env://K'', gk_scopes = []\<rparr>"
  let ?r = "seed_apply (\<lambda>_. Some ''sk-gw-test-a'') (\<lambda>m p. p) mem_metadata_ops [] 0 ''default'' [?k] ?st"
  have ok: "mem_keys_ok ?st"
    by (auto simp: mem_keys_ok_def hm_wf_def hm_get_def demo_key_def split: if_splits)
  have "snd ?r = Inr ()"
    by (simp add: seed_apply_def resolve_secret_def strip_prefix_def env_scheme_def parse_gateway_key_def
        starts_with_def PREFIX_LIVE_def PREFIX_TEST_def by_project_push_def key_project_def seeded_key_def
        mem_metadata_ops_def mem_upsert_seeded_key_def mem_prune_seeded_keys_not_in_def seed_prune_default_def
        hm_get_def hm_insert_def Let_def mem_meta_new_def demo_key_def)
  then have r: "?r = (fst ?r, Inr ())" by (metis prod.collapse)
  have "distinct (map gk_id [?k])" by simp
  from seeding_exact [OF ok this r] show ?thesis
    by (simp add: resolve_secret_def strip_prefix_def env_scheme_def derive_hash_def) blast
qed

text \<open>hot reload keeps the running configuration valid: if it passed validation when the gateway started, it
  does after any sequence of reloads, however broken the files on disk were in between.\<close>

theorem reloads_keep_valid:
  assumes "reloads env kh ops master dflt path from_yaml s t" "validate (fst s) = Inr ()"
  shows "validate (fst t) = Inr ()"
  using assms
  by (induction rule: reloads.induct)
    (auto simp: try_reload_def load_from_path_def load_from_str_def split: sum.splits)

definition demo_config :: app_config where
  "demo_config = \<lparr>server = server_config_default, storage = Memory cache_config_default, admin = admin_config_default,
     providers = [], routes = [], limits = [], budgets = [], observability = observability_config_default,
     gateway_keys = []\<rparr>"

theorem reloads_keep_valid_witness:
  "validate (fst (try_reload (\<lambda>_. Inl ''bad yaml'') (\<lambda>_. Inr ''x'') (\<lambda>_. None) (\<lambda>m p. p) mem_metadata_ops [] ''default''
      ''c.yaml'' 0 (demo_config, mem_meta_new))) = Inr ()"
proof -
  have "validate (fst (demo_config, mem_meta_new)) = Inr ()" by (simp add: validate_def demo_config_def)
  with reloads.reload [OF reloads.start] show ?thesis by (rule reloads_keep_valid)
qed

end
