(* ===== verification/Sql_Refinement.thy ===== *)
theory Sql_Refinement
  imports Sqlite_Metadata Seed_Keys "HOL-Library.Multiset" "HOL-Library.Countable"
begin

text \<open>
  The SQLite metadata store refines the in-memory one: read as hash maps, its tables change under every
  successful call as the maps of the in-memory store do, and the replies agree up to the order of listings. The store
  also fulfils the key-table contract, so what is proved of authentication and seeding over that contract holds
  for it.
\<close>

section \<open>Calls\<close>

text \<open>A call of the metadata interface with its clock reading, and its reply.\<close>

datatype meta_call =
    CreateProject int new_project | GetProject string | ListProjects
  | CreateKey int new_gateway_key | ListKeys string | GetKey string | FindKeyByHash bytes
  | RevokeKey int string | TouchKey string timestamp | UpsertSeededKey int new_gateway_key
  | PruneSeeded string "string list"
  | UpsertRoutes int string routes_config int | LoadRoutes string
  | UpsertBudget budget_row | ListBudgets | GetBudget string
  | UpsertPricing pricing_row | ListPricing | DeletePricing string string
  | CreateAdmin int new_admin_user | FindAdmin string | ListAdmins | TouchAdmin string timestamp

datatype meta_reply =
    RUnit | RCount nat
  | RProject project | RProjectOpt "project option" | RProjects "project list"
  | RKey gateway_key_row | RKeyOpt "gateway_key_row option" | RKeys "gateway_key_row list"
  | RRoutes "(routes_config \<times> int) option"
  | RBudgetOpt "budget_row option" | RBudgets "budget_row list" | RPricing "pricing_row list"
  | RAdmin admin_user | RAdminOpt "admin_user option" | RAdmins "admin_user list"

definition reply :: "('a \<Rightarrow> meta_reply) \<Rightarrow> 'a sresult \<Rightarrow> meta_reply sresult" where
  "reply f r = map_sum id f r"

fun run_call :: "'m metadata_ops \<Rightarrow> 'm \<Rightarrow> meta_call \<Rightarrow> 'm \<times> meta_reply sresult" where
  "run_call ops st (CreateProject now p) = map_prod id (reply RProject) (create_project ops st now p)"
| "run_call ops st (GetProject i) = (st, reply RProjectOpt (get_project ops st i))"
| "run_call ops st ListProjects = (st, reply RProjects (list_projects ops st))"
| "run_call ops st (CreateKey now k) = map_prod id (reply RKey) (create_key ops st now k)"
| "run_call ops st (ListKeys p) = (st, reply RKeys (list_keys ops st p))"
| "run_call ops st (GetKey i) = (st, reply RKeyOpt (get_key ops st i))"
| "run_call ops st (FindKeyByHash h) = (st, reply RKeyOpt (find_key_by_hash ops st h))"
| "run_call ops st (RevokeKey now i) = map_prod id (reply (\<lambda>_. RUnit)) (revoke_key ops st now i)"
| "run_call ops st (TouchKey i t) = map_prod id (reply (\<lambda>_. RUnit)) (touch_key_last_used ops st i t)"
| "run_call ops st (UpsertSeededKey now k) = map_prod id (reply RKey) (upsert_seeded_key ops st now k)"
| "run_call ops st (PruneSeeded p keep) = map_prod id (reply RCount) (prune_seeded_keys_not_in ops st p keep)"
| "run_call ops st (UpsertRoutes now p cfg v) = map_prod id (reply (\<lambda>_. RUnit)) (upsert_routes ops st now p cfg v)"
| "run_call ops st (LoadRoutes p) = (st, reply RRoutes (load_routes ops st p))"
| "run_call ops st (UpsertBudget b) = map_prod id (reply (\<lambda>_. RUnit)) (upsert_budget ops st b)"
| "run_call ops st ListBudgets = (st, reply RBudgets (list_budgets ops st))"
| "run_call ops st (GetBudget i) = (st, reply RBudgetOpt (get_budget ops st i))"
| "run_call ops st (UpsertPricing p) = map_prod id (reply (\<lambda>_. RUnit)) (upsert_pricing ops st p)"
| "run_call ops st ListPricing = (st, reply RPricing (list_pricing ops st))"
| "run_call ops st (DeletePricing p m) = map_prod id (reply (\<lambda>_. RUnit)) (delete_pricing ops st p m)"
| "run_call ops st (CreateAdmin now u) = map_prod id (reply RAdmin) (create_admin_user ops st now u)"
| "run_call ops st (FindAdmin n) = (st, reply RAdminOpt (find_admin_user ops st n))"
| "run_call ops st ListAdmins = (st, reply RAdmins (list_admin_users ops st))"
| "run_call ops st (TouchAdmin i t) = map_prod id (reply (\<lambda>_. RUnit)) (touch_admin_last_login ops st i t)"

fun run_calls :: "'m metadata_ops \<Rightarrow> 'm \<Rightarrow> meta_call list \<Rightarrow> 'm \<times> meta_reply sresult list" where
  "run_calls ops st [] = (st, [])"
| "run_calls ops st (c # cs) =
     (let (st1, r) = run_call ops st c; (st2, rs) = run_calls ops st1 cs in (st2, r # rs))"

text \<open>Replies agree up to the order of a listing.\<close>

definition same_reply :: "meta_reply \<Rightarrow> meta_reply \<Rightarrow> bool" where
  "same_reply a b \<longleftrightarrow> a = b
     \<or> (\<exists>xs ys. a = RProjects xs \<and> b = RProjects ys \<and> mset xs = mset ys)
     \<or> (\<exists>xs ys. a = RKeys xs \<and> b = RKeys ys \<and> mset xs = mset ys)
     \<or> (\<exists>xs ys. a = RAdmins xs \<and> b = RAdmins ys \<and> mset xs = mset ys)"

section \<open>The abstraction\<close>

text \<open>Serde gives back what it printed.\<close>

definition sql_codec :: "sql_ext \<Rightarrow> bool" where
  "sql_codec x \<longleftrightarrow> (\<forall>s. sx_dec_scopes x (sx_enc_scopes x s) = Inr s) \<and> (\<forall>j. sx_dec x (sx_enc x j) = Inr j)"

definition sum_value :: "'a \<Rightarrow> 'e + 'a \<Rightarrow> 'a" where
  "sum_value d r = (case r of Inr v \<Rightarrow> v | Inl _ \<Rightarrow> d)"

definition key_row :: "sql_ext \<Rightarrow> key_tuple \<Rightarrow> gateway_key_row" where
  "key_row x r = \<lparr>kr_id = kt_id r, kr_project_id = kt_project_id r, kr_name = kt_name r, kr_prefix = kt_prefix r,
     kr_hash = kt_hash r, kr_last4 = kt_last4 r, kr_scopes = sum_value [] (sx_dec_scopes x (kt_scopes r)),
     kr_status = kt_status r, kr_expires_at = kt_expires_at r, kr_last_used_at = kt_last_used_at r,
     kr_created_at = kt_created_at r, kr_revoked_at = kt_revoked_at r, kr_origin = kt_origin r\<rparr>"

definition budget_of :: "sql_ext \<Rightarrow> budget_tuple \<Rightarrow> budget_row" where
  "budget_of x r = \<lparr>bg_id = bt_id r, bg_name = bt_name r, bg_target_type = bt_target_type r,
     bg_target_id = bt_target_id r, bg_period = bt_period r, bg_amount_usd = bt_amount_usd r,
     bg_thresholds = sum_value JNull (sx_dec x (bt_thresholds r)), bg_status = bt_status r\<rparr>"

definition route_of :: "sql_ext \<Rightarrow> route_tuple \<Rightarrow> routes_config \<times> int" where
  "route_of x r = (sum_value JNull (sx_dec x (rt_config r)), rt_version r)"

definition price_key :: "pricing_tuple \<Rightarrow> string \<times> string" where
  "price_key t = (pr_provider (pt_row t), pr_model (pt_row t))"

definition sq_abs :: "sql_ext \<Rightarrow> sql_db \<Rightarrow> mem_meta" where
  "sq_abs x db = \<lparr>mm_projects = hm_by pj_id id (t_projects db), mm_keys = hm_by kt_id (key_row x) (t_keys db),
     mm_routes = hm_by rt_project_id (route_of x) (t_routes db), mm_budgets = hm_by bt_id (budget_of x) (t_budgets db),
     mm_admins = hm_by au_id id (t_admins db), mm_pricing = hm_by price_key pt_row (t_pricing db)\<rparr>"

text \<open>What the tables always satisfy: primary keys, foreign keys, JSON columns that parse, and prices that
  are pinned to \<open>effective_from = 0\<close>.\<close>

definition sql_ok :: "sql_ext \<Rightarrow> sql_db \<Rightarrow> bool" where
  "sql_ok x db \<longleftrightarrow> distinct (map pj_id (t_projects db)) \<and> distinct (map kt_id (t_keys db))
     \<and> distinct (map rt_project_id (t_routes db)) \<and> distinct (map bt_id (t_budgets db))
     \<and> distinct (map au_id (t_admins db)) \<and> distinct (map au_username (t_admins db))
     \<and> distinct (map pricing_key (t_pricing db)) \<and> (\<forall>t \<in> set (t_pricing db). pt_effective_from t = 0)
     \<and> (\<forall>r \<in> set (t_keys db). project_exists db (kt_project_id r) \<and> \<not> isl (sx_dec_scopes x (kt_scopes r)))
     \<and> (\<forall>r \<in> set (t_routes db). project_exists db (rt_project_id r) \<and> \<not> isl (sx_dec x (rt_config r)))
     \<and> (\<forall>r \<in> set (t_budgets db). \<not> isl (sx_dec x (bt_thresholds r)))"

section \<open>Rows that parse\<close>

text \<open>The row a new key is stored as, and the row an existing seeded key becomes.\<close>

lemma key_row_new:
  assumes "sql_codec x"
  shows "key_row x (new_key_tuple x now org k) = \<lparr>kr_id = nk_id k, kr_project_id = nk_project_id k, kr_name = nk_name k,
    kr_prefix = nk_prefix k, kr_hash = nk_hash k, kr_last4 = nk_last4 k, kr_scopes = nk_scopes k, kr_status = ''active'',
    kr_expires_at = nk_expires_at k, kr_last_used_at = None, kr_created_at = now, kr_revoked_at = None, kr_origin = org\<rparr>"
  using assms by (simp add: key_row_def new_key_tuple_def sum_value_def sql_codec_def)

lemma key_row_conflict:
  assumes "sql_codec x"
  shows "key_row x (conflict_update (new_key_tuple x now org k) r) = \<lparr>kr_id = kt_id r, kr_project_id = nk_project_id k,
    kr_name = nk_name k, kr_prefix = nk_prefix k, kr_hash = nk_hash k, kr_last4 = nk_last4 k, kr_scopes = nk_scopes k,
    kr_status = ''active'', kr_expires_at = nk_expires_at k, kr_last_used_at = kt_last_used_at r,
    kr_created_at = kt_created_at r, kr_revoked_at = None, kr_origin = kt_origin r\<rparr>"
  using assms by (simp add: key_row_def conflict_update_def new_key_tuple_def sum_value_def sql_codec_def)

lemma new_key_tuple_sel:
  assumes "sql_codec x"
  shows "sx_dec_scopes x (kt_scopes (new_key_tuple x now org k)) = Inr (nk_scopes k)"
    "kt_id (new_key_tuple x now org k) = nk_id k" "kt_project_id (new_key_tuple x now org k) = nk_project_id k"
  using assms by (simp_all add: new_key_tuple_def sql_codec_def)

lemma key_row_sel [simp]:
  "kr_id (key_row x r) = kt_id r" "kr_project_id (key_row x r) = kt_project_id r" "kr_hash (key_row x r) = kt_hash r"
  "kr_origin (key_row x r) = kt_origin r" "kr_status (key_row x r) = kt_status r"
  "kr_expires_at (key_row x r) = kt_expires_at r" "kr_created_at (key_row x r) = kt_created_at r"
  "kr_last_used_at (key_row x r) = kt_last_used_at r"
  by (simp_all add: key_row_def)

lemma row_to_gateway_key_ok:
  "\<not> isl (sx_dec_scopes x (kt_scopes r)) \<Longrightarrow> row_to_gateway_key x r = Inr (key_row x r)"
  by (cases "sx_dec_scopes x (kt_scopes r)") (simp_all add: row_to_gateway_key_def key_row_def sum_value_def)

lemma row_to_budget_ok: "\<not> isl (sx_dec x (bt_thresholds r)) \<Longrightarrow> row_to_budget x r = Inr (budget_of x r)"
  by (cases "sx_dec x (bt_thresholds r)") (simp_all add: row_to_budget_def budget_of_def sum_value_def)

lemma collect_results_ok: "(\<And>r. r \<in> set rs \<Longrightarrow> f r = Inr (g r)) \<Longrightarrow> collect_results (map f rs) = Inr (map g rs)"
  by (induction rs) auto

lemma transpose_row_ok: "(\<And>t. r = Some t \<Longrightarrow> f t = Inr (g t)) \<Longrightarrow> transpose_row f r = Inr (map_option g r)"
  by (cases r) (simp_all add: transpose_row_def)

lemma find_map_val: "List.find P (map f xs) = map_option f (List.find (\<lambda>r. P (f r)) xs)"
  by (induction xs) auto

lemma price_key_id: "sql_ok x db \<Longrightarrow> t \<in> set (t_pricing db) \<Longrightarrow> t' \<in> set (t_pricing db) \<Longrightarrow>
    pricing_key t = pricing_key t' \<longleftrightarrow> price_key t = price_key t'"
  by (simp add: sql_ok_def pricing_key_def price_key_def)

lemma sql_ok_prices: "sql_ok x db \<Longrightarrow> distinct (map price_key (t_pricing db))"
  using price_key_id [of x db] by (auto simp: sql_ok_def distinct_map inj_on_def)

section \<open>Reads\<close>

lemma sq_reads:
  assumes "sql_ok x db"
  shows "sq_get_project x db i = Inr p \<Longrightarrow> mem_get_project (sq_abs x db) i = Inr p"
    and "sq_list_projects x db = Inr ps \<Longrightarrow> \<exists>qs. mem_list_projects (sq_abs x db) = Inr qs \<and> mset qs = mset ps"
    and "sq_list_keys x db i = Inr ks \<Longrightarrow> \<exists>qs. mem_list_keys (sq_abs x db) i = Inr qs \<and> mset qs = mset ks"
    and "sq_get_key x db i = Inr k \<Longrightarrow> mem_get_key (sq_abs x db) i = Inr k"
    and "sq_find_key_by_hash x db i = Inr k \<Longrightarrow> mem_find_key_by_hash (sq_abs x db) i = Inr k"
    and "sq_load_routes x db i = Inr c \<Longrightarrow> mem_load_routes (sq_abs x db) i = Inr c"
    and "sq_list_budgets x db = Inr bs \<Longrightarrow> mem_list_budgets (sq_abs x db) = Inr bs"
    and "sq_get_budget x db i = Inr b \<Longrightarrow> mem_get_budget (sq_abs x db) i = Inr b"
    and "sq_list_pricing x db = Inr pr \<Longrightarrow> mem_list_pricing (sq_abs x db) = Inr pr"
    and "sq_find_admin_user x db i = Inr u \<Longrightarrow> mem_find_admin_user (sq_abs x db) i = Inr u"
    and "sq_list_admin_users x db = Inr us \<Longrightarrow> \<exists>vs. mem_list_admin_users (sq_abs x db) = Inr vs \<and> mset vs = mset us"
proof -
  have keys: "row_to_gateway_key x r = Inr (key_row x r)" if "r \<in> set (t_keys db)" for r
    using assms that by (simp add: sql_ok_def row_to_gateway_key_ok)
  have buds: "row_to_budget x r = Inr (budget_of x r)" if "r \<in> set (t_budgets db)" for r
    using assms that by (simp add: sql_ok_def row_to_budget_ok)
  have routes: "\<not> isl (sx_dec x (rt_config r))" if "r \<in> set (t_routes db)" for r
    using assms that by (simp add: sql_ok_def)
  show "sq_get_project x db i = Inr p \<Longrightarrow> mem_get_project (sq_abs x db) i = Inr p"
    by (simp add: sq_get_project_def fetched_Inr mem_get_project_def sq_abs_def option.map_id)
  show "sq_list_projects x db = Inr ps \<Longrightarrow> \<exists>qs. mem_list_projects (sq_abs x db) = Inr qs \<and> mset qs = mset ps"
    by (auto simp: sq_list_projects_def fetched_Inr mem_list_projects_def sq_abs_def)
  show "\<exists>qs. mem_list_keys (sq_abs x db) i = Inr qs \<and> mset qs = mset ks" if "sq_list_keys x db i = Inr ks"
  proof -
    let ?rows = "sort_key (\<lambda>r. - kt_created_at r) (select_keys (\<lambda>r. kt_project_id r = i) db)"
    have "collect_results (map (row_to_gateway_key x) ?rows) = Inr (map (key_row x) ?rows)"
      by (rule collect_results_ok) (auto simp: select_keys_def keys)
    with that have "ks = map (key_row x) ?rows" by (simp add: sq_list_keys_def fetched_Inr)
    then show ?thesis by (simp add: mem_list_keys_def sq_abs_def select_keys_def filter_map comp_def)
  qed
  show "sq_get_key x db i = Inr k \<Longrightarrow> mem_get_key (sq_abs x db) i = Inr k"
    by (subst (asm) sq_get_key_def, subst (asm) fetched_Inr, subst (asm) transpose_row_ok [where g = "key_row x"])
      (auto simp: select_key_def mem_get_key_def sq_abs_def dest!: find_in_set intro: keys)
  show "sq_find_key_by_hash x db i = Inr k \<Longrightarrow> mem_find_key_by_hash (sq_abs x db) i = Inr k"
    by (subst (asm) sq_find_key_by_hash_def, subst (asm) fetched_Inr, subst (asm) transpose_row_ok [where g = "key_row x"])
      (auto simp: select_key_def mem_find_key_by_hash_def sq_abs_def find_map_val dest!: find_in_set intro: keys)
  show "sq_load_routes x db i = Inr c \<Longrightarrow> mem_load_routes (sq_abs x db) i = Inr c"
    using routes by (auto simp: sq_load_routes_def fetched_Inr mem_load_routes_def sq_abs_def route_of_def sum_value_def
        split: option.splits sum.splits)
  show "sq_list_budgets x db = Inr bs \<Longrightarrow> mem_list_budgets (sq_abs x db) = Inr bs"
    by (simp add: sq_list_budgets_def fetched_Inr mem_list_budgets_def sq_abs_def collect_results_ok [OF buds])
  show "sq_get_budget x db i = Inr b \<Longrightarrow> mem_get_budget (sq_abs x db) i = Inr b"
    by (subst (asm) sq_get_budget_def, subst (asm) fetched_Inr, subst (asm) transpose_row_ok [where g = "budget_of x"])
      (auto simp: mem_get_budget_def sq_abs_def dest!: find_in_set intro: buds)
  show "sq_list_pricing x db = Inr pr \<Longrightarrow> mem_list_pricing (sq_abs x db) = Inr pr"
    by (simp add: sq_list_pricing_def fetched_Inr mem_list_pricing_def sq_abs_def)
  show "sq_find_admin_user x db i = Inr u \<Longrightarrow> mem_find_admin_user (sq_abs x db) i = Inr u"
    by (simp add: sq_find_admin_user_def fetched_Inr mem_find_admin_user_def sq_abs_def)
  show "sq_list_admin_users x db = Inr us \<Longrightarrow> \<exists>vs. mem_list_admin_users (sq_abs x db) = Inr vs \<and> mset vs = mset us"
    by (auto simp: sq_list_admin_users_def fetched_Inr mem_list_admin_users_def sq_abs_def)
qed

section \<open>Writes\<close>

lemma distinct_snoc: "distinct (map key (xs @ [r])) \<longleftrightarrow> distinct (map key xs) \<and> (\<forall>r' \<in> set xs. key r' \<noteq> key r)"
  by (auto simp: image_iff)

lemma project_exists_other [simp]:
  "project_exists (db\<lparr>t_keys := a\<rparr>) = project_exists db" "project_exists (db\<lparr>t_routes := b\<rparr>) = project_exists db"
  "project_exists (db\<lparr>t_budgets := c\<rparr>) = project_exists db" "project_exists (db\<lparr>t_pricing := d\<rparr>) = project_exists db"
  "project_exists (db\<lparr>t_admins := e\<rparr>) = project_exists db"
  by (simp_all add: fun_eq_iff project_exists_def)

lemma sq_create_project_sim:
  assumes "sql_ok x db" "sq_create_project x db now p = (db', Inr v)"
  shows "sql_ok x db' \<and> mem_create_project (sq_abs x db) now p = (sq_abs x db', Inr v)"
proof -
  let ?p = "\<lparr>pj_id = np_id p, pj_name = np_name p, pj_created_at = now\<rparr>"
  have v: "v = ?p" and fresh: "\<forall>r \<in> set (t_projects db). pj_id r \<noteq> np_id p"
    and db': "db' = db\<lparr>t_projects := t_projects db @ [?p]\<rparr>"
    using assms(2) by (auto simp: sq_create_project_def executed_Inr insert_project_def project_exists_def Let_def split: if_splits)
  have "sql_ok x db'"
    using assms(1) fresh unfolding db' sql_ok_def project_exists_def by (auto simp: image_iff)
  moreover have "hm_insert (np_id p) ?p (hm_by pj_id id (t_projects db)) = hm_by pj_id id (t_projects db @ [?p])"
    using fresh by (intro hm_by_append) auto
  ultimately show ?thesis by (simp add: mem_create_project_def sq_abs_def db' v Let_def)
qed

text \<open>Appending a fresh key of an existing project.\<close>

lemma append_key_sim:
  assumes "sql_codec x" "sql_ok x db" "\<forall>r \<in> set (t_keys db). kt_id r \<noteq> nk_id k" "project_exists db (nk_project_id k)"
  shows "sql_ok x (db\<lparr>t_keys := t_keys db @ [new_key_tuple x now org k]\<rparr>)"
    and "hm_insert (nk_id k) (key_row x (new_key_tuple x now org k)) (hm_by kt_id (key_row x) (t_keys db))
      = hm_by kt_id (key_row x) (t_keys db @ [new_key_tuple x now org k])"
proof -
  note sel = new_key_tuple_sel [OF assms(1), of now org k]
  show "sql_ok x (db\<lparr>t_keys := t_keys db @ [new_key_tuple x now org k]\<rparr>)"
    using assms(2-4) sel unfolding sql_ok_def by (auto simp: image_iff)
  show "hm_insert (nk_id k) (key_row x (new_key_tuple x now org k)) (hm_by kt_id (key_row x) (t_keys db))
      = hm_by kt_id (key_row x) (t_keys db @ [new_key_tuple x now org k])"
    using assms(3) sel by (intro hm_by_append) auto
qed

lemma sq_create_key_sim:
  assumes "sql_codec x" "sql_ok x db" "sq_create_key x db now k = (db', Inr v)"
  shows "sql_ok x db' \<and> mem_create_key (sq_abs x db) now k = (sq_abs x db', Inr v)"
proof -
  let ?t = "new_key_tuple x now (nk_origin k) k"
  note sel = new_key_tuple_sel [OF assms(1), of now "nk_origin k" k]
  have fresh: "\<forall>r \<in> set (t_keys db). kt_id r \<noteq> nk_id k" and proj: "project_exists db (nk_project_id k)"
    and db': "db' = db\<lparr>t_keys := t_keys db @ [?t]\<rparr>" and v: "v = key_row x ?t"
    using assms(3) sel by (auto simp: sq_create_key_def executed_Inr insert_key_def key_row_new [OF assms(1)] split: if_splits)
  show ?thesis
    using append_key_sim [OF assms(1,2) fresh proj, of now "nk_origin k"]
    by (simp add: mem_create_key_def sq_abs_def db' v key_row_new [OF assms(1)] Let_def)
qed

text \<open>An update of one key by id.\<close>

lemma update_key_sim:
  assumes "sql_ok x db" "\<And>r. kt_id (f r) = kt_id r \<and> kt_project_id (f r) = kt_project_id r \<and> kt_scopes (f r) = kt_scopes r"
  shows "sql_ok x (db\<lparr>t_keys := upd_where (\<lambda>r. kt_id r = i) f (t_keys db)\<rparr>)"
    and "List.find (\<lambda>r. kt_id r = i) (t_keys db) = Some r \<Longrightarrow> key_row x (f r) = v \<Longrightarrow>
      hm_insert i v (hm_by kt_id (key_row x) (t_keys db))
        = hm_by kt_id (key_row x) (upd_where (\<lambda>r. kt_id r = i) f (t_keys db))"
proof -
  have "map kt_id (upd_where (\<lambda>r. kt_id r = i) f (t_keys db)) = map kt_id (t_keys db)"
    using assms(2) by (intro upd_where_keys) simp
  then show "sql_ok x (db\<lparr>t_keys := upd_where (\<lambda>r. kt_id r = i) f (t_keys db)\<rparr>)"
    using assms by (auto simp: sql_ok_def in_upd_where split: if_splits)
  show "hm_insert i v (hm_by kt_id (key_row x) (t_keys db))
      = hm_by kt_id (key_row x) (upd_where (\<lambda>r. kt_id r = i) f (t_keys db))"
    if "List.find (\<lambda>r. kt_id r = i) (t_keys db) = Some r" "key_row x (f r) = v"
    using assms that by (intro hm_by_update) (auto simp: sql_ok_def)
qed

lemma sq_revoke_key_sim:
  assumes "sql_ok x db" "sq_revoke_key x db now i = (db', Inr v)"
  shows "sql_ok x db' \<and> mem_revoke_key (sq_abs x db) now i = (sq_abs x db', Inr v)"
proof -
  let ?f = "\<lambda>r. r\<lparr>kt_status := ''revoked'', kt_revoked_at := Some now\<rparr>"
  have db': "db' = db\<lparr>t_keys := upd_where (\<lambda>r. kt_id r = i) ?f (t_keys db)\<rparr>" and ex: "\<exists>r \<in> set (t_keys db). kt_id r = i"
    using assms(2) by (auto simp: sq_revoke_key_def executed_Inr update_keys_def split: if_splits)
  from ex obtain r where r: "List.find (\<lambda>r. kt_id r = i) (t_keys db) = Some r" unfolding find_exists by blast
  have "key_row x (?f r) = (key_row x r)\<lparr>kr_status := ''revoked'', kr_revoked_at := Some now\<rparr>" by (simp add: key_row_def)
  note upd = update_key_sim(2) [where f = ?f, OF assms(1) _ r this]
  show ?thesis using update_key_sim(1) [OF assms(1), of ?f] by (simp add: mem_revoke_key_def sq_abs_def db' r upd)
qed

lemma sq_touch_key_sim:
  assumes "sql_ok x db" "sq_touch_key_last_used x db i t = (db', Inr v)"
  shows "sql_ok x db' \<and> mem_touch_key_last_used (sq_abs x db) i t = (sq_abs x db', Inr v)"
proof -
  let ?f = "\<lambda>r. r\<lparr>kt_last_used_at := Some t\<rparr>"
  have db': "db' = db\<lparr>t_keys := upd_where (\<lambda>r. kt_id r = i) ?f (t_keys db)\<rparr>"
    using assms(2) by (auto simp: sq_touch_key_last_used_def executed_Inr update_keys_def)
  show ?thesis
  proof (cases "List.find (\<lambda>r. kt_id r = i) (t_keys db)")
    case None
    then have "upd_where (\<lambda>r. kt_id r = i) ?f (t_keys db) = t_keys db"
      by (intro upd_where_none) (auto simp: find_None_iff)
    with None assms(1) show ?thesis by (simp add: mem_touch_key_last_used_def sq_abs_def db')
  next
    case (Some r)
    have "key_row x (?f r) = (key_row x r)\<lparr>kr_last_used_at := Some t\<rparr>" by (simp add: key_row_def)
    note upd = update_key_sim(2) [where f = ?f, OF assms(1) _ Some this]
    show ?thesis using update_key_sim(1) [OF assms(1), of ?f] by (simp add: mem_touch_key_last_used_def sq_abs_def db' Some upd)
  qed
qed

lemma sq_upsert_seeded_sim:
  assumes "sql_codec x" "sql_ok x db" "sq_upsert_seeded_key x db now k = (db', Inr v)"
  shows "sql_ok x db' \<and> mem_upsert_seeded_key (sq_abs x db) now k = (sq_abs x db', Inr v)"
proof -
  let ?P = "\<lambda>r. kt_id r = nk_id k" and ?t = "new_key_tuple x now KEY_ORIGIN_CONFIG k"
  let ?f = "conflict_update ?t"
  have ok: "db_fault db 0 = None" "\<And>r. List.find ?P (t_keys db) = Some r \<Longrightarrow> kt_origin r = KEY_ORIGIN_CONFIG"
    and ex: "execute db 1 (upsert_key ?t) = (db', Inr 1)"
    and row: "\<exists>r. List.find ?P (t_keys db') = Some r \<and> row_to_gateway_key x r = Inr v"
    using assms(3)
    by (auto simp: sq_upsert_seeded_key_def fetch_def select_key_def fetched_def execute_def upsert_key_def
        split: option.splits sum.splits if_splits prod.splits)
  from ex have proj: "project_exists db (nk_project_id k)"
    and db': "db' = db\<lparr>t_keys := (case List.find ?P (t_keys db) of None \<Rightarrow> t_keys db @ [?t] | Some _ \<Rightarrow> upd_where ?P ?f (t_keys db))\<rparr>"
    by (auto simp: execute_def upsert_key_def new_key_tuple_def find_exists [symmetric] find_None_iff
        split: option.splits if_splits dest!: find_in_set)
  note sel = new_key_tuple_sel [OF assms(1), of now KEY_ORIGIN_CONFIG k]
  show ?thesis
  proof (cases "List.find ?P (t_keys db)")
    case None
    then have fresh: "\<forall>r \<in> set (t_keys db). kt_id r \<noteq> nk_id k" by (auto simp: find_None_iff)
    have "List.find ?P (t_keys db @ [?t]) = Some ?t" using fresh sel(2) by (intro find_snoc) auto
    with row None have "v = key_row x ?t" by (simp add: db' row_to_gateway_key_ok sel)
    with append_key_sim [OF assms(1,2) fresh proj, of now KEY_ORIGIN_CONFIG] None show ?thesis
      by (simp add: mem_upsert_seeded_key_def sq_abs_def db' key_row_new [OF assms(1)] Let_def)
  next
    case (Some r)
    have keep: "kt_id (?f r') = kt_id r'" for r' by (simp add: conflict_update_def)
    have "List.find ?P (upd_where ?P ?f (t_keys db)) = Some (?f r)"
      using find_upd_where [of ?P kt_id ?f "nk_id k" "t_keys db"] keep Some find_in_set [OF Some] by simp
    moreover have "kt_scopes (?f r) = kt_scopes ?t" by (simp add: conflict_update_def)
    ultimately have v: "v = key_row x (?f r)" using row Some by (simp add: db' row_to_gateway_key_ok sel)
    have "map kt_id (upd_where ?P ?f (t_keys db)) = map kt_id (t_keys db)" by (rule upd_where_keys) (rule keep)
    then have "sql_ok x db'"
      using assms(2) proj sel Some unfolding db' sql_ok_def
      by (auto simp: in_upd_where conflict_update_def split: if_splits)
    moreover have "hm_insert (nk_id k) v (hm_by kt_id (key_row x) (t_keys db))
        = hm_by kt_id (key_row x) (upd_where ?P ?f (t_keys db))"
      using assms(2) Some keep v by (intro hm_by_update) (auto simp: sql_ok_def)
    ultimately show ?thesis
      using Some ok(2) [OF Some] find_in_set [OF Some] v
      by (simp add: mem_upsert_seeded_key_def sq_abs_def db' key_row_conflict [OF assms(1)] Let_def)
  qed
qed

lemma sq_prune_sim:
  assumes "sql_ok x db" "sq_prune_seeded_keys_not_in x db p keep = (db', Inr n)"
  shows "sql_ok x db' \<and> mem_prune_seeded_keys_not_in (sq_abs x db) p keep = (sq_abs x db', Inr n)"
proof -
  let ?P = "\<lambda>r. kt_project_id r = p \<and> kt_origin r = KEY_ORIGIN_CONFIG \<and> kt_id r \<notin> set keep"
  have eq: "(kt_project_id r = p \<and> kt_origin r = KEY_ORIGIN_CONFIG \<and> (keep \<noteq> [] \<longrightarrow> kt_id r \<notin> set keep)) = ?P r" for r by auto
  have db': "db' = db\<lparr>t_keys := filter (\<lambda>r. \<not> ?P r) (t_keys db)\<rparr>" and n: "n = length (filter ?P (t_keys db))"
    using assms(2) unfolding sq_prune_seeded_keys_not_in_def eq by (auto simp: executed_Inr delete_keys_def count_where_def)
  have d: "distinct (map kt_id (t_keys db))" using assms(1) by (simp add: sql_ok_def)
  have "filter (\<lambda>r. kt_id r \<notin> kt_id ` set (filter ?P (t_keys db))) (t_keys db) = filter (\<lambda>r. \<not> ?P r) (t_keys db)"
    using d by (intro filter_cong refl) (auto simp: distinct_map inj_on_def)
  moreover have "sql_ok x db'"
    using assms(1) by (auto simp: db' sql_ok_def distinct_map inj_on_def)
  ultimately show ?thesis
    by (simp add: mem_prune_seeded_keys_not_in_def sq_abs_def db' n Let_def filter_map comp_def hm_by_fold_remove)
qed

lemma sq_upsert_routes_sim:
  assumes "sql_codec x" "sql_ok x db" "sq_upsert_routes x db now p cfg ver = (db', Inr v)"
  shows "sql_ok x db' \<and> mem_upsert_routes (sq_abs x db) now p cfg ver = (sq_abs x db', Inr v)"
proof -
  let ?t = "\<lparr>rt_project_id = p, rt_config = sx_enc x cfg, rt_version = ver, rt_updated_at = now\<rparr>"
  let ?P = "\<lambda>r. rt_project_id r = p"
  have proj: "project_exists db p"
    and db': "db' = db\<lparr>t_routes := (case List.find ?P (t_routes db) of None \<Rightarrow> t_routes db @ [?t]
        | Some _ \<Rightarrow> upd_where ?P (\<lambda>_. ?t) (t_routes db))\<rparr>"
    using assms(3) by (auto simp: sq_upsert_routes_def executed_Inr upsert_route_def find_exists [symmetric] find_None_iff
        split: option.splits if_splits dest!: find_in_set)
  have val: "route_of x ?t = (cfg, ver)" using assms(1) by (simp add: route_of_def sql_codec_def sum_value_def)
  have d: "distinct (map rt_project_id (t_routes db))" using assms(2) by (simp add: sql_ok_def)
  have keys: "map rt_project_id (upd_where ?P (\<lambda>_. ?t) (t_routes db)) = map rt_project_id (t_routes db)"
    by (rule upd_where_keys) simp
  have "sql_ok x db'"
    using assms(1,2) proj keys unfolding db' sql_ok_def sql_codec_def
    by (auto simp: in_upd_where find_None_iff image_iff split: option.splits if_splits)
  moreover have "hm_insert p (cfg, ver) (hm_by rt_project_id (route_of x) (t_routes db))
      = hm_by rt_project_id (route_of x) (t_routes db')"
    using val d unfolding db'
    by (auto split: option.split intro!: hm_by_append hm_by_update simp: find_None_iff)
  ultimately show ?thesis by (simp add: mem_upsert_routes_def sq_abs_def db')
qed

lemma sq_upsert_budget_sim:
  assumes "sql_codec x" "sql_ok x db" "sq_upsert_budget x db b = (db', Inr v)"
  shows "sql_ok x db' \<and> mem_upsert_budget (sq_abs x db) b = (sq_abs x db', Inr v)"
proof -
  let ?t = "budget_tuple_of x b"
  let ?P = "\<lambda>r. bt_id r = bg_id b"
  have tid: "bt_id ?t = bg_id b" by (simp add: budget_tuple_of_def)
  have db': "db' = db\<lparr>t_budgets := (case List.find ?P (t_budgets db) of None \<Rightarrow> t_budgets db @ [?t]
        | Some _ \<Rightarrow> upd_where ?P (\<lambda>_. ?t) (t_budgets db))\<rparr>"
    using assms(3) by (auto simp: sq_upsert_budget_def executed_Inr upsert_budget_row_def find_exists [symmetric] find_None_iff tid
        split: option.splits if_splits sum.splits dest!: find_in_set)
  have val: "budget_of x ?t = b" using assms(1) by (simp add: budget_of_def budget_tuple_of_def sql_codec_def sum_value_def)
  have d: "distinct (map bt_id (t_budgets db))" using assms(2) by (simp add: sql_ok_def)
  have keys: "map bt_id (upd_where ?P (\<lambda>_. ?t) (t_budgets db)) = map bt_id (t_budgets db)"
    by (rule upd_where_keys) (simp add: tid)
  have "\<not> isl (sx_dec x (bt_thresholds ?t))" using assms(1) by (simp add: budget_tuple_of_def sql_codec_def)
  then have "sql_ok x db'"
    using assms(1,2) keys tid unfolding db' sql_ok_def
    by (auto simp: in_upd_where find_None_iff image_iff split: option.splits if_splits)
  moreover have "hm_insert (bg_id b) b (hm_by bt_id (budget_of x) (t_budgets db)) = hm_by bt_id (budget_of x) (t_budgets db')"
    using val d tid unfolding db'
    by (auto split: option.split intro!: hm_by_append hm_by_update simp: find_None_iff)
  ultimately show ?thesis by (simp add: mem_upsert_budget_def sq_abs_def db')
qed

lemma sq_upsert_pricing_sim:
  assumes "sql_ok x db" "sq_upsert_pricing x db r = (db', Inr v)" "pr_cached_input_per_1k r \<noteq> Some NaN"
  shows "sql_ok x db' \<and> mem_upsert_pricing (sq_abs x db) r = (sq_abs x db', Inr v)"
proof -
  let ?t = "\<lparr>pt_row = r, pt_effective_from = 0\<rparr>"
  let ?P = "\<lambda>t. price_key t = (pr_provider r, pr_model r)"
  have tk: "price_key ?t = (pr_provider r, pr_model r)" by (simp add: price_key_def)
  have pk: "(pricing_key t = pricing_key ?t) = ?P t" if "t \<in> set (t_pricing db)" for t
    using assms(1) that by (auto simp: sql_ok_def pricing_key_def price_key_def)
  have upd: "upd_where (\<lambda>t. pricing_key t = pricing_key ?t) (\<lambda>_. ?t) (t_pricing db) = upd_where ?P (\<lambda>_. ?t) (t_pricing db)"
    unfolding upd_where_def using pk by (intro map_cong) auto
  have "r\<lparr>pr_cached_input_per_1k := sq_opt_real (pr_cached_input_per_1k r)\<rparr> = r"
    using assms(3) by (simp add: sq_opt_real_def)
  with assms(2) pk upd have db': "db' = db\<lparr>t_pricing := (case List.find ?P (t_pricing db) of None \<Rightarrow> t_pricing db @ [?t]
        | Some _ \<Rightarrow> upd_where ?P (\<lambda>_. ?t) (t_pricing db))\<rparr>"
    by (auto simp: sq_upsert_pricing_def executed_Inr upsert_pricing_row_def find_None_iff
        split: option.splits if_splits sum.splits dest!: find_in_set)
  have d: "distinct (map price_key (t_pricing db))" by (rule sql_ok_prices [OF assms(1)])
  have keys: "map pricing_key (upd_where ?P (\<lambda>_. ?t) (t_pricing db)) = map pricing_key (t_pricing db)"
    unfolding upd [symmetric] by (rule upd_where_keys) simp
  have "\<forall>t \<in> set (t_pricing db). pricing_key t \<noteq> pricing_key ?t" if "List.find ?P (t_pricing db) = None"
    using that pk by (auto simp: find_None_iff)
  then have "sql_ok x db'"
    using assms(1) keys unfolding db' sql_ok_def
    by (auto simp: in_upd_where find_None_iff image_iff split: option.splits if_splits)
  moreover have "hm_insert (pr_provider r, pr_model r) r (hm_by price_key pt_row (t_pricing db)) = hm_by price_key pt_row (t_pricing db')"
    using d tk unfolding db'
    by (auto split: option.split intro!: hm_by_append hm_by_update simp: find_None_iff)
  ultimately show ?thesis by (simp add: mem_upsert_pricing_def sq_abs_def db')
qed

lemma sq_delete_pricing_sim:
  assumes "sql_ok x db" "sq_delete_pricing x db p m = (db', Inr v)"
  shows "sql_ok x db' \<and> mem_delete_pricing (sq_abs x db) p m = (sq_abs x db', Inr v)"
proof -
  have "(\<lambda>t. \<not> (pr_provider (pt_row t) = p \<and> pr_model (pt_row t) = m)) = (\<lambda>t. price_key t \<noteq> (p, m))"
    by (auto simp: price_key_def)
  then have db': "db' = db\<lparr>t_pricing := filter (\<lambda>t. price_key t \<noteq> (p, m)) (t_pricing db)\<rparr>"
    using assms(2) by (auto simp: sq_delete_pricing_def executed_Inr delete_pricing_rows_def Let_def)
  have "sql_ok x db'" using assms(1) by (auto simp: db' sql_ok_def distinct_map inj_on_def)
  then show ?thesis by (simp add: mem_delete_pricing_def sq_abs_def db')
qed

lemma sq_create_admin_sim:
  assumes "sql_ok x db" "sq_create_admin_user x db now u = (db', Inr v)"
  shows "sql_ok x db' \<and> mem_create_admin_user (sq_abs x db) now u = (sq_abs x db', Inr v)"
proof -
  let ?u = "\<lparr>au_id = nu_id u, au_username = nu_username u, au_password_hash = nu_password_hash u,
      au_created_at = now, au_last_login_at = None\<rparr>"
  have fresh: "\<forall>r \<in> set (t_admins db). au_id r \<noteq> nu_id u \<and> au_username r \<noteq> nu_username u" and v: "v = ?u"
    and db': "db' = db\<lparr>t_admins := t_admins db @ [?u]\<rparr>"
    using assms(2) by (auto simp: sq_create_admin_user_def execute_def insert_admin_def Let_def
        split: option.splits if_splits)
  have "sql_ok x db'" using assms(1) fresh unfolding db' sql_ok_def by (auto simp: image_iff)
  moreover have "hm_insert (nu_id u) ?u (hm_by au_id id (t_admins db)) = hm_by au_id id (t_admins db @ [?u])"
    using fresh by (intro hm_by_append) auto
  ultimately show ?thesis using fresh by (simp add: mem_create_admin_user_def sq_abs_def db' v Let_def)
qed

lemma sq_touch_admin_sim:
  assumes "sql_ok x db" "sq_touch_admin_last_login x db i t = (db', Inr v)"
  shows "sql_ok x db' \<and> mem_touch_admin_last_login (sq_abs x db) i t = (sq_abs x db', Inr v)"
proof -
  let ?f = "\<lambda>r. r\<lparr>au_last_login_at := Some t\<rparr>" and ?P = "\<lambda>r. au_id r = i"
  have db': "db' = db\<lparr>t_admins := upd_where ?P ?f (t_admins db)\<rparr>"
    using assms(2) by (auto simp: sq_touch_admin_last_login_def executed_Inr update_admins_def)
  have keys: "map au_id (upd_where ?P ?f (t_admins db)) = map au_id (t_admins db)"
    "map au_username (upd_where ?P ?f (t_admins db)) = map au_username (t_admins db)"
    by (rule upd_where_keys, simp)+
  have ok: "sql_ok x db'" using assms(1) keys by (simp add: db' sql_ok_def)
  show ?thesis
  proof (cases "List.find ?P (t_admins db)")
    case None
    then have "upd_where ?P ?f (t_admins db) = t_admins db" by (intro upd_where_none) (auto simp: find_None_iff)
    with None ok show ?thesis by (simp add: mem_touch_admin_last_login_def sq_abs_def db')
  next
    case (Some r)
    have "hm_insert i (?f r) (hm_by au_id id (t_admins db)) = hm_by au_id id (upd_where ?P ?f (t_admins db))"
      using assms(1) Some by (intro hm_by_update) (auto simp: sql_ok_def)
    with Some ok show ?thesis by (simp add: mem_touch_admin_last_login_def sq_abs_def db')
  qed
qed

section \<open>Simulation\<close>

text \<open>A price that is not a number would be stored as \<open>NULL\<close>; the admin API refuses it.\<close>

fun call_ok :: "meta_call \<Rightarrow> bool" where
  "call_ok (UpsertPricing r) \<longleftrightarrow> pr_cached_input_per_1k r \<noteq> Some NaN"
| "call_ok _ \<longleftrightarrow> True"

lemma reply_Inr [simp]: "reply f r = Inr v \<longleftrightarrow> (\<exists>y. r = Inr y \<and> v = f y)" "reply f (Inr y) = Inr (f y)"
  by (cases r; auto simp: reply_def)+

lemma map_prod_reply_Inr:
  "map_prod id (reply f) p = (st, Inr v) \<longleftrightarrow> (\<exists>y. p = (st, Inr y) \<and> v = f y)"
  by (cases p) auto

lemma same_reply_refl [simp, intro]: "same_reply r r"
  by (simp add: same_reply_def)

lemmas call_simps = sq_metadata_ops_def mem_metadata_ops_def map_prod_reply_Inr

lemma sq_call_sim:
  assumes "sql_codec x" "sql_ok x db" "call_ok c" "run_call (sq_metadata_ops x) db c = (db', Inr r)"
  shows "sql_ok x db' \<and> (\<exists>r'. run_call mem_metadata_ops (sq_abs x db) c = (sq_abs x db', Inr r') \<and> same_reply r r')"
proof (cases c)
  case (CreateProject now p)
  with assms(3,4) show ?thesis by (auto simp: call_simps dest!: sq_create_project_sim [OF assms(2)])
next
  case (CreateKey now k)
  with assms(3,4) show ?thesis by (auto simp: call_simps dest!: sq_create_key_sim [OF assms(1,2)])
next
  case (RevokeKey now i)
  with assms(3,4) show ?thesis by (auto simp: call_simps dest!: sq_revoke_key_sim [OF assms(2)])
next
  case (TouchKey i t)
  with assms(3,4) show ?thesis by (auto simp: call_simps dest!: sq_touch_key_sim [OF assms(2)])
next
  case (UpsertSeededKey now k)
  with assms(3,4) show ?thesis by (auto simp: call_simps dest!: sq_upsert_seeded_sim [OF assms(1,2)])
next
  case (PruneSeeded p keep)
  with assms(3,4) show ?thesis by (auto simp: call_simps dest!: sq_prune_sim [OF assms(2)])
next
  case (UpsertRoutes now p cfg v)
  with assms(3,4) show ?thesis by (auto simp: call_simps dest!: sq_upsert_routes_sim [OF assms(1,2)])
next
  case (UpsertBudget b)
  with assms(3,4) show ?thesis by (auto simp: call_simps dest!: sq_upsert_budget_sim [OF assms(1,2)])
next
  case (UpsertPricing p)
  with assms(3,4) show ?thesis by (auto simp: call_simps dest!: sq_upsert_pricing_sim [OF assms(2)])
next
  case (DeletePricing p m)
  with assms(3,4) show ?thesis by (auto simp: call_simps dest!: sq_delete_pricing_sim [OF assms(2)])
next
  case (CreateAdmin now u)
  with assms(3,4) show ?thesis by (auto simp: call_simps dest!: sq_create_admin_sim [OF assms(2)])
next
  case (TouchAdmin i t)
  with assms(3,4) show ?thesis by (auto simp: call_simps dest!: sq_touch_admin_sim [OF assms(2)])
next
  case (GetProject i)
  with assms(2,4) show ?thesis by (auto simp: call_simps same_reply_def dest!: sq_reads(1) [rotated])
next
  case ListProjects
  with assms(2,4) show ?thesis by (auto simp: call_simps same_reply_def dest!: sq_reads(2) [rotated])
next
  case (ListKeys p)
  with assms(2,4) show ?thesis by (auto simp: call_simps same_reply_def dest!: sq_reads(3) [rotated])
next
  case (GetKey i)
  with assms(2,4) show ?thesis by (auto simp: call_simps same_reply_def dest!: sq_reads(4) [rotated])
next
  case (FindKeyByHash h)
  with assms(2,4) show ?thesis by (auto simp: call_simps same_reply_def dest!: sq_reads(5) [rotated])
next
  case (LoadRoutes p)
  with assms(2,4) show ?thesis by (auto simp: call_simps same_reply_def dest!: sq_reads(6) [rotated])
next
  case ListBudgets
  with assms(2,4) show ?thesis by (auto simp: call_simps same_reply_def dest!: sq_reads(7) [rotated])
next
  case (GetBudget i)
  with assms(2,4) show ?thesis by (auto simp: call_simps same_reply_def dest!: sq_reads(8) [rotated])
next
  case ListPricing
  with assms(2,4) show ?thesis by (auto simp: call_simps same_reply_def dest!: sq_reads(9) [rotated])
next
  case (FindAdmin n)
  with assms(2,4) show ?thesis by (auto simp: call_simps same_reply_def dest!: sq_reads(10) [rotated])
next
  case ListAdmins
  with assms(2,4) show ?thesis by (auto simp: call_simps same_reply_def dest!: sq_reads(11) [rotated])
qed

text \<open>C11: The SQLite metadata store refines the in-memory store. For any sequence of calls that SQLite answers
  without an error, starting from tables that satisfy their constraints, the in-memory store started on
  the abstraction of the tables answers every call with the same reply (up to the order of listings) and ends in the
  abstraction of SQLite's final tables, which satisfy the constraints again. The hypothesis on serde is that parsing gives
  back what was printed.\<close>

theorem sqlite_refines_memory:
  assumes "sql_codec x" "sql_ok x db" "\<forall>c \<in> set cs. call_ok c"
    and "run_calls (sq_metadata_ops x) db cs = (db', map Inr rs)"
  shows "sql_ok x db' \<and> (\<exists>rs'. run_calls mem_metadata_ops (sq_abs x db) cs = (sq_abs x db', map Inr rs') \<and> list_all2 same_reply rs rs')"
  using assms(2-4)
proof (induction cs arbitrary: db rs)
  case (Cons c cs)
  obtain db1 r1 where c: "run_call (sq_metadata_ops x) db c = (db1, r1)" by fastforce
  obtain db2 rs2 where cs: "run_calls (sq_metadata_ops x) db1 cs = (db2, rs2)" by fastforce
  from Cons.prems(3) c cs obtain r rs1 where rs: "rs = r # rs1" "r1 = Inr r" "rs2 = map Inr rs1" "db2 = db'"
    by (auto simp: Cons_eq_map_conv)
  from sq_call_sim [OF assms(1) Cons.prems(1) _ c [unfolded rs(2)]] Cons.prems(2)
  obtain r' where r': "sql_ok x db1" "run_call mem_metadata_ops (sq_abs x db) c = (sq_abs x db1, Inr r')" "same_reply r r'" by auto
  from Cons.IH [OF r'(1) _ cs [unfolded rs(3,4)]] Cons.prems(2)
  obtain rs' where "sql_ok x db'" "run_calls mem_metadata_ops (sq_abs x db1) cs = (sq_abs x db', map Inr rs')"
      "list_all2 same_reply rs1 rs'" by auto
  with r' rs(1) show ?case by (intro conjI exI [of _ "r' # rs'"]) auto
qed simp

text \<open>A codec that satisfies the hypothesis: every value is printed as its number in an enumeration.\<close>

instance f64 :: countable by countable_datatype
instance jnumber :: countable by countable_datatype
instance json :: countable by countable_datatype

definition demo_ext :: sql_ext where
  "demo_ext = \<lparr>sx_msg = (\<lambda>e. ''db''),
     sx_enc_scopes = (\<lambda>s. replicate (to_nat s) CHR ''1''), sx_dec_scopes = (\<lambda>t. Inr (from_nat (length t))),
     sx_enc = (\<lambda>j. replicate (to_nat j) CHR ''1''), sx_dec = (\<lambda>t. Inr (from_nat (length t)))\<rparr>"

lemma demo_ext_codec: "sql_codec demo_ext"
  by (simp add: sql_codec_def demo_ext_def)

definition demo_calls :: "meta_call list" where
  "demo_calls = [CreateProject 1 \<lparr>np_id = ''p'', np_name = ''p''\<rparr>,
     CreateKey 2 \<lparr>nk_id = ''k1'', nk_project_id = ''p'', nk_name = ''n'', nk_prefix = ''sk-gw-live-'', nk_hash = ''h1'',
       nk_last4 = ''e-x'', nk_scopes = [''a''], nk_expires_at = None, nk_origin = ''admin''\<rparr>,
     RevokeKey 3 ''k1'', FindKeyByHash ''h1'']"

theorem sqlite_refines_memory_witness:
  "\<exists>db' rs rs'. run_calls (sq_metadata_ops demo_ext) sql_db_new demo_calls = (db', map Inr rs)
     \<and> run_calls mem_metadata_ops (sq_abs demo_ext sql_db_new) demo_calls = (sq_abs demo_ext db', map Inr rs')
     \<and> list_all2 same_reply rs rs' \<and> length rs = 4"
proof -
  obtain db' rs where run: "run_calls (sq_metadata_ops demo_ext) sql_db_new demo_calls = (db', map Inr rs)" "length rs = 4"
  proof
    let ?row = "\<lparr>kr_id = ''k1'', kr_project_id = ''p'', kr_name = ''n'', kr_prefix = ''sk-gw-live-'', kr_hash = ''h1'',
        kr_last4 = ''e-x'', kr_scopes = [''a''], kr_status = ''active'', kr_expires_at = None, kr_last_used_at = None,
        kr_created_at = 2, kr_revoked_at = None, kr_origin = ''admin''\<rparr>"
    let ?rs = "[RProject \<lparr>pj_id = ''p'', pj_name = ''p'', pj_created_at = 1\<rparr>, RKey ?row, RUnit,
        RKeyOpt (Some (?row\<lparr>kr_status := ''revoked'', kr_revoked_at := Some 3\<rparr>))]"
    show "run_calls (sq_metadata_ops demo_ext) sql_db_new demo_calls
        = (fst (run_calls (sq_metadata_ops demo_ext) sql_db_new demo_calls), map Inr ?rs)"
      by (simp add: demo_calls_def sq_metadata_ops_def sq_create_project_def sq_create_key_def sq_revoke_key_def
          sq_find_key_by_hash_def executed_def execute_def fetched_def fetch_def insert_project_def insert_key_def update_keys_def
          project_exists_def select_key_def new_key_tuple_def upd_where_def count_where_def transpose_row_def
          row_to_gateway_key_def sql_db_new_def demo_ext_def reply_def Let_def)
    show "length ?rs = 4" by simp
  qed
  have ok: "sql_ok demo_ext sql_db_new" by (simp add: sql_ok_def sql_db_new_def)
  have "\<forall>c \<in> set demo_calls. call_ok c" by (simp add: demo_calls_def)
  from sqlite_refines_memory [OF demo_ext_codec ok this run(1)] run show ?thesis by blast
qed

section \<open>The key-table contract\<close>

definition sq_key :: "sql_ext \<Rightarrow> sql_db \<Rightarrow> string \<Rightarrow> gateway_key_row option" where
  "sq_key x db = mem_key (sq_abs x db)"

text \<open>A database that answers, with tables that satisfy their constraints.\<close>

definition sq_working :: "sql_ext \<Rightarrow> sql_db \<Rightarrow> bool" where
  "sq_working x db \<longleftrightarrow> sql_codec x \<and> sql_ok x db \<and> (\<forall>i. db_fault db i = None)"

lemma sq_abs_keys_ok: "sql_ok x db \<Longrightarrow> mem_keys_ok (sq_abs x db)"
  by (auto simp: mem_keys_ok_def sq_abs_def hm_by_wf sql_ok_def dest!: find_in_set)

lemma sq_fault_kept:
  "sq_revoke_key x db now i = (db', r1) \<Longrightarrow> db_fault db' = db_fault db"
  "sq_upsert_seeded_key x db now k = (db', r2) \<Longrightarrow> db_fault db' = db_fault db"
  "sq_prune_seeded_keys_not_in x db p keep = (db', r3) \<Longrightarrow> db_fault db' = db_fault db"
  by (auto simp: sq_revoke_key_def sq_upsert_seeded_key_def sq_prune_seeded_keys_not_in_def executed_def execute_def
      update_keys_def upsert_key_def delete_keys_def split: option.splits sum.splits if_splits prod.splits)

lemma upserted_key_found:
  assumes "sql_codec x" "sql_ok x db" "upsert_key (new_key_tuple x now KEY_ORIGIN_CONFIG k) db = Inr (db', n)"
  shows "\<exists>r. List.find (\<lambda>r. kt_id r = nk_id k) (t_keys db') = Some r \<and> \<not> isl (sx_dec_scopes x (kt_scopes r))"
proof -
  let ?P = "\<lambda>r. kt_id r = nk_id k" and ?t = "new_key_tuple x now KEY_ORIGIN_CONFIG k"
  note sel = new_key_tuple_sel [OF assms(1), of now KEY_ORIGIN_CONFIG k]
  have upd: "conflict_update ?t r \<in> set (upd_where ?P (conflict_update ?t) (t_keys db))" "?P (conflict_update ?t r)"
    if "r \<in> set (t_keys db)" "?P r" for r
    using that by (auto simp: upd_where_def conflict_update_def intro: image_eqI [where x = r])
  have "\<exists>r \<in> set (t_keys db'). ?P r"
  proof (cases "\<exists>r \<in> set (t_keys db). ?P r")
    case True
    with assms(3) sel have "t_keys db' = upd_where ?P (conflict_update ?t) (t_keys db)" by (auto simp: upsert_key_def split: if_splits)
    with True upd show ?thesis by metis
  next
    case False
    with assms(3) sel show ?thesis by (auto simp: upsert_key_def split: if_splits)
  qed
  then obtain r where r: "List.find ?P (t_keys db') = Some r" unfolding find_exists by blast
  then have "r \<in> set (t_keys db')" by (simp add: find_in_set)
  then have "\<not> isl (sx_dec_scopes x (kt_scopes r))"
    using assms(2,3) sel by (auto simp: upsert_key_def in_upd_where conflict_update_def sql_ok_def split: if_splits)
  with r show ?thesis by blast
qed

lemma sq_failures_change_nothing:
  assumes "sq_working x db"
  shows "sq_revoke_key x db now i = (db', Inl e) \<Longrightarrow> db' = db"
    and "sq_upsert_seeded_key x db now k = (db', Inl e) \<Longrightarrow> db' = db"
    and "sq_prune_seeded_keys_not_in x db p keep = (db', Inl e) \<Longrightarrow> db' = db"
proof -
  show "db' = db" if "sq_revoke_key x db now i = (db', Inl e)"
    using that by (auto simp: sq_revoke_key_def executed_def execute_def update_keys_def upd_where_none
        split: option.splits sum.splits if_splits prod.splits)
  show "db' = db" if "sq_prune_seeded_keys_not_in x db p keep = (db', Inl e)"
    using that by (auto simp: sq_prune_seeded_keys_not_in_def executed_def execute_def delete_keys_def
        split: option.splits sum.splits if_splits prod.splits)
  show "db' = db" if u: "sq_upsert_seeded_key x db now k = (db', Inl e)"
  proof (rule ccontr)
    let ?P = "\<lambda>r. kt_id r = nk_id k" and ?t = "new_key_tuple x now KEY_ORIGIN_CONFIG k"
    assume "db' \<noteq> db"
    have w: "sql_codec x" "sql_ok x db" "\<And>i. db_fault db i = None" using assms by (simp_all add: sq_working_def)
    from u \<open>db' \<noteq> db\<close> w(3) have db': "upsert_key ?t db = Inr (db', 1)"
      and row: "case List.find ?P (t_keys db') of None \<Rightarrow> True | Some r \<Rightarrow> row_to_gateway_key x r = Inl e"
      by (auto simp: sq_upsert_seeded_key_def fetch_def select_key_def execute_def upsert_key_def fetched_def
          split: option.splits sum.splits if_splits prod.splits)
    from upserted_key_found [OF w(1,2) db'] row show False by (auto simp: row_to_gateway_key_ok)
  qed
qed

lemma sq_working_step:
  assumes "sq_working x db"
  shows "sq_revoke_key x db now i = (db', Inr v) \<Longrightarrow> sq_working x db' \<and> mem_revoke_key (sq_abs x db) now i = (sq_abs x db', Inr v)"
    and "sq_upsert_seeded_key x db now k = (db', Inr row) \<Longrightarrow>
      sq_working x db' \<and> mem_upsert_seeded_key (sq_abs x db) now k = (sq_abs x db', Inr row)"
    and "sq_prune_seeded_keys_not_in x db p keep = (db', Inr n) \<Longrightarrow>
      sq_working x db' \<and> mem_prune_seeded_keys_not_in (sq_abs x db) p keep = (sq_abs x db', Inr n)"
  using assms sq_fault_kept sq_revoke_key_sim sq_upsert_seeded_sim sq_prune_sim unfolding sq_working_def by metis+

interpretation sq_keys: key_store_contract "sq_metadata_ops x" "sq_key x" "sq_working x" for x
proof unfold_locales
  fix db h row
  assume "sq_working x db" "find_key_by_hash (sq_metadata_ops x) db h = Inr (Some row)"
  then have "find_key_by_hash mem_metadata_ops (sq_abs x db) h = Inr (Some row)" "mem_keys_ok (sq_abs x db)"
    by (auto simp: sq_metadata_ops_def mem_metadata_ops_def sq_working_def sq_abs_keys_ok dest: sq_reads(5) [rotated])
  from mem_find_result(1) [OF this(2,1)] show "kr_hash row = h \<and> sq_key x db (kr_id row) = Some row"
    by (simp add: sq_key_def)
next
  fix db h i row
  assume "sq_working x db" "find_key_by_hash (sq_metadata_ops x) db h = Inr None" and k: "sq_key x db i = Some row"
  then have "find_key_by_hash mem_metadata_ops (sq_abs x db) h = Inr None" "mem_keys_ok (sq_abs x db)"
    by (auto simp: sq_metadata_ops_def mem_metadata_ops_def sq_working_def sq_abs_keys_ok dest: sq_reads(5) [rotated])
  from mem_find_result(2) [OF this(2,1)] k show "kr_hash row \<noteq> h" by (simp add: sq_key_def)
next
  fix db now i db' and rr :: "unit sresult"
  assume w: "sq_working x db" and u: "revoke_key (sq_metadata_ops x) db now i = (db', rr)"
  then have u: "sq_revoke_key x db now i = (db', rr)" by (simp add: sq_metadata_ops_def)
  show "sq_working x db' \<and> (case rr of Inl e \<Rightarrow> sq_key x db' = sq_key x db
      | Inr _ \<Rightarrow> (\<exists>row. sq_key x db i = Some row \<and>
          sq_key x db' = (sq_key x db)(i \<mapsto> row\<lparr>kr_status := ''revoked'', kr_revoked_at := Some now\<rparr>)))"
  proof (cases rr)
    case (Inl e)
    with u sq_failures_change_nothing(1) [OF w] have "db' = db" by blast
    with w Inl show ?thesis by simp
  next
    case (Inr v)
    have ok: "sql_ok x db" using w by (simp add: sq_working_def)
    from u Inr sq_working_step(1) [OF w] have "sq_working x db'" and m: "mem_revoke_key (sq_abs x db) now i = (sq_abs x db', Inr v)" by blast+
    with mem_revoke_result [OF sq_abs_keys_ok [OF ok] m] Inr show ?thesis by (simp add: sq_key_def)
  qed
next
  fix db now k db' and ru :: "gateway_key_row sresult"
  assume w: "sq_working x db" and u: "upsert_seeded_key (sq_metadata_ops x) db now k = (db', ru)"
  then have u: "sq_upsert_seeded_key x db now k = (db', ru)" by (simp add: sq_metadata_ops_def)
  show "sq_working x db' \<and> (case ru of Inl e \<Rightarrow> sq_key x db' = sq_key x db
      | Inr row \<Rightarrow> sq_key x db' = (sq_key x db)(nk_id k \<mapsto> row)
            \<and> kr_id row = nk_id k \<and> kr_hash row = nk_hash k \<and> kr_project_id row = nk_project_id k
            \<and> kr_status row = ''active'' \<and> kr_expires_at row = nk_expires_at k
            \<and> kr_origin row = KEY_ORIGIN_CONFIG
            \<and> (\<forall>old. sq_key x db (nk_id k) = Some old \<longrightarrow> kr_origin old = KEY_ORIGIN_CONFIG))"
  proof (cases ru)
    case (Inl e)
    with u sq_failures_change_nothing(2) [OF w] have "db' = db" by blast
    with w Inl show ?thesis by simp
  next
    case (Inr v)
    have ok: "sql_ok x db" using w by (simp add: sq_working_def)
    from u Inr sq_working_step(2) [OF w] have "sq_working x db'" and m: "mem_upsert_seeded_key (sq_abs x db) now k = (sq_abs x db', Inr v)" by blast+
    with mem_upsert_seeded_result [OF sq_abs_keys_ok [OF ok] m] Inr show ?thesis by (simp add: sq_key_def)
  qed
next
  fix db p keep db' and rp :: "nat sresult"
  assume w: "sq_working x db" and u: "prune_seeded_keys_not_in (sq_metadata_ops x) db p keep = (db', rp)"
  then have u: "sq_prune_seeded_keys_not_in x db p keep = (db', rp)" by (simp add: sq_metadata_ops_def)
  show "sq_working x db' \<and> (case rp of Inl e \<Rightarrow> sq_key x db' = sq_key x db
      | Inr n \<Rightarrow> sq_key x db' = (\<lambda>i. case sq_key x db i of None \<Rightarrow> None
            | Some row \<Rightarrow> if kr_project_id row = p \<and> kr_origin row = KEY_ORIGIN_CONFIG \<and> i \<notin> set keep
                          then None else Some row))"
  proof (cases rp)
    case (Inl e)
    with u sq_failures_change_nothing(3) [OF w] have "db' = db" by blast
    with w Inl show ?thesis by simp
  next
    case (Inr v)
    have ok: "sql_ok x db" using w by (simp add: sq_working_def)
    from u Inr sq_working_step(3) [OF w] have "sq_working x db'" and m: "mem_prune_seeded_keys_not_in (sq_abs x db) p keep = (sq_abs x db', Inr v)" by blast+
    with mem_prune_result [OF sq_abs_keys_ok [OF ok] m] Inr show ?thesis by (simp add: sq_key_def)
  qed
qed

end
