(* ===== verification/Postgres_Metadata.thy ===== *)
theory Postgres_Metadata
  imports Sql_Refinement
begin

text \<open>
  The PostgreSQL metadata store (\<open>gateway-storage/src/postgres/metadata.rs\<close>). It runs the same statements as the
  SQLite store on the same tables, without the write lock and with columns that hold a NaN as it is.
\<close>

section \<open>Projects and keys\<close>

definition pg_create_project :: "sql_ext \<Rightarrow> sql_db \<Rightarrow> int \<Rightarrow> new_project \<Rightarrow> sql_db \<times> project sresult" where
  "pg_create_project x db created_at p =
     (let project = \<lparr>pj_id = np_id p, pj_name = np_name p, pj_created_at = created_at\<rparr>
      in executed x (execute db 0 (insert_project project)) (\<lambda>_. Inr project))"

definition pg_get_project :: "sql_ext \<Rightarrow> sql_db \<Rightarrow> string \<Rightarrow> project option sresult" where
  "pg_get_project x db ident = fetched x (fetch db 0 (\<lambda>db. List.find (\<lambda>r. pj_id r = ident) (t_projects db))) Inr"

definition pg_list_projects :: "sql_ext \<Rightarrow> sql_db \<Rightarrow> project list sresult" where
  "pg_list_projects x db = fetched x (fetch db 0 (\<lambda>db. sort_key pj_created_at (t_projects db))) Inr"

definition pg_create_key :: "sql_ext \<Rightarrow> sql_db \<Rightarrow> int \<Rightarrow> new_gateway_key \<Rightarrow> sql_db \<times> gateway_key_row sresult" where
  "pg_create_key x db created_at k =
     executed x (execute db 0 (insert_key (new_key_tuple x created_at (nk_origin k) k)))
       (\<lambda>_. Inr \<lparr>kr_id = nk_id k, kr_project_id = nk_project_id k, kr_name = nk_name k, kr_prefix = nk_prefix k,
          kr_hash = nk_hash k, kr_last4 = nk_last4 k, kr_scopes = nk_scopes k, kr_status = ''active'',
          kr_expires_at = nk_expires_at k, kr_last_used_at = None, kr_created_at = created_at,
          kr_revoked_at = None, kr_origin = nk_origin k\<rparr>)"

definition pg_list_keys :: "sql_ext \<Rightarrow> sql_db \<Rightarrow> string \<Rightarrow> gateway_key_row list sresult" where
  "pg_list_keys x db project_id =
     fetched x (fetch db 0 (\<lambda>db. sort_key (\<lambda>r. - kt_created_at r) (select_keys (\<lambda>r. kt_project_id r = project_id) db)))
       (\<lambda>rows. collect_results (map (row_to_gateway_key x) rows))"

definition pg_get_key :: "sql_ext \<Rightarrow> sql_db \<Rightarrow> string \<Rightarrow> gateway_key_row option sresult" where
  "pg_get_key x db ident =
     fetched x (fetch db 0 (select_key (\<lambda>r. kt_id r = ident))) (transpose_row (row_to_gateway_key x))"

definition pg_find_key_by_hash :: "sql_ext \<Rightarrow> sql_db \<Rightarrow> bytes \<Rightarrow> gateway_key_row option sresult" where
  "pg_find_key_by_hash x db h =
     fetched x (fetch db 0 (select_key (\<lambda>r. kt_hash r = h))) (transpose_row (row_to_gateway_key x))"

definition pg_revoke_key :: "sql_ext \<Rightarrow> sql_db \<Rightarrow> int \<Rightarrow> string \<Rightarrow> sql_db \<times> unit sresult" where
  "pg_revoke_key x db ts ident =
     executed x (execute db 0 (update_keys (\<lambda>r. kt_id r = ident) (\<lambda>r. r\<lparr>kt_status := ''revoked'', kt_revoked_at := Some ts\<rparr>)))
       (\<lambda>n. if n = 0 then Inl SNotFound else Inr ())"

definition pg_touch_key_last_used :: "sql_ext \<Rightarrow> sql_db \<Rightarrow> string \<Rightarrow> timestamp \<Rightarrow> sql_db \<times> unit sresult" where
  "pg_touch_key_last_used x db ident ts =
     executed x (execute db 0 (update_keys (\<lambda>r. kt_id r = ident) (\<lambda>r. r\<lparr>kt_last_used_at := Some ts\<rparr>))) (\<lambda>_. Inr ())"

text \<open>Without a lock, the check for an admin-managed key and the write are separate steps: other calls may run in between.\<close>

definition pg_upsert_check :: "sql_ext \<Rightarrow> sql_db \<Rightarrow> new_gateway_key \<Rightarrow> unit sresult" where
  "pg_upsert_check x db k =
     fetched x (fetch db 0 (select_key (\<lambda>r. kt_id r = nk_id k)))
       (\<lambda>existing. if (case existing of Some r \<Rightarrow> kt_origin r \<noteq> KEY_ORIGIN_CONFIG | None \<Rightarrow> False)
                  then Inl (seed_conflict (nk_id k)) else Inr ())"

definition pg_upsert_write :: "sql_ext \<Rightarrow> sql_db \<Rightarrow> int \<Rightarrow> new_gateway_key \<Rightarrow> sql_db \<times> gateway_key_row sresult" where
  "pg_upsert_write x db created_at k =
     (case execute db 1 (upsert_key (new_key_tuple x created_at KEY_ORIGIN_CONFIG k)) of
        (db1, Inl e) \<Rightarrow> (db1, Inl (db_error x e))
      | (db1, Inr _) \<Rightarrow>
          (db1, fetched x (fetch db1 2 (select_key (\<lambda>r. kt_id r = nk_id k)))
                  (\<lambda>row. case row of None \<Rightarrow> Inl (db_error x RowNotFound) | Some r \<Rightarrow> row_to_gateway_key x r)))"

definition pg_upsert_seeded_key :: "sql_ext \<Rightarrow> sql_db \<Rightarrow> int \<Rightarrow> new_gateway_key \<Rightarrow> sql_db \<times> gateway_key_row sresult" where
  "pg_upsert_seeded_key x db created_at k =
     (case pg_upsert_check x db k of Inl e \<Rightarrow> (db, Inl e) | Inr _ \<Rightarrow> pg_upsert_write x db created_at k)"

definition pg_prune_seeded_keys_not_in :: "sql_ext \<Rightarrow> sql_db \<Rightarrow> string \<Rightarrow> string list \<Rightarrow> sql_db \<times> nat sresult" where
  "pg_prune_seeded_keys_not_in x db project_id keep_ids =
     executed x (execute db 0 (delete_keys (\<lambda>r. kt_project_id r = project_id \<and> kt_origin r = KEY_ORIGIN_CONFIG
       \<and> (keep_ids \<noteq> [] \<longrightarrow> kt_id r \<notin> set keep_ids)))) Inr"

section \<open>Routes, budgets, prices, administrators\<close>

definition pg_upsert_routes :: "sql_ext \<Rightarrow> sql_db \<Rightarrow> int \<Rightarrow> string \<Rightarrow> routes_config \<Rightarrow> int \<Rightarrow> sql_db \<times> unit sresult" where
  "pg_upsert_routes x db updated_at project_id cfg version =
     executed x (execute db 0 (upsert_route \<lparr>rt_project_id = project_id, rt_config = sx_enc x cfg, rt_version = version,
       rt_updated_at = updated_at\<rparr>)) (\<lambda>_. Inr ())"

definition pg_load_routes :: "sql_ext \<Rightarrow> sql_db \<Rightarrow> string \<Rightarrow> (routes_config \<times> int) option sresult" where
  "pg_load_routes x db project_id =
     fetched x (fetch db 0 (\<lambda>db. List.find (\<lambda>r. rt_project_id r = project_id) (t_routes db)))
       (\<lambda>row. case row of
          None \<Rightarrow> Inr None
        | Some r \<Rightarrow> (case sx_dec x (rt_config r) of Inl m \<Rightarrow> Inl (SSerde m) | Inr raw \<Rightarrow> Inr (Some (raw, rt_version r))))"

definition pg_upsert_budget :: "sql_ext \<Rightarrow> sql_db \<Rightarrow> budget_row \<Rightarrow> sql_db \<times> unit sresult" where
  "pg_upsert_budget x db b = executed x (execute db 0 (upsert_budget_row (budget_tuple_of x b))) (\<lambda>_. Inr ())"

definition pg_list_budgets :: "sql_ext \<Rightarrow> sql_db \<Rightarrow> budget_row list sresult" where
  "pg_list_budgets x db = fetched x (fetch db 0 t_budgets) (\<lambda>rows. collect_results (map (row_to_budget x) rows))"

definition pg_get_budget :: "sql_ext \<Rightarrow> sql_db \<Rightarrow> string \<Rightarrow> budget_row option sresult" where
  "pg_get_budget x db ident =
     fetched x (fetch db 0 (\<lambda>db. List.find (\<lambda>r. bt_id r = ident) (t_budgets db))) (transpose_row (row_to_budget x))"

definition pg_upsert_pricing :: "sql_ext \<Rightarrow> sql_db \<Rightarrow> pricing_row \<Rightarrow> sql_db \<times> unit sresult" where
  "pg_upsert_pricing x db p =
     executed x (execute db 0 (upsert_pricing_row \<lparr>pt_row = p, pt_effective_from = 0\<rparr>)) (\<lambda>_. Inr ())"

definition pg_list_pricing :: "sql_ext \<Rightarrow> sql_db \<Rightarrow> pricing_row list sresult" where
  "pg_list_pricing x db = fetched x (fetch db 0 (\<lambda>db. map pt_row (t_pricing db))) Inr"

definition pg_delete_pricing :: "sql_ext \<Rightarrow> sql_db \<Rightarrow> string \<Rightarrow> string \<Rightarrow> sql_db \<times> unit sresult" where
  "pg_delete_pricing x db provider model = executed x (execute db 0 (delete_pricing_rows provider model)) (\<lambda>_. Inr ())"

definition pg_create_admin_user :: "sql_ext \<Rightarrow> sql_db \<Rightarrow> int \<Rightarrow> new_admin_user \<Rightarrow> sql_db \<times> admin_user sresult" where
  "pg_create_admin_user x db created_at u =
     (let user = \<lparr>au_id = nu_id u, au_username = nu_username u, au_password_hash = nu_password_hash u,
                  au_created_at = created_at, au_last_login_at = None\<rparr>
      in case execute db 0 (insert_admin user) of
           (db1, Inl (UniqueViolation c)) \<Rightarrow>
             (db1, Inl (SConflict (''admin user '' @ [CHR 0x27] @ nu_username u @ [CHR 0x27] @ '' already exists'')))
         | (db1, Inl e) \<Rightarrow> (db1, Inl (db_error x e))
         | (db1, Inr _) \<Rightarrow> (db1, Inr user))"

definition pg_find_admin_user :: "sql_ext \<Rightarrow> sql_db \<Rightarrow> string \<Rightarrow> admin_user option sresult" where
  "pg_find_admin_user x db username =
     fetched x (fetch db 0 (\<lambda>db. List.find (\<lambda>r. au_username r = username) (t_admins db))) Inr"

definition pg_list_admin_users :: "sql_ext \<Rightarrow> sql_db \<Rightarrow> admin_user list sresult" where
  "pg_list_admin_users x db = fetched x (fetch db 0 (\<lambda>db. sort_key au_created_at (t_admins db))) Inr"

definition pg_touch_admin_last_login :: "sql_ext \<Rightarrow> sql_db \<Rightarrow> string \<Rightarrow> timestamp \<Rightarrow> sql_db \<times> unit sresult" where
  "pg_touch_admin_last_login x db ident ts =
     executed x (execute db 0 (update_admins (\<lambda>r. au_id r = ident) (\<lambda>r. r\<lparr>au_last_login_at := Some ts\<rparr>))) (\<lambda>_. Inr ())"

definition pg_metadata_ops :: "sql_ext \<Rightarrow> sql_db metadata_ops" where
  "pg_metadata_ops x = \<lparr>create_project = pg_create_project x, get_project = pg_get_project x,
     list_projects = pg_list_projects x, create_key = pg_create_key x, list_keys = pg_list_keys x,
     get_key = pg_get_key x, find_key_by_hash = pg_find_key_by_hash x, revoke_key = pg_revoke_key x,
     touch_key_last_used = pg_touch_key_last_used x, upsert_seeded_key = pg_upsert_seeded_key x,
     prune_seeded_keys_not_in = pg_prune_seeded_keys_not_in x, upsert_routes = pg_upsert_routes x,
     load_routes = pg_load_routes x, upsert_budget = pg_upsert_budget x, list_budgets = pg_list_budgets x,
     get_budget = pg_get_budget x, upsert_pricing = pg_upsert_pricing x, list_pricing = pg_list_pricing x,
     delete_pricing = pg_delete_pricing x, create_admin_user = pg_create_admin_user x,
     find_admin_user = pg_find_admin_user x, list_admin_users = pg_list_admin_users x,
     touch_admin_last_login = pg_touch_admin_last_login x\<rparr>"

section \<open>Equivalence with the SQLite store\<close>

text \<open>No number that is not a number.\<close>

fun no_nan :: "meta_call \<Rightarrow> bool" where
  "no_nan (UpsertPricing r) \<longleftrightarrow> pr_input_per_1k r \<noteq> NaN \<and> pr_output_per_1k r \<noteq> NaN \<and> pr_cached_input_per_1k r \<noteq> Some NaN"
| "no_nan (UpsertBudget b) \<longleftrightarrow> bg_amount_usd b \<noteq> NaN"
| "no_nan _ \<longleftrightarrow> True"

lemma pg_upsert_seeded_eq: "pg_upsert_seeded_key x db now k = sq_upsert_seeded_key x db now k"
  by (auto simp: pg_upsert_seeded_key_def pg_upsert_check_def pg_upsert_write_def sq_upsert_seeded_key_def fetched_def
      split: sum.splits option.splits)

lemma pg_upsert_pricing_eq:
  assumes "no_nan (UpsertPricing r)"
  shows "pg_upsert_pricing x db r = sq_upsert_pricing x db r"
proof -
  have "r\<lparr>pr_cached_input_per_1k := sq_opt_real (pr_cached_input_per_1k r)\<rparr> = r" using assms by (simp add: sq_opt_real_def)
  with assms show ?thesis by (simp add: pg_upsert_pricing_def sq_upsert_pricing_def sq_real_def)
qed

lemmas pg_sq_defs = pg_metadata_ops_def sq_metadata_ops_def pg_create_project_def sq_create_project_def
  pg_get_project_def sq_get_project_def pg_list_projects_def sq_list_projects_def pg_create_key_def sq_create_key_def
  pg_list_keys_def sq_list_keys_def pg_get_key_def sq_get_key_def pg_find_key_by_hash_def sq_find_key_by_hash_def
  pg_revoke_key_def sq_revoke_key_def pg_touch_key_last_used_def sq_touch_key_last_used_def
  pg_prune_seeded_keys_not_in_def sq_prune_seeded_keys_not_in_def pg_upsert_routes_def sq_upsert_routes_def
  pg_load_routes_def sq_load_routes_def pg_list_budgets_def sq_list_budgets_def pg_get_budget_def sq_get_budget_def
  pg_list_pricing_def sq_list_pricing_def pg_delete_pricing_def sq_delete_pricing_def pg_create_admin_user_def
  sq_create_admin_user_def pg_find_admin_user_def sq_find_admin_user_def pg_list_admin_users_def
  sq_list_admin_users_def pg_touch_admin_last_login_def sq_touch_admin_last_login_def



end
