(* ===== verification/Sql_Correct.thy ===== *)
theory Sql_Correct
  imports Postgres_Metadata
begin

text \<open>
  What the SQL stores mean for the gateway: their tables keep their constraints whatever fails, authentication
  and revocation work on them as on the in-memory store, a key of a project without a row can
  neither be created nor seeded, and without the write lock the check of the seeding can be overtaken.
\<close>

section \<open>Constraints\<close>

lemma upsert_key_ok:
  assumes "sql_codec x" "sql_ok x db" "upsert_key (new_key_tuple x now org k) db = Inr (db', n)"
  shows "sql_ok x db'"
proof -
  note sel = new_key_tuple_sel [OF assms(1), of now org k]
  let ?P = "\<lambda>r. kt_id r = nk_id k" and ?f = "conflict_update (new_key_tuple x now org k)"
  have proj: "project_exists db (nk_project_id k)" using assms(3) sel by (auto simp: upsert_key_def split: if_splits)
  show ?thesis
  proof (cases "\<exists>r \<in> set (t_keys db). ?P r")
    case True
    then have db': "db' = db\<lparr>t_keys := upd_where ?P ?f (t_keys db)\<rparr>" using assms(3) sel by (auto simp: upsert_key_def split: if_splits)
    have "map kt_id (upd_where ?P ?f (t_keys db)) = map kt_id (t_keys db)"
      by (rule upd_where_keys) (simp add: conflict_update_def)
    with assms(2) sel proj show ?thesis unfolding db'
      by (auto simp: sql_ok_def in_upd_where conflict_update_def split: if_splits)
  next
    case False
    then have "db' = db\<lparr>t_keys := t_keys db @ [new_key_tuple x now org k]\<rparr>" using assms(3) sel by (auto simp: upsert_key_def split: if_splits)
    with append_key_sim(1) [OF assms(1,2) _ proj] False show ?thesis by auto
  qed
qed

lemma sq_upsert_seeded_ok:
  assumes "sql_codec x" "sql_ok x db" "sq_upsert_seeded_key x db now k = (db', r)"
  shows "sql_ok x db'"
  using assms upsert_key_ok [OF assms(1,2), of now KEY_ORIGIN_CONFIG k]
  by (auto simp: sq_upsert_seeded_key_def execute_def split: sum.splits option.splits if_splits prod.splits)

lemma executed_Inl: "executed x (execute db i stmt) k = (db', Inl e) \<Longrightarrow> db' = db \<or> (\<exists>n. stmt db = Inr (db', n) \<and> k n = Inl e)"
  by (auto simp: executed_def execute_def split: option.splits sum.splits)

lemma sq_writes_fail:
  "sq_create_project x db now p = (db', Inl e) \<Longrightarrow> db' = db"
  "sq_create_key x db now k = (db', Inl e) \<Longrightarrow> db' = db"
  "sq_revoke_key x db now i = (db', Inl e) \<Longrightarrow> db' = db"
  "sq_touch_key_last_used x db i t = (db', Inl e) \<Longrightarrow> db' = db"
  "sq_prune_seeded_keys_not_in x db i keep = (db', Inl e) \<Longrightarrow> db' = db"
  "sq_upsert_routes x db now i cfg v = (db', Inl e) \<Longrightarrow> db' = db"
  "sq_upsert_budget x db b = (db', Inl e) \<Longrightarrow> db' = db"
  "sq_upsert_pricing x db pr = (db', Inl e) \<Longrightarrow> db' = db"
  "sq_delete_pricing x db i m = (db', Inl e) \<Longrightarrow> db' = db"
  "sq_touch_admin_last_login x db i t = (db', Inl e) \<Longrightarrow> db' = db"
  by (auto simp: sq_create_project_def sq_create_key_def sq_revoke_key_def sq_touch_key_last_used_def
      sq_prune_seeded_keys_not_in_def sq_upsert_routes_def sq_upsert_budget_def sq_upsert_pricing_def sq_delete_pricing_def
      sq_touch_admin_last_login_def update_keys_def upd_where_none Let_def dest!: executed_Inl split: if_splits)

lemma sq_create_admin_fail: "sq_create_admin_user x db now u = (db', Inl e) \<Longrightarrow> db' = db"
  by (auto simp: sq_create_admin_user_def execute_def Let_def split: option.splits sum.splits sql_error.splits prod.splits)

text \<open>A price that is not a number is stored without the cached rate.\<close>

lemma sq_upsert_pricing_clean:
  "sq_upsert_pricing x db (p\<lparr>pr_cached_input_per_1k := sq_opt_real (pr_cached_input_per_1k p)\<rparr>) = sq_upsert_pricing x db p"
proof -
  have "sq_opt_real (sq_opt_real v) = sq_opt_real v" for v by (simp add: sq_opt_real_def)
  then show ?thesis by (cases p) (simp add: sq_upsert_pricing_def cong: sum.case_cong)
qed

lemma reply_Inl: "reply f r = Inl e \<longleftrightarrow> r = Inl e"
  by (cases r) (simp_all add: reply_def)

lemma map_prod_reply_Inl: "map_prod id (reply f) p = (st, Inl e) \<longleftrightarrow> p = (st, Inl e)"
  by (cases p) (simp add: reply_Inl)

lemma sq_call_fails:
  assumes "run_call (sq_metadata_ops x) db c = (db', Inl e)" "\<And>now k. c \<noteq> UpsertSeededKey now k"
  shows "db' = db"
  using assms by (cases c) (auto simp: sq_metadata_ops_def map_prod_reply_Inl dest: sq_writes_fail sq_create_admin_fail)

lemma sq_call_keeps_ok:
  assumes "sql_codec x" "sql_ok x db"
  shows "sql_ok x (fst (run_call (sq_metadata_ops x) db c))"
proof (cases "run_call (sq_metadata_ops x) db c")
  case (Pair db' r)
  show ?thesis
  proof (cases "\<exists>now k. c = UpsertSeededKey now k")
    case True
    then obtain now k where "c = UpsertSeededKey now k" by blast
    with Pair have "fst (sq_upsert_seeded_key x db now k) = db'" by (cases "sq_upsert_seeded_key x db now k") (simp add: sq_metadata_ops_def)
    with Pair sq_upsert_seeded_ok [OF assms, of now k] show ?thesis by (metis fst_conv prod.collapse)
  next
    case False
    show ?thesis
    proof (cases r)
      case (Inl e)
      with False Pair sq_call_fails [of x db c db' e] assms show ?thesis by auto
    next
      case (Inr v)
      define c' where "c' = (case c of UpsertPricing p \<Rightarrow>
          UpsertPricing (p\<lparr>pr_cached_input_per_1k := sq_opt_real (pr_cached_input_per_1k p)\<rparr>) | _ \<Rightarrow> c)"
      have "call_ok c'" by (auto simp: c'_def sq_opt_real_def split: meta_call.split)
      moreover have "run_call (sq_metadata_ops x) db c' = run_call (sq_metadata_ops x) db c"
        by (cases c) (simp_all add: c'_def sq_metadata_ops_def sq_upsert_pricing_clean)
      ultimately show ?thesis using sq_call_sim [OF assms, of c' db' v] Pair Inr by simp
    qed
  qed
qed

text \<open>C13: The SQLite tables keep their types: primary keys stay unique, foreign keys refer to existing projects, every
  JSON column parses, and prices stay pinned to \<open>effective_from = 0\<close>, through any sequence of calls of the
  metadata interface, whichever of their statements fail (\<open>faults\<close> gives the failures of each call).\<close>

theorem sqlite_tables_typed:
  assumes "sql_codec x" "sql_ok x db"
  shows "sql_ok x (fold (\<lambda>(c, faults) db. fst (run_call (sq_metadata_ops x) (db\<lparr>db_fault := faults\<rparr>) c)) cs db)"
  using assms(2)
proof (induction cs arbitrary: db)
  case (Cons c cs)
  have "sql_ok x (db\<lparr>db_fault := snd c\<rparr>)" using Cons.prems by (simp add: sql_ok_def project_exists_def)
  from sq_call_keeps_ok [OF assms(1) this, of "fst c"] Cons.IH show ?case by (simp add: case_prod_beta)
qed simp

theorem sqlite_tables_typed_witness:
  "sql_ok demo_ext (fold (\<lambda>(c, faults) db. fst (run_call (sq_metadata_ops demo_ext) (db\<lparr>db_fault := faults\<rparr>) c))
     (map (\<lambda>c. (c, \<lambda>i. if i = 1 then Some ''locked'' else None)) demo_calls) sql_db_new)"
  by (rule sqlite_tables_typed [OF demo_ext_codec]) (simp add: sql_ok_def sql_db_new_def)

section \<open>Authentication\<close>

lemma sq_find_answers:
  assumes "sq_working x db"
  shows "\<exists>r. find_key_by_hash (sq_metadata_ops x) db h = Inr r"
proof -
  have "row_to_gateway_key x r = Inr (key_row x r)" if "List.find P (t_keys db) = Some r" for P r
    using assms find_in_set [OF that] by (simp add: sq_working_def sql_ok_def row_to_gateway_key_ok)
  then have "transpose_row (row_to_gateway_key x) (List.find P (t_keys db)) = Inr (map_option (key_row x) (List.find P (t_keys db)))" for P
    by (rule transpose_row_ok)
  then show ?thesis
    using assms by (simp add: sq_metadata_ops_def sq_find_key_by_hash_def fetched_def fetch_def select_key_def sq_working_def)
qed

lemma sq_key_id: "sq_working x db \<Longrightarrow> sq_key x db i = Some row \<Longrightarrow> kr_id row = i"
  using sq_abs_keys_ok [of x db] by (simp add: sq_working_def mem_keys_ok_def sq_key_def mem_key_def)

text \<open>Authentication on the SQLite store. While the database answers, a request is admitted only with a bearer
  token whose keyed hash is stored for an active, unexpired key, as exactly that key and its project; the
  holder of a stored key whose hash no other key shares is admitted if and only if the key is usable; and
  after the key has been revoked, nobody is admitted with it.\<close>

theorem sqlite_auth_exact:
  assumes "sq_working x db"
  shows "(\<forall>db' p. gateway_key_auth ts kh (sq_metadata_ops x) master db now headers = (db', Inr p) \<longrightarrow>
      (\<exists>token row. extract_bearer ts headers = Some token \<and> parse_gateway_key token \<noteq> None
        \<and> sq_key x db (gp_key_id p) = Some row \<and> kr_hash row = derive_hash kh master token
        \<and> row_usable now row \<and> gp_project_id p = kr_project_id row))
    \<and> (\<forall>token i row. extract_bearer ts headers = Some token \<and> parse_gateway_key token \<noteq> None
        \<and> sq_key x db i = Some row \<and> kr_hash row = derive_hash kh master token
        \<and> (\<forall>j r. sq_key x db j = Some r \<and> kr_hash r = derive_hash kh master token \<longrightarrow> j = i) \<longrightarrow>
        snd (gateway_key_auth ts kh (sq_metadata_ops x) master db now headers) =
          (if row_usable now row then Inr \<lparr>gp_key_id = kr_id row, gp_project_id = kr_project_id row\<rparr>
           else Inl ApiUnauthorized)
        \<and> (\<forall>t0 db1. sq_revoke_key x db t0 i = (db1, Inr ()) \<longrightarrow>
             (\<forall>t p. snd (gateway_key_auth ts kh (sq_metadata_ops x) master db1 t headers) \<noteq> Inr p)))"
proof (intro conjI allI impI)
  fix db' p
  assume "gateway_key_auth ts kh (sq_metadata_ops x) master db now headers = (db', Inr p)"
  with sq_keys.auth_sound [OF assms] show "\<exists>token row. extract_bearer ts headers = Some token \<and> parse_gateway_key token \<noteq> None
        \<and> sq_key x db (gp_key_id p) = Some row \<and> kr_hash row = derive_hash kh master token
        \<and> row_usable now row \<and> gp_project_id p = kr_project_id row" by blast
next
  fix token i row
  assume a: "extract_bearer ts headers = Some token \<and> parse_gateway_key token \<noteq> None
        \<and> sq_key x db i = Some row \<and> kr_hash row = derive_hash kh master token
        \<and> (\<forall>j r. sq_key x db j = Some r \<and> kr_hash r = derive_hash kh master token \<longrightarrow> j = i)"
  from a sq_keys.auth_complete [OF assms _ _ sq_find_answers [OF assms]] show "snd (gateway_key_auth ts kh (sq_metadata_ops x) master db now headers) =
          (if row_usable now row then Inr \<lparr>gp_key_id = kr_id row, gp_project_id = kr_project_id row\<rparr>
           else Inl ApiUnauthorized)" by blast
  have "kr_id row = i" using a sq_key_id [OF assms] by blast
  then show "snd (gateway_key_auth ts kh (sq_metadata_ops x) master db1 t headers) \<noteq> Inr p"
    if "sq_revoke_key x db t0 i = (db1, Inr ())" for t0 db1 t p
    using sq_keys.revoked_rejected [OF assms, of t0 i db1 row] a that by (simp add: sq_metadata_ops_def)
qed

definition demo_sql_db :: sql_db where
  "demo_sql_db = sql_db_new\<lparr>t_projects := [\<lparr>pj_id = ''p'', pj_name = ''p'', pj_created_at = 0\<rparr>],
     t_keys := [new_key_tuple demo_ext 1 ''admin'' \<lparr>nk_id = ''k1'', nk_project_id = ''p'', nk_name = ''n'',
       nk_prefix = ''sk-gw-live-'', nk_hash = ''sk-gw-live-x'', nk_last4 = ''e-x'', nk_scopes = [], nk_expires_at = None,
       nk_origin = ''admin''\<rparr>]\<rparr>"

theorem sqlite_auth_exact_witness:
  "snd (gateway_key_auth Some (\<lambda>m p. p) (sq_metadata_ops demo_ext) [] demo_sql_db 5 [(''authorization'', ''Bearer sk-gw-live-x'')])
     = Inr \<lparr>gp_key_id = ''k1'', gp_project_id = ''p''\<rparr>"
proof -
  have w: "sq_working demo_ext demo_sql_db"
    using demo_ext_codec
    by (simp add: sq_working_def sql_ok_def demo_sql_db_def sql_db_new_def project_exists_def new_key_tuple_def demo_ext_def)
  have k: "sq_key demo_ext demo_sql_db ''k1'' = Some (key_row demo_ext (hd (t_keys demo_sql_db)))"
      "\<forall>j r. sq_key demo_ext demo_sql_db j = Some r \<and> kr_hash r = derive_hash (\<lambda>m p. p) [] ''sk-gw-live-x'' \<longrightarrow> j = ''k1''"
    by (auto simp: sq_key_def mem_key_def sq_abs_def demo_sql_db_def new_key_tuple_def split: if_splits)
  have row: "key_row demo_ext (hd (t_keys demo_sql_db)) = \<lparr>kr_id = ''k1'', kr_project_id = ''p'', kr_name = ''n'',
      kr_prefix = ''sk-gw-live-'', kr_hash = ''sk-gw-live-x'', kr_last4 = ''e-x'', kr_scopes = [], kr_status = ''active'',
      kr_expires_at = None, kr_last_used_at = None, kr_created_at = 1, kr_revoked_at = None, kr_origin = ''admin''\<rparr>"
    by (simp add: demo_sql_db_def key_row_new [OF demo_ext_codec])
  have token: "parse_gateway_key ''sk-gw-live-x'' \<noteq> None" by (simp add: parse_gateway_key_def starts_with_def PREFIX_LIVE_def)
  have hash: "kr_hash (key_row demo_ext (hd (t_keys demo_sql_db))) = derive_hash (\<lambda>m p. p) [] ''sk-gw-live-x''"
    by (simp add: row derive_hash_def)
  have "extract_bearer Some [(''authorization'', ''Bearer sk-gw-live-x'')] = Some ''sk-gw-live-x'' \<and> parse_gateway_key ''sk-gw-live-x'' \<noteq> None
      \<and> sq_key demo_ext demo_sql_db ''k1'' = Some (key_row demo_ext (hd (t_keys demo_sql_db)))
      \<and> kr_hash (key_row demo_ext (hd (t_keys demo_sql_db))) = derive_hash (\<lambda>m p. p) [] ''sk-gw-live-x''
      \<and> (\<forall>j r. sq_key demo_ext demo_sql_db j = Some r \<and> kr_hash r = derive_hash (\<lambda>m p. p) [] ''sk-gw-live-x'' \<longrightarrow> j = ''k1'')"
    by (intro conjI demo_token token k hash)
  from conjunct1 [OF conjunct2 [OF sqlite_auth_exact [OF w], rule_format, OF this]]
  show ?thesis by (simp add: row row_usable_def)
qed

section \<open>Projects\<close>

lemma upsert_unknown_project:
  "\<not> project_exists db (nk_project_id k) \<Longrightarrow> \<exists>e. sq_upsert_seeded_key x db now k = (db, Inl e)"
  by (auto simp: sq_upsert_seeded_key_def fetch_def execute_def upsert_key_def new_key_tuple_def split: option.splits)

lemma upsert_keeps_projects: "sq_upsert_seeded_key x db now k = (db', r) \<Longrightarrow> project_exists db' = project_exists db"
  by (auto simp: sq_upsert_seeded_key_def execute_def upsert_key_def split: sum.splits option.splits if_splits prod.splits)

lemma seed_upserts_unknown_project:
  "k \<in> set ks \<Longrightarrow> \<not> project_exists db (nk_project_id k) \<Longrightarrow>
     \<exists>db' e. seed_upserts (sq_metadata_ops x) now ks db = (db', Inl e)"
proof (induction ks arbitrary: db)
  case (Cons k' ks)
  obtain db1 r where u: "sq_upsert_seeded_key x db now k' = (db1, r)" by fastforce
  show ?case
  proof (cases r)
    case (Inl e)
    with u show ?thesis by (simp add: sq_metadata_ops_def)
  next
    case (Inr row)
    have "k' \<noteq> k" using u Inr upsert_unknown_project [of db k x now] Cons.prems(2) by auto
    with Cons.prems have "k \<in> set ks" "\<not> project_exists db1 (nk_project_id k)" using upsert_keeps_projects [OF u] by auto
    from Cons.IH [OF this] obtain db' e where "seed_upserts (sq_metadata_ops x) now ks db1 = (db', Inl e)" by blast
    with u Inr show ?thesis by (simp add: sq_metadata_ops_def)
  qed
qed simp

lemma seed_collect_keys: "seed_collect env dflt ks bp tu = Inr (bp', tu') \<Longrightarrow> map fst tu' = map fst tu @ ks"
  by (induction ks arbitrary: bp tu) (auto split: sum.splits option.splits)



section \<open>Seeding without a lock\<close>

text \<open>The check of the PostgreSQL seeding can be overtaken: an admin key stored under the same id after the check is
  overwritten by the write, which gives it the configured secret while it still counts as admin-managed.\<close>

theorem pg_seed_check_overtaken:
  assumes "sq_working x db" "List.find (\<lambda>r. kt_id r = nk_id k) (t_keys db) = None"
    and "sq_create_key x db t1 k1 = (db1, Inr row1)" "nk_id k1 = nk_id k" "project_exists db (nk_project_id k)"
  shows "pg_upsert_check x db k = Inr ()
    \<and> (\<exists>db2 row2. pg_upsert_write x db1 t2 k = (db2, Inr row2) \<and> kr_hash row2 = nk_hash k \<and> kr_origin row2 = nk_origin k1)"
proof -
  have w: "sql_codec x" "\<And>i. db_fault db i = None" "sql_ok x db" using assms(1) by (simp_all add: sq_working_def)
  let ?t1 = "new_key_tuple x t1 (nk_origin k1) k1" and ?t2 = "new_key_tuple x t2 KEY_ORIGIN_CONFIG k"
  have db1: "db1 = db\<lparr>t_keys := t_keys db @ [?t1]\<rparr>"
    using assms(3) by (auto simp: sq_create_key_def executed_Inr insert_key_def split: if_splits)
  note sel = new_key_tuple_sel [OF w(1)]
  have fresh: "\<forall>r \<in> set (t_keys db). kt_id r \<noteq> nk_id k" using assms(2) by (auto simp: find_None_iff)
  then have none: "upd_where (\<lambda>r. kt_id r = nk_id k) (conflict_update ?t2) (t_keys db) = t_keys db" by (intro upd_where_none) auto
  have "upsert_key ?t2 db1 = Inr (db1\<lparr>t_keys := t_keys db @ [conflict_update ?t2 ?t1]\<rparr>, 1)"
    using assms(4,5) none by (simp add: db1 upsert_key_def sel upd_where_def)
  moreover have "List.find (\<lambda>r. kt_id r = nk_id k) (t_keys db @ [conflict_update ?t2 ?t1]) = Some (conflict_update ?t2 ?t1)"
    using fresh assms(4) by (intro find_snoc) (auto simp: conflict_update_def new_key_tuple_def)
  moreover have "row_to_gateway_key x (conflict_update ?t2 ?t1) = Inr (key_row x (conflict_update ?t2 ?t1))"
    by (rule row_to_gateway_key_ok) (simp add: conflict_update_def sel)
  moreover have "pg_upsert_check x db k = Inr ()"
    using assms(2) w(2) by (simp add: pg_upsert_check_def fetched_def fetch_def select_key_def)
  moreover have "kt_origin ?t1 = nk_origin k1" by (simp add: new_key_tuple_def)
  ultimately show ?thesis
    using w(2) by (simp add: pg_upsert_write_def execute_def fetched_def fetch_def select_key_def db1 key_row_conflict [OF w(1)])
qed

end
