(* ===== verification/Budget.thy ===== *)
theory Budget
  imports Config Memory_Store
begin

text \<open>
  Spending budgets: \<open>gateway-api/src/budget.rs\<close>. The calendar is chrono's: a parameter \<open>mday\<close> gives
  the day of the month of a day counted from 1970-01-01, which was a Thursday. The set of
  notifications sent is a list without duplicates; a notification itself (metrics, webhook) is an
  event in the result.
\<close>

section \<open>Periods\<close>

definition DAY_MS :: int where "DAY_MS = 86400000"

definition day_of :: "int \<Rightarrow> int" where
  "day_of now = now div DAY_MS"

definition num_days_from_monday :: "int \<Rightarrow> int" where
  "num_days_from_monday d = (d + 3) mod 7"

definition period_start_for :: "(int \<Rightarrow> int) \<Rightarrow> int \<Rightarrow> string \<Rightarrow> int" where
  "period_start_for mday now period =
     (let d = day_of now in
      if period = ''daily'' then d * DAY_MS
      else if period = ''weekly'' then (d - num_days_from_monday d) * DAY_MS
      else (d - (mday d - 1)) * DAY_MS)"

section \<open>The budget manager\<close>

type_synonym notified = "(string \<times> int \<times> nat) list"

record fired =
  fi_budget :: string
  fi_period_start :: int
  fi_bucket :: nat
  fi_action :: string
  fi_webhook :: "string option"
  fi_used :: f64
  fi_pct :: f64

record budget_usage =
  bu_budget_id :: string
  bu_name :: string
  bu_period :: string
  bu_period_start :: int
  bu_amount_usd :: f64
  bu_used_usd :: f64
  bu_pct :: f64
  bu_blocked :: bool

definition budget_matches :: "string \<Rightarrow> string \<Rightarrow> budget_config \<Rightarrow> bool" where
  "budget_matches project_id key_id b \<longleftrightarrow>
     unwrap_or (map_option (\<lambda>p. p = project_id) (bt_project_id (bc_target b))) True
     \<and> unwrap_or (map_option (\<lambda>k. k = key_id) (bt_gateway_key_id (bc_target b))) True"

definition matching_budgets :: "app_config \<Rightarrow> string \<Rightarrow> string \<Rightarrow> budget_config list" where
  "matching_budgets cfg project_id key_id = filter (budget_matches project_id key_id) (budgets cfg)"

definition result_or :: "'e + 'a \<Rightarrow> 'a \<Rightarrow> 'a" where
  "result_or r d = (case r of Inl _ \<Rightarrow> d | Inr v \<Rightarrow> v)"

definition budget_pct :: "budget_config \<Rightarrow> f64 \<Rightarrow> f64" where
  "budget_pct b used = (if f64_lt f64_0 (bc_amount_usd b) then f64_div used (bc_amount_usd b) else f64_0)"

definition block_at :: "f64 \<Rightarrow> budget_threshold \<Rightarrow> bool" where
  "block_at pct t \<longleftrightarrow> f64_le (th_at t) pct \<and> th_action t = ''block''"

fun check_block_loop :: "(int \<Rightarrow> int) \<Rightarrow> 'c counter_ops \<Rightarrow> int \<Rightarrow> 'c \<Rightarrow> budget_config list \<Rightarrow> bool" where
  "check_block_loop mday ops now st [] = False"
| "check_block_loop mday ops now st (b # bs) =
     (let used = result_or (read_budget ops st (bc_name b) (period_start_for mday now (bc_period b))) f64_0;
          pct = budget_pct b used
      in if \<exists>t \<in> set (bc_thresholds b). block_at pct t then True
         else check_block_loop mday ops now st bs)"

definition check_block ::
  "(int \<Rightarrow> int) \<Rightarrow> 'c counter_ops \<Rightarrow> app_config \<Rightarrow> int \<Rightarrow> string \<Rightarrow> string \<Rightarrow> 'c \<Rightarrow> bool" where
  "check_block mday ops cfg now project_id key_id st =
     check_block_loop mday ops now st (matching_budgets cfg project_id key_id)"

definition threshold_bucket :: "budget_threshold \<Rightarrow> nat" where
  "threshold_bucket t = f64_as_uint 4294967295 (f64_mul (th_at t) (Finite 100))"

fun threshold_loop ::
  "budget_config \<Rightarrow> int \<Rightarrow> f64 \<Rightarrow> f64 \<Rightarrow> budget_threshold list \<Rightarrow> notified \<Rightarrow> fired list \<Rightarrow> notified \<times> fired list" where
  "threshold_loop b start used pct [] ns out = (ns, out)"
| "threshold_loop b start used pct (t # ts) ns out =
     (let dedupe_key = (bc_name b, start, threshold_bucket t) in
      if f64_le (th_at t) pct \<and> dedupe_key \<notin> set ns
      then threshold_loop b start used pct ts (dedupe_key # ns)
             (out @ [\<lparr>fi_budget = bc_name b, fi_period_start = start, fi_bucket = threshold_bucket t,
                      fi_action = th_action t, fi_webhook = th_webhook t, fi_used = used, fi_pct = pct\<rparr>])
      else threshold_loop b start used pct ts ns out)"

fun record_loop ::
  "(int \<Rightarrow> int) \<Rightarrow> 'c counter_ops \<Rightarrow> int \<Rightarrow> f64 \<Rightarrow> budget_config list \<Rightarrow> 'c \<times> notified \<Rightarrow> fired list
     \<Rightarrow> ('c \<times> notified) \<times> fired list" where
  "record_loop mday ops now cost [] s out = (s, out)"
| "record_loop mday ops now cost (b # bs) s out =
     (let start = period_start_for mday now (bc_period b);
          (st1, r) = incr_budget ops (fst s) (bc_name b) start cost;
          used = result_or r f64_0;
          (ns1, out1) = threshold_loop b start used (budget_pct b used) (bc_thresholds b) (snd s) out
      in record_loop mday ops now cost bs (st1, ns1) out1)"

definition record_cost ::
  "(int \<Rightarrow> int) \<Rightarrow> 'c counter_ops \<Rightarrow> app_config \<Rightarrow> int \<Rightarrow> string \<Rightarrow> string \<Rightarrow> f64 \<Rightarrow> 'c \<times> notified
     \<Rightarrow> ('c \<times> notified) \<times> fired list" where
  "record_cost mday ops cfg now project_id key_id cost_usd s =
     (if f64_le cost_usd f64_0 then (s, [])
      else record_loop mday ops now cost_usd (matching_budgets cfg project_id key_id) s [])"

definition usage_of :: "(int \<Rightarrow> int) \<Rightarrow> 'c counter_ops \<Rightarrow> int \<Rightarrow> 'c \<Rightarrow> budget_config \<Rightarrow> budget_usage" where
  "usage_of mday ops now st b =
     (let start = period_start_for mday now (bc_period b);
          used = result_or (read_budget ops st (bc_name b) start) f64_0;
          pct = budget_pct b used
      in \<lparr>bu_budget_id = bc_name b, bu_name = bc_name b, bu_period = bc_period b, bu_period_start = start,
          bu_amount_usd = bc_amount_usd b, bu_used_usd = used, bu_pct = pct,
          bu_blocked = (\<exists>t \<in> set (bc_thresholds b). th_action t = ''block'' \<and> f64_le (th_at t) pct)\<rparr>)"

definition current_usage ::
  "(int \<Rightarrow> int) \<Rightarrow> 'c counter_ops \<Rightarrow> app_config \<Rightarrow> int \<Rightarrow> string option \<Rightarrow> 'c \<Rightarrow> budget_usage list" where
  "current_usage mday ops cfg now project_id st =
     map (usage_of mday ops now st)
       (filter (\<lambda>b. case project_id of
                      Some p \<Rightarrow> (case bt_project_id (bc_target b) of Some tp \<Rightarrow> tp = p | None \<Rightarrow> True)
                    | None \<Rightarrow> True) (budgets cfg))"

section \<open>Periods contain the present\<close>

lemma period_start_daily: "period_start_for mday now ''daily'' \<le> now \<and> now < period_start_for mday now ''daily'' + DAY_MS"
proof -
  have "0 \<le> now mod DAY_MS" "now mod DAY_MS < DAY_MS"
    using pos_mod_sign [of DAY_MS now] pos_mod_bound [of DAY_MS now] by (simp_all add: DAY_MS_def)
  then have "now div DAY_MS * DAY_MS \<le> now" "now < now div DAY_MS * DAY_MS + DAY_MS"
    using div_mult_mod_eq [of now DAY_MS] by linarith+
  then show ?thesis by (simp add: period_start_for_def day_of_def)
qed

lemma day_start: "day_of now * DAY_MS \<le> now \<and> now < (day_of now + 1) * DAY_MS"
  using period_start_daily [of _ now] by (simp add: period_start_for_def algebra_simps)

section \<open>Notifications\<close>

definition fired_key :: "fired \<Rightarrow> string \<times> int \<times> nat" where
  "fired_key f = (fi_budget f, fi_period_start f, fi_bucket f)"

text \<open>\<open>out\<close> has been notified: every event's key is in \<open>ns\<close>, no key twice.\<close>

definition notified_inv :: "notified \<Rightarrow> fired list \<Rightarrow> bool" where
  "notified_inv ns out \<longleftrightarrow> distinct (map fired_key out) \<and> set (map fired_key out) \<subseteq> set ns"

lemma threshold_loop_inv:
  "notified_inv ns out \<Longrightarrow> threshold_loop b start used pct ts ns out = (ns', out') \<Longrightarrow>
   notified_inv ns' out' \<and> set ns \<subseteq> set ns' \<and> (\<exists>new. out' = out @ new \<and> fired_key ` set new \<inter> set ns = {})"
proof (induction b start used pct ts ns out rule: threshold_loop.induct)
  case (2 b start used pct t ts ns out)
  show ?case
  proof (cases "f64_le (th_at t) pct \<and> (bc_name b, start, threshold_bucket t) \<notin> set ns")
    case True
    let ?e = "\<lparr>fi_budget = bc_name b, fi_period_start = start, fi_bucket = threshold_bucket t,
                      fi_action = th_action t, fi_webhook = th_webhook t, fi_used = used, fi_pct = pct\<rparr>"
    have "notified_inv ((bc_name b, start, threshold_bucket t) # ns) (out @ [?e])"
      using 2(3) True by (auto simp: notified_inv_def fired_key_def)
    from 2(1) [OF refl True this] 2(4) True obtain new where
      "notified_inv ns' out'" "set ((bc_name b, start, threshold_bucket t) # ns) \<subseteq> set ns'"
      "out' = (out @ [?e]) @ new" "fired_key ` set new \<inter> set ((bc_name b, start, threshold_bucket t) # ns) = {}"
      by (auto simp: Let_def)
    with True show ?thesis by (intro conjI exI [of _ "?e # new"]) (auto simp: fired_key_def)
  next
    case False
    from 2(2) [OF refl False 2(3)] 2(4) False show ?thesis by (auto simp: Let_def)
  qed
qed simp

lemma record_loop_inv:
  "notified_inv (snd s) out \<Longrightarrow> record_loop mday ops now cost bs s out = (s', out') \<Longrightarrow>
   notified_inv (snd s') out' \<and> set (snd s) \<subseteq> set (snd s')
     \<and> (\<exists>new. out' = out @ new \<and> fired_key ` set new \<inter> set (snd s) = {})"
proof (induction bs arbitrary: s out)
  case (Cons b bs)
  let ?start = "period_start_for mday now (bc_period b)"
  obtain st1 r where i: "incr_budget ops (fst s) (bc_name b) ?start cost = (st1, r)" by fastforce
  obtain ns1 out1 where t: "threshold_loop b ?start (result_or r f64_0) (budget_pct b (result_or r f64_0))
      (bc_thresholds b) (snd s) out = (ns1, out1)" by fastforce
  from threshold_loop_inv [OF Cons.prems(1) t] obtain new where
    n: "notified_inv ns1 out1" "set (snd s) \<subseteq> set ns1" "out1 = out @ new" "fired_key ` set new \<inter> set (snd s) = {}"
    by blast
  have "record_loop mday ops now cost bs (st1, ns1) out1 = (s', out')"
    using Cons.prems(2) i t by (simp add: Let_def)
  from Cons.IH [OF _ this] n(1) obtain new' where
    m: "notified_inv (snd s') out'" "set ns1 \<subseteq> set (snd s')" "out' = out1 @ new'" "fired_key ` set new' \<inter> set ns1 = {}"
    by auto
  with n show ?case by (intro conjI exI [of _ "new @ new'"]) auto
qed simp

text \<open>Every cost recorded from one state to the next, with the events of each recording.\<close>

inductive cost_run ::
  "(int \<Rightarrow> int) \<Rightarrow> 'c counter_ops \<Rightarrow> 'c \<times> notified \<Rightarrow> fired list \<Rightarrow> 'c \<times> notified \<Rightarrow> bool"
  for mday ops s0 where
  start: "cost_run mday ops s0 [] s0"
| charge: "cost_run mday ops s0 out s \<Longrightarrow> record_cost mday ops cfg now project_id key_id cost s = (s', new) \<Longrightarrow>
    cost_run mday ops s0 (out @ new) s'"

lemma cost_run_inv: "cost_run mday ops s0 out s \<Longrightarrow> notified_inv (snd s) out"
proof (induction rule: cost_run.induct)
  case start
  then show ?case by (simp add: notified_inv_def)
next
  case (charge out s cfg now project_id key_id cost s' new)
  show ?case
  proof (cases "f64_le cost f64_0")
    case True
    with charge show ?thesis by (simp add: record_cost_def)
  next
    case False
    with charge.hyps(2) have "record_loop mday ops now cost (matching_budgets cfg project_id key_id) s [] = (s', new)"
      by (simp add: record_cost_def)
    from record_loop_inv [OF _ this] have n: "notified_inv (snd s') new" "set (snd s) \<subseteq> set (snd s')"
        "fired_key ` set new \<inter> set (snd s) = {}" by (auto simp: notified_inv_def)
    with charge.IH have "fired_key ` set out \<inter> fired_key ` set new = {}" by (auto simp: notified_inv_def)
    with n charge.IH show ?thesis by (auto simp: notified_inv_def)
  qed
qed

section \<open>Spending over any counter store\<close>

text \<open>The recorded spend is a non-negative float.\<close>

definition spend_ok :: "('c \<Rightarrow> string \<Rightarrow> timestamp \<Rightarrow> f64) \<Rightarrow> 'c \<Rightarrow> bool" where
  "spend_ok spent st \<longleftrightarrow> (\<forall>b p. is_f64 (spent st b p) \<and> f64_le f64_0 (spent st b p))"

definition spend_grows :: "('c \<Rightarrow> string \<Rightarrow> timestamp \<Rightarrow> f64) \<Rightarrow> 'c \<Rightarrow> 'c \<Rightarrow> bool" where
  "spend_grows spent st st' \<longleftrightarrow> spend_ok spent st' \<and> (\<forall>b p. f64_le (spent st b p) (spent st' b p))"

context counter_contract
begin

lemma incr_budget_grows:
  assumes "spend_ok spent st" "f64_le f64_0 d" "incr_budget ops st b p d = (st', Inr v)"
  shows "spend_grows spent st st'"
proof -
  have "is_f64 (spent st' b' p') \<and> f64_le f64_0 (spent st' b' p') \<and> f64_le (spent st b' p') (spent st' b' p')" for b' p'
  proof (cases "(b', p') = (b, p)")
    case True
    with incr_budget_result [OF assms(3)] assms(1,2) show ?thesis
      by (auto simp: spend_ok_def intro: f64_add_nonneg f64_add_increasing)
  next
    case False
    with incr_budget_frame [OF assms(3) False] assms(1) show ?thesis
      by (auto simp: spend_ok_def intro: f64_le_refl dest: f64_le_not_NaN)
  qed
  then show ?thesis by (simp add: spend_grows_def spend_ok_def)
qed

lemma spend_grows_refl: "spend_ok spent st \<Longrightarrow> spend_grows spent st st"
  by (auto simp: spend_grows_def spend_ok_def intro: f64_le_refl dest: f64_le_not_NaN)

lemma spend_grows_trans: "spend_grows spent st st1 \<Longrightarrow> spend_grows spent st1 st2 \<Longrightarrow> spend_grows spent st st2"
  unfolding spend_grows_def by (meson f64_le_trans)

lemma record_loop_grows:
  assumes "\<And>st b p d. \<exists>st' v. incr_budget ops st b p d = (st', Inr v)" "f64_le f64_0 cost"
  shows "spend_ok spent (fst s) \<Longrightarrow> record_loop mday ops now cost bs s out = (s', out') \<Longrightarrow>
    spend_grows spent (fst s) (fst s')"
proof (induction bs arbitrary: s out)
  case Nil
  then show ?case by (auto intro: spend_grows_refl)
next
  case (Cons b bs)
  let ?start = "period_start_for mday now (bc_period b)"
  obtain st1 v where i: "incr_budget ops (fst s) (bc_name b) ?start cost = (st1, Inr v)" using assms(1) by blast
  obtain ns1 out1 where t: "threshold_loop b ?start v (budget_pct b v) (bc_thresholds b) (snd s) out = (ns1, out1)"
    by fastforce
  have g: "spend_grows spent (fst s) st1" by (rule incr_budget_grows [OF Cons.prems(1) assms(2) i])
  have "record_loop mday ops now cost bs (st1, ns1) out1 = (s', out')"
    using Cons.prems(2) i t by (simp add: Let_def result_or_def)
  from Cons.IH [OF _ this] g have "spend_grows spent st1 (fst s')" by (simp add: spend_grows_def)
  with g show ?case by (rule spend_grows_trans)
qed

lemma check_block_loop_mono:
  assumes "\<And>st b p. \<exists>v. read_budget ops st b p = Inr v" "spend_ok spent st" "spend_grows spent st st'"
    and "\<forall>b \<in> set bs. f64_is_finite (bc_amount_usd b)"
  shows "check_block_loop mday ops now st bs \<Longrightarrow> check_block_loop mday ops now st' bs"
  using assms(4)
proof (induction bs)
  case (Cons b bs)
  let ?p = "period_start_for mday now (bc_period b)"
  have rd: "result_or (read_budget ops st0 c q) f64_0 = spent st0 c q" for st0 c q
    using assms(1) [of st0 c q] read_budget_result by (auto simp: result_or_def)
  have "f64_le (budget_pct b (spent st (bc_name b) ?p)) (budget_pct b (spent st' (bc_name b) ?p))"
    using assms(2,3) Cons.prems(2)
    by (auto simp: budget_pct_def spend_ok_def spend_grows_def intro!: f64_div_mono)
  then have "block_at (budget_pct b (spent st (bc_name b) ?p)) t \<Longrightarrow> block_at (budget_pct b (spent st' (bc_name b) ?p)) t" for t
    by (auto simp: block_at_def intro: f64_le_trans)
  with Cons show ?case by (auto simp: Let_def rd split: if_splits)
qed simp

lemma record_loop_charges:
  assumes "\<And>st b p d. \<exists>st' v. incr_budget ops st b p d = (st', Inr v)"
  shows "distinct (map bc_name bs) \<Longrightarrow> record_loop mday ops now cost bs s out = (s', out') \<Longrightarrow>
    spent (fst s') n p =
      (if \<exists>b \<in> set bs. bc_name b = n \<and> period_start_for mday now (bc_period b) = p
       then f64_add (spent (fst s) n p) cost else spent (fst s) n p)"
proof (induction bs arbitrary: s out)
  case (Cons b bs)
  let ?start = "period_start_for mday now (bc_period b)"
  obtain st1 v where i: "incr_budget ops (fst s) (bc_name b) ?start cost = (st1, Inr v)" using assms(1) by blast
  obtain ns1 out1 where t: "threshold_loop b ?start v (budget_pct b v) (bc_thresholds b) (snd s) out = (ns1, out1)"
    by fastforce
  have r: "record_loop mday ops now cost bs (st1, ns1) out1 = (s', out')"
    using Cons.prems(2) i t by (simp add: Let_def result_or_def)
  have "spent st1 n p = (if bc_name b = n \<and> ?start = p then f64_add (spent (fst s) n p) cost else spent (fst s) n p)"
    using incr_budget_result [OF i] incr_budget_frame [OF i, of n p] by auto
  moreover have "\<not> (\<exists>c \<in> set bs. bc_name c = n)" if "bc_name b = n"
    using that Cons.prems(1) by (auto simp: image_iff)
  ultimately show ?case using Cons.IH [OF _ r] Cons.prems(1) by (cases "bc_name b = n") auto
qed simp

end

lemma mem_budget_total:
  "\<exists>st' v. incr_budget mem_counter_ops st b p d = (st', Inr v)" "\<exists>v. read_budget mem_counter_ops st b p = Inr v"
  by (simp_all add: mem_counter_ops_def mem_incr_budget_def mem_read_budget_def Let_def)

section \<open>Properties\<close>

text \<open>A budget that blocks keeps blocking within its period: charging any further non-negative cost, to
  whatever project or key, never turns a refusal back into an admission, because the recorded spend never decreases
  under floating-point addition.\<close>

theorem block_is_stable:
  assumes "spend_ok mem_spent st" "f64_le f64_0 cost" "\<forall>b \<in> set (budgets cfg). f64_is_finite (bc_amount_usd b)"
    and "check_block mday mem_counter_ops cfg now project_id key_id st"
    and "record_cost mday mem_counter_ops cfg' now' project_id' key_id' cost (st, ns) = ((st', ns'), out)"
  shows "check_block mday mem_counter_ops cfg now project_id key_id st' \<and> spend_ok mem_spent st'"
proof -
  have g: "spend_grows mem_spent st st'"
  proof (cases "f64_le cost f64_0")
    case True
    with assms(1,5) show ?thesis by (simp add: record_cost_def mem_counter.spend_grows_refl)
  next
    case False
    with assms(5) have "record_loop mday mem_counter_ops now' cost (matching_budgets cfg' project_id' key_id') (st, ns) []
        = ((st', ns'), out)" by (simp add: record_cost_def)
    from mem_counter.record_loop_grows [OF mem_budget_total(1) assms(2) _ this] assms(1) show ?thesis by simp
  qed
  have "\<forall>b \<in> set (matching_budgets cfg project_id key_id). f64_is_finite (bc_amount_usd b)"
    using assms(3) by (simp add: matching_budgets_def)
  with assms(4) g show ?thesis
    using mem_counter.check_block_loop_mono [OF mem_budget_total(2) assms(1) g]
    by (simp add: check_block_def spend_grows_def)
qed

definition demo_budget_config :: app_config where
  "demo_budget_config = \<lparr>server = server_config_default, storage = Memory cache_config_default,
     admin = admin_config_default, providers = [], routes = [], limits = [],
     budgets = [\<lparr>bc_name = ''b'', bc_target = \<lparr>bt_project_id = None, bt_gateway_key_id = None\<rparr>, bc_period = ''daily'',
       bc_amount_usd = Finite 1, bc_thresholds = [\<lparr>th_at = Finite 0, th_action = ''block'', th_webhook = None\<rparr>]\<rparr>],
     observability = observability_config_default, gateway_keys = []\<rparr>"

theorem block_is_stable_witness:
  "\<exists>st'. fst (fst (record_cost (\<lambda>_. 1) mem_counter_ops demo_budget_config 0 ''p'' ''k'' (Finite 1) (mem_counter_new, [])))
      = st' \<and> check_block (\<lambda>_. 1) mem_counter_ops demo_budget_config 0 ''p'' ''k'' st'"
proof -
  obtain st' ns' out where r: "record_cost (\<lambda>_. 1) mem_counter_ops demo_budget_config 0 ''p'' ''k'' (Finite 1)
      (mem_counter_new, []) = ((st', ns'), out)" by (metis prod.collapse)
  have "spend_ok mem_spent mem_counter_new"
    by (simp add: spend_ok_def mem_spent_def mem_counter_new_def)
  moreover have "check_block (\<lambda>_. 1) mem_counter_ops demo_budget_config 0 ''p'' ''k'' mem_counter_new"
    by (simp add: check_block_def matching_budgets_def demo_budget_config_def budget_matches_def mem_counter_ops_def
        mem_read_budget_def mem_counter_new_def result_or_def budget_pct_def block_at_def Let_def)
  moreover have "\<forall>b \<in> set (budgets demo_budget_config). f64_is_finite (bc_amount_usd b)"
    by (simp add: demo_budget_config_def)
  ultimately show ?thesis using block_is_stable [OF _ _ _ _ r] r by auto
qed

text \<open>a charge reaches exactly the matching budgets: with distinct budget names each matching budget's spend
  of its current period grows by the cost once, and no other budget and no other period changes.\<close>

theorem record_cost_exact:
  assumes "distinct (map bc_name (matching_budgets cfg project_id key_id))" "\<not> f64_le cost f64_0"
    and "record_cost mday mem_counter_ops cfg now project_id key_id cost (st, ns) = ((st', ns'), out)"
  shows "mem_spent st' n p =
    (if \<exists>b \<in> set (budgets cfg). budget_matches project_id key_id b \<and> bc_name b = n
          \<and> period_start_for mday now (bc_period b) = p
     then f64_add (mem_spent st n p) cost else mem_spent st n p)"
proof -
  from assms(2,3) have "record_loop mday mem_counter_ops now cost (matching_budgets cfg project_id key_id) (st, ns) []
      = ((st', ns'), out)" by (simp add: record_cost_def)
  from mem_counter.record_loop_charges [OF mem_budget_total(1) assms(1) this, of n p] show ?thesis
    by (auto simp: matching_budgets_def)
qed

theorem record_cost_exact_witness:
  "mem_spent (fst (fst (record_cost (\<lambda>_. 1) mem_counter_ops demo_budget_config 0 ''p'' ''k'' (Finite 1)
      (mem_counter_new, [])))) ''b'' 0 = f64_add f64_0 (Finite 1)"
proof -
  obtain st' ns' out where r: "record_cost (\<lambda>_. 1) mem_counter_ops demo_budget_config 0 ''p'' ''k'' (Finite 1)
      (mem_counter_new, []) = ((st', ns'), out)" by (metis prod.collapse)
  have d: "distinct (map bc_name (matching_budgets demo_budget_config ''p'' ''k''))"
    by (simp add: matching_budgets_def demo_budget_config_def)
  from record_cost_exact [OF d _ r, of "''b''" 0] r show ?thesis
    by (simp add: demo_budget_config_def budget_matches_def period_start_for_def day_of_def mem_spent_def
        mem_counter_new_def Let_def)
qed

text \<open>a budget threshold is announced at most once per period: over any run of charges, no notification
  is sent twice for the same budget, period and threshold percentage.\<close>

theorem notified_once:
  assumes "cost_run mday ops s0 out s"
  shows "distinct (map fired_key out) \<and> set (map fired_key out) \<subseteq> set (snd s)"
  using cost_run_inv [OF assms] by (simp add: notified_inv_def)

theorem notified_once_witness:
  "\<exists>out s. cost_run (\<lambda>_. 1) mem_counter_ops (mem_counter_new, []) out s \<and> out \<noteq> [] \<and> distinct (map fired_key out)"
proof -
  obtain s out where r: "record_cost (\<lambda>_. 1) mem_counter_ops demo_budget_config 0 ''p'' ''k'' (Finite 1)
      (mem_counter_new, []) = (s, out)" by fastforce
  then have "out \<noteq> []"
    using f64_round_int [of 1]
    by (auto simp: record_cost_def matching_budgets_def demo_budget_config_def budget_matches_def mem_counter_ops_def
        mem_incr_budget_def mem_counter_new_def result_or_def budget_pct_def Let_def)
  moreover have "cost_run (\<lambda>_. 1) mem_counter_ops (mem_counter_new, []) ([] @ out) s"
    by (rule cost_run.charge [OF cost_run.start r])
  ultimately show ?thesis using notified_once by fastforce
qed

text \<open>The period of a budget contains the present: the start that is computed is midnight of the current day,
  of the current week's Monday, or of the first of the month, never in the future and never more
  than a day, a week or a month ago.\<close>

theorem period_start_bounds:
  assumes "1 \<le> mday (day_of now)" "mday (day_of now) \<le> 31"
  shows "period_start_for mday now period \<le> now
    \<and> now < period_start_for mday now period + (if period = ''daily'' then 1 else if period = ''weekly'' then 7 else 31) * DAY_MS
    \<and> period_start_for mday now period mod DAY_MS = 0
    \<and> num_days_from_monday (day_of (period_start_for mday now ''weekly'')) = 0"
proof -
  have d: "day_of now * DAY_MS \<le> now" "now < (day_of now + 1) * DAY_MS" using day_start by blast+
  have wd: "0 \<le> num_days_from_monday (day_of now)" "num_days_from_monday (day_of now) < 7"
    by (simp_all add: num_days_from_monday_def)
  have pos: "0 < DAY_MS" by (simp add: DAY_MS_def)
  have lo: "(day_of now - x) * DAY_MS \<le> now" if "0 \<le> x" for x
    using that d(1) pos mult_right_mono [of "day_of now - x" "day_of now" DAY_MS] by linarith
  have hi: "now < (day_of now - x) * DAY_MS + n * DAY_MS" if "x + 1 \<le> n" for x n
    using that d(2) pos mult_right_mono [of "day_of now + 1" "day_of now - x + n" DAY_MS]
    by (simp add: distrib_right)
  have mon: "num_days_from_monday (day_of ((day_of now - num_days_from_monday (day_of now)) * DAY_MS)) = 0"
  proof -
    have "day_of (x * DAY_MS) = x" for x using pos by (simp add: day_of_def)
    then show ?thesis
      by (simp add: num_days_from_monday_def) presburger
  qed
  show ?thesis
    using lo [of 0] hi [of 0 1] lo [OF wd(1)] hi [of "num_days_from_monday (day_of now)" 7] wd
      lo [of "mday (day_of now) - 1"] hi [of "mday (day_of now) - 1" 31] assms mon
    by (simp add: period_start_for_def Let_def)
qed

theorem period_start_bounds_witness:
  "period_start_for (\<lambda>_. 15) 1000000000 ''monthly'' \<le> 1000000000"
  using period_start_bounds [of "\<lambda>_. 15" 1000000000 "''monthly''"] by simp

end
