(* ===== verification/Admin_Api.thy ===== *)
theory Admin_Api
  imports Auth Budget
begin

text \<open>
  The admin endpoints that manage keys, administrators and prices:
  \<open>gateway-api/src/routes/admin/keys.rs\<close>, \<open>auth.rs\<close>, \<open>pricing.rs\<close>, \<open>cost.rs\<close>, \<open>budgets.rs\<close> and \<open>routes_cfg.rs\<close>, and the
  readiness probe of \<open>routes/health.rs\<close>. Each handler takes the admin principal in the code, so it runs only after
  \<open>admin_auth\<close> succeeded; here it is the function of the request and the stores behind that guard. \<open>uuid\<close> is the
  fresh id, \<open>rnd\<close> the random source.
\<close>

section \<open>Keys\<close>

record create_key_request =
  cq_name :: string
  cq_env :: string
  cq_project_id :: "string option"
  cq_scopes :: "string list"
  cq_expires_at :: "int option"

definition default_env :: string where "default_env = ''live''"

record create_key_response =
  kc_id :: string
  kc_name :: string
  kc_prefix :: string
  kc_last4 :: string
  kc_secret :: string
  kc_created_at :: int

definition admin_create_key ::
  "keyed_hash_fn \<Rightarrow> string \<Rightarrow> string \<Rightarrow> int \<Rightarrow> 'm metadata_ops \<Rightarrow> bytes \<Rightarrow> string \<Rightarrow> create_key_request \<Rightarrow> 'm
     \<Rightarrow> 'm \<times> (api_error + create_key_response)" where
  "admin_create_key kh rnd uuid now ops master default_project req st =
     (case key_env_parse (cq_env req) of
        None \<Rightarrow> (st, Inl (ApiBadRequest (''invalid env '' @ quoted (cq_env req) @ '', expected live or test'')))
      | Some env \<Rightarrow>
          (case generate_gateway_key kh rnd env master of
             Inl e \<Rightarrow> (st, Inl (Gateway e))
           | Inr secret \<Rightarrow>
               (case create_key ops st now
                       \<lparr>nk_id = uuid, nk_project_id = unwrap_or (cq_project_id req) default_project, nk_name = cq_name req,
                        nk_prefix = gs_prefix secret, nk_hash = gs_hash secret, nk_last4 = gs_last4 secret,
                        nk_scopes = cq_scopes req, nk_expires_at = cq_expires_at req, nk_origin = KEY_ORIGIN_ADMIN\<rparr> of
                  (st1, Inl e) \<Rightarrow> (st1, Inl (ApiStorage e))
                | (st1, Inr row) \<Rightarrow>
                    (st1, Inr \<lparr>kc_id = kr_id row, kc_name = kr_name row, kc_prefix = kr_prefix row, kc_last4 = kr_last4 row,
                               kc_secret = gs_plaintext secret, kc_created_at = kr_created_at row\<rparr>))))"

record key_summary =
  ks_id :: string
  ks_project_id :: string
  ks_name :: string
  ks_prefix :: string
  ks_last4 :: string
  ks_status :: string
  ks_created_at :: int
  ks_last_used_at :: "int option"
  ks_expires_at :: "int option"
  ks_origin :: string

definition summary_of :: "gateway_key_row \<Rightarrow> key_summary" where
  "summary_of r = \<lparr>ks_id = kr_id r, ks_project_id = kr_project_id r, ks_name = kr_name r, ks_prefix = kr_prefix r,
     ks_last4 = kr_last4 r, ks_status = kr_status r, ks_created_at = kr_created_at r, ks_last_used_at = kr_last_used_at r,
     ks_expires_at = kr_expires_at r, ks_origin = kr_origin r\<rparr>"

definition admin_list_keys ::
  "'m metadata_ops \<Rightarrow> string \<Rightarrow> string option \<Rightarrow> 'm \<Rightarrow> api_error + key_summary list" where
  "admin_list_keys ops default_project project_id st =
     (case list_keys ops st (unwrap_or project_id default_project) of
        Inl e \<Rightarrow> Inl (ApiStorage e) | Inr rows \<Rightarrow> Inr (map summary_of rows))"

definition admin_revoke_key :: "'m metadata_ops \<Rightarrow> int \<Rightarrow> string \<Rightarrow> 'm \<Rightarrow> 'm \<times> (api_error + json)" where
  "admin_revoke_key ops now ident st =
     (case get_key ops st ident of
        Inl e \<Rightarrow> (st, Inl (ApiStorage e))
      | Inr existing \<Rightarrow>
          if (case existing of Some row \<Rightarrow> kr_origin row = KEY_ORIGIN_CONFIG | None \<Rightarrow> False)
          then (st, Inl (ApiBadRequest (''key '' @ quoted ident
                  @ '' is managed by the config file; remove it from gateway_keys[] to revoke'')))
          else (case revoke_key ops st now ident of
                  (st1, Inl e) \<Rightarrow> (st1, Inl (ApiStorage e))
                | (st1, Inr _) \<Rightarrow> (st1, Inr (JObject [(''id'', JString ident), (''status'', JString ''revoked'')]))))"

section \<open>Administrators\<close>

definition SESSION_TTL_SECS :: int where "SESSION_TTL_SECS = 43200"

record login_response =
  lo_token :: string
  lo_username :: string
  lo_expires_at :: int

text \<open>\<open>now_ms\<close>, \<open>now_iat\<close> and \<open>now_s\<close> are the three clock readings: of the login, inside \<open>issue\<close>, and of the answer.\<close>

definition admin_login ::
  "(string \<Rightarrow> string \<Rightarrow> argon_result) \<Rightarrow> (bytes \<Rightarrow> admin_token_claims \<Rightarrow> string + string) \<Rightarrow> 'm metadata_ops \<Rightarrow> bytes
     \<Rightarrow> int \<Rightarrow> int \<Rightarrow> int \<Rightarrow> string \<Rightarrow> string \<Rightarrow> 'm \<Rightarrow> 'm \<times> (api_error + login_response)" where
  "admin_login argon2_verify jwt_encode ops master now_ms now_iat now_s username password st =
     (case find_admin_user ops st username of
        Inl e \<Rightarrow> (st, Inl (ApiStorage e))
      | Inr None \<Rightarrow> (st, Inl ApiUnauthorized)
      | Inr (Some user) \<Rightarrow>
          (case verify_password argon2_verify password (au_password_hash user) of
             Inl e \<Rightarrow> (st, Inl (Gateway e))
           | Inr False \<Rightarrow> (st, Inl ApiUnauthorized)
           | Inr True \<Rightarrow>
               (let st1 = fst (touch_admin_last_login ops st (au_id user) now_ms) in
                case token_issue jwt_encode master now_iat (au_id user) (au_username user) SESSION_TTL_SECS of
                  Inl e \<Rightarrow> (st1, Inl (Gateway e))
                | Inr token \<Rightarrow> (st1, Inr \<lparr>lo_token = token, lo_username = au_username user,
                                          lo_expires_at = now_s + SESSION_TTL_SECS\<rparr>))))"

record me_response =
  me_principal :: string
  me_username :: "string option"
  me_id :: "string option"

fun admin_me :: "admin_principal \<Rightarrow> me_response" where
  "admin_me Root = \<lparr>me_principal = ''root'', me_username = None, me_id = None\<rparr>"
| "admin_me (User ident username) = \<lparr>me_principal = ''user'', me_username = Some username, me_id = Some ident\<rparr>"

definition admin_create_admin ::
  "(string \<Rightarrow> string \<Rightarrow> string + string) \<Rightarrow> string \<Rightarrow> string \<Rightarrow> int \<Rightarrow> 'm metadata_ops \<Rightarrow> string \<Rightarrow> string \<Rightarrow> 'm
     \<Rightarrow> 'm \<times> (api_error + string \<times> string)" where
  "admin_create_admin argon2 salt uuid now ops username password st =
     (if username = [] \<or> length password < 6
      then (st, Inl (ApiBadRequest ''username required, password >= 6 chars''))
      else (case hash_password argon2 salt password of
              Inl e \<Rightarrow> (st, Inl (Gateway e))
            | Inr phc \<Rightarrow>
                (case create_admin_user ops st now \<lparr>nu_id = uuid, nu_username = username, nu_password_hash = phc\<rparr> of
                   (st1, Inl e) \<Rightarrow> (st1, Inl (ApiStorage e))
                 | (st1, Inr user) \<Rightarrow> (st1, Inr (au_id user, au_username user)))))"

record admin_user_summary =
  as_id :: string
  as_username :: string
  as_created_at :: int
  as_last_login_at :: "int option"

definition admin_list_admins :: "'m metadata_ops \<Rightarrow> 'm \<Rightarrow> api_error + admin_user_summary list" where
  "admin_list_admins ops st =
     (case list_admin_users ops st of
        Inl e \<Rightarrow> Inl (ApiStorage e)
      | Inr users \<Rightarrow> Inr (map (\<lambda>u. \<lparr>as_id = au_id u, as_username = au_username u, as_created_at = au_created_at u,
                                     as_last_login_at = au_last_login_at u\<rparr>) users))"

section \<open>Prices\<close>

definition row_to_entry :: "pricing_row \<Rightarrow> pricing_entry" where
  "row_to_entry r = \<lparr>pe_provider = pr_provider r, pe_model = pr_model r, input_per_1k = pr_input_per_1k r,
     output_per_1k = pr_output_per_1k r, cached_input_per_1k = pr_cached_input_per_1k r\<rparr>"

definition merged_catalog :: "pricing_catalog \<Rightarrow> pricing_row list \<Rightarrow> pricing_catalog" where
  "merged_catalog base rows = with_overrides base (map row_to_entry rows)"

text \<open>The pricing handle is part of the state: \<open>(metadata, effective catalog)\<close>.\<close>

definition refresh_pricing ::
  "'m metadata_ops \<Rightarrow> pricing_catalog \<Rightarrow> 'm \<times> pricing_catalog \<Rightarrow> ('m \<times> pricing_catalog) \<times> (api_error + unit)" where
  "refresh_pricing ops base s =
     (case list_pricing ops (fst s) of
        Inl e \<Rightarrow> (s, Inl (ApiStorage e))
      | Inr rows \<Rightarrow> ((fst s, merged_catalog base rows), Inr ()))"

record pricing_item =
  pi_provider :: string
  pi_model :: string
  pi_input_per_1k :: f64
  pi_output_per_1k :: f64
  pi_cached_input_per_1k :: "f64 option"
  pi_source :: string

definition admin_list_pricing :: "'m metadata_ops \<Rightarrow> pricing_catalog \<Rightarrow> 'm \<Rightarrow> api_error + pricing_item list" where
  "admin_list_pricing ops base st =
     (case list_pricing ops st of
        Inl e \<Rightarrow> Inl (ApiStorage e)
      | Inr overrides \<Rightarrow>
          (let override_keys = map (\<lambda>r. (pr_provider r, pr_model r)) overrides;
               merged = merged_catalog base overrides;
               its = map (\<lambda>e. \<lparr>pi_provider = pe_provider e, pi_model = pe_model e, pi_input_per_1k = input_per_1k e,
                               pi_output_per_1k = output_per_1k e, pi_cached_input_per_1k = cached_input_per_1k e,
                               pi_source = (if (pe_provider e, pe_model e) \<in> set override_keys then ''override''
                                            else catalog_source merged (pe_provider e) (pe_model e))\<rparr>)
                         (catalog_entries merged)
           in Inr (sort_key (\<lambda>i. (pi_provider i, pi_model i)) its)))"

definition valid_price :: "f64 \<Rightarrow> bool" where
  "valid_price v \<longleftrightarrow> f64_is_finite v \<and> f64_le f64_0 v"

definition json_ok :: json where "json_ok = JObject [(''ok'', JBool True)]"

definition admin_upsert_pricing ::
  "'m metadata_ops \<Rightarrow> pricing_catalog \<Rightarrow> pricing_row \<Rightarrow> 'm \<times> pricing_catalog \<Rightarrow> ('m \<times> pricing_catalog) \<times> (api_error + json)" where
  "admin_upsert_pricing ops base body s =
     (let provider = trim (pr_provider body); model = trim (pr_model body) in
      if provider = [] \<or> model = [] then (s, Inl (ApiBadRequest ''provider and model are required''))
      else if \<not> valid_price (pr_input_per_1k body) \<or> \<not> valid_price (pr_output_per_1k body)
              \<or> \<not> (case pr_cached_input_per_1k body of None \<Rightarrow> True | Some c \<Rightarrow> valid_price c)
      then (s, Inl (ApiBadRequest ''prices must be non-negative numbers''))
      else (case upsert_pricing ops (fst s) (body\<lparr>pr_provider := provider, pr_model := model\<rparr>) of
              (st1, Inl e) \<Rightarrow> ((st1, snd s), Inl (ApiStorage e))
            | (st1, Inr _) \<Rightarrow>
                (case refresh_pricing ops base (st1, snd s) of
                   (s2, Inl e) \<Rightarrow> (s2, Inl e) | (s2, Inr _) \<Rightarrow> (s2, Inr json_ok))))"

definition admin_delete_pricing ::
  "'m metadata_ops \<Rightarrow> pricing_catalog \<Rightarrow> string \<Rightarrow> string \<Rightarrow> 'm \<times> pricing_catalog
     \<Rightarrow> ('m \<times> pricing_catalog) \<times> (api_error + json)" where
  "admin_delete_pricing ops base provider model s =
     (case delete_pricing ops (fst s) provider model of
        (st1, Inl e) \<Rightarrow> ((st1, snd s), Inl (ApiStorage e))
      | (st1, Inr _) \<Rightarrow>
          (case refresh_pricing ops base (st1, snd s) of
             (s2, Inl e) \<Rightarrow> (s2, Inl e) | (s2, Inr _) \<Rightarrow> (s2, Inr json_ok)))"

section \<open>Repricing of logged requests\<close>

record recompute_report =
  rr_updated_rows :: nat
  rr_models_matched :: nat
  rr_models_without_price :: "string list"

fun recompute_loop ::
  "'l log_ops \<Rightarrow> pricing_catalog \<Rightarrow> timestamp option \<Rightarrow> timestamp option \<Rightarrow> (string \<times> string) list \<Rightarrow> recompute_report \<Rightarrow> 'l
     \<Rightarrow> 'l \<times> (api_error + recompute_report)" where
  "recompute_loop ops catalog from until [] rep st = (st, Inr rep)"
| "recompute_loop ops catalog from until ((provider, model) # ks) rep st =
     (case lookup catalog provider model of
        None \<Rightarrow> recompute_loop ops catalog from until ks
                  (rep\<lparr>rr_models_without_price := rr_models_without_price rep @ [provider @ ''/'' @ model]\<rparr>) st
      | Some e \<Rightarrow>
          (case recompute_costs ops st provider model (input_per_1k e) (unwrap_or (cached_input_per_1k e) (input_per_1k e))
                  (output_per_1k e) from until of
             (st1, Inl err) \<Rightarrow> (st1, Inl (ApiStorage err))
           | (st1, Inr n) \<Rightarrow> recompute_loop ops catalog from until ks
                 (rep\<lparr>rr_updated_rows := rr_updated_rows rep + n, rr_models_matched := rr_models_matched rep + 1\<rparr>) st1))"

definition admin_recompute_costs ::
  "'l log_ops \<Rightarrow> pricing_catalog \<Rightarrow> timestamp option \<Rightarrow> timestamp option \<Rightarrow> 'l \<Rightarrow> 'l \<times> (api_error + recompute_report)" where
  "admin_recompute_costs ops catalog from until st =
     (case log_flush ops st of
        (st1, Inl e) \<Rightarrow> (st1, Inl (ApiStorage e))
      | (st1, Inr _) \<Rightarrow>
          (case distinct_cost_keys ops st1 from until of
             Inl e \<Rightarrow> (st1, Inl (ApiStorage e))
           | Inr ks \<Rightarrow> recompute_loop ops catalog from until ks
                 \<lparr>rr_updated_rows = 0, rr_models_matched = 0, rr_models_without_price = []\<rparr> st1))"

section \<open>Costs, budgets, routes, readiness\<close>

definition parse_dimension :: "string \<Rightarrow> aggregate_dimension option" where
  "parse_dimension s =
     (let d = to_ascii_lowercase (trim s) in
      if d = ''namespace'' then Some DimNamespace
      else if d = ''model'' then Some DimModel
      else if d = ''day'' then Some DimDay
      else if d = ''hour'' then Some DimHour
      else if d = ''gateway_key'' \<or> d = ''key'' then Some DimGatewayKey
      else None)"

definition admin_aggregate_cost ::
  "'l log_ops \<Rightarrow> string \<Rightarrow> string option \<Rightarrow> timestamp option \<Rightarrow> timestamp option \<Rightarrow> string option \<Rightarrow> 'l
     \<Rightarrow> api_error + aggregate_result" where
  "admin_aggregate_cost ops default_project project_id from until group_by st =
     (case log_aggregate ops st
             \<lparr>aq_project_id = or_else project_id (Some default_project), aq_from_ts = from, aq_to_ts = until,
              aq_group_by = List.map_filter parse_dimension (split_on (CHR '','') (unwrap_or group_by ''namespace,model''))\<rparr> of
        Inl e \<Rightarrow> Inl (ApiStorage e) | Inr r \<Rightarrow> Inr r)"

definition admin_list_budgets ::
  "(int \<Rightarrow> int) \<Rightarrow> 'c counter_ops \<Rightarrow> app_config \<Rightarrow> int \<Rightarrow> string option \<Rightarrow> 'c \<Rightarrow> budget_usage list" where
  "admin_list_budgets mday ops cfg now project_id st = current_usage mday ops cfg now project_id st"

definition admin_get_routes :: "app_config \<Rightarrow> app_config" where
  "admin_get_routes config = config"

definition readyz :: "'m metadata_ops \<Rightarrow> 'm \<Rightarrow> nat \<times> json" where
  "readyz ops st =
     (case list_projects ops st of
        Inr _ \<Rightarrow> (200, JObject [(''status'', JString ''ready'')])
      | Inl e \<Rightarrow> (503, JObject [(''error'', JString (storage_error_display e)), (''status'', JString ''not_ready'')]))"

section \<open>Minted keys\<close>

text \<open>The secret that the admin API hands out opens the gateway. After a successful create, a request that
  bears the returned secret is admitted, as the returned key and the requested (or default) project,
  until the requested expiry and refused from then on, provided no other stored key has the same keyed
  hash; and the key is recorded as administrator-made, so seeding from the configuration cannot replace it.\<close>

theorem minted_key_admitted:
  assumes "mem_keys_ok st" "admin_create_key kh rnd uuid now mem_metadata_ops master dproj req st = (st1, Inr resp)"
    and "\<And>j r. mem_key st j = Some r \<Longrightarrow> kr_hash r = derive_hash kh master (kc_secret resp) \<Longrightarrow> j = uuid"
    and "extract_bearer ts headers = Some (kc_secret resp)"
  shows "snd (gateway_key_auth ts kh mem_metadata_ops master st1 t headers) =
      (if (case cq_expires_at req of None \<Rightarrow> True | Some e \<Rightarrow> t < e)
       then Inr \<lparr>gp_key_id = kc_id resp, gp_project_id = unwrap_or (cq_project_id req) dproj\<rparr>
       else Inl ApiUnauthorized)
    \<and> mem_keys_ok st1 \<and> map_option kr_origin (mem_key st1 (kc_id resp)) = Some KEY_ORIGIN_ADMIN"
proof -
  from assms(2) obtain env k row where k: "generate_gateway_key kh rnd env master = Inr k"
      "kc_secret resp = gs_plaintext k" "kc_id resp = uuid" "mem_key st1 = (mem_key st)(uuid \<mapsto> row)"
      "kr_id row = uuid" "kr_hash row = gs_hash k" "kr_status row = ''active''" "kr_expires_at row = cq_expires_at req"
      "kr_project_id row = unwrap_or (cq_project_id req) dproj" "kr_origin row = KEY_ORIGIN_ADMIN" "hm_wf (mm_keys st1)"
    using assms(1)
    by (auto simp: admin_create_key_def mem_metadata_ops_def mem_create_key_def Let_def mem_key_def fun_eq_iff mem_keys_ok_def
        split: option.splits sum.splits)
  from k(1,2) have hash: "gs_hash k = derive_hash kh master (kc_secret resp)"
      and parse: "parse_gateway_key (kc_secret resp) \<noteq> None"
    by (auto simp: generate_gateway_key_def Let_def parse_gateway_key_prefix)
  have ok: "mem_keys_ok st1"
    using assms(1) k(4,5,11) by (auto simp: mem_keys_ok_def mem_key_def fun_eq_iff split: if_splits)
  have found: "\<exists>r. find_key_by_hash mem_metadata_ops st1 h = Inr r" for h
    by (simp add: mem_metadata_ops_def mem_find_key_by_hash_def)
  have "snd (gateway_key_auth ts kh mem_metadata_ops master st1 t headers) =
      (if row_usable t row then Inr \<lparr>gp_key_id = kr_id row, gp_project_id = kr_project_id row\<rparr> else Inl ApiUnauthorized)"
  proof (rule mem_keys.auth_complete [OF ok assms(4) parse found, of uuid])
    show "mem_key st1 uuid = Some row" using k(4) by simp
    show "kr_hash row = derive_hash kh master (kc_secret resp)" using k(6) hash by simp
    show "mem_key st1 j = Some r \<Longrightarrow> kr_hash r = derive_hash kh master (kc_secret resp) \<Longrightarrow> j = uuid" for j r
      using k(4) assms(3) by (auto split: if_splits)
  qed
  with k ok show ?thesis by (simp add: row_usable_def split: option.split)
qed

definition demo_create_key :: create_key_request where
  "demo_create_key = \<lparr>cq_name = ''ci'', cq_env = ''live'', cq_project_id = None, cq_scopes = [], cq_expires_at = Some 100\<rparr>"

theorem minted_key_admitted_witness:
  "\<exists>st1 resp. admin_create_key (\<lambda>m p. p) ''x'' ''u1'' 0 mem_metadata_ops [] ''default'' demo_create_key mem_meta_new = (st1, Inr resp)
     \<and> snd (gateway_key_auth Some (\<lambda>m p. p) mem_metadata_ops [] st1 5 [(''authorization'', ''Bearer sk-gw-live-x'')])
         = Inr \<lparr>gp_key_id = ''u1'', gp_project_id = ''default''\<rparr>"
proof -
  obtain st1 resp where c: "admin_create_key (\<lambda>m p. p) ''x'' ''u1'' 0 mem_metadata_ops [] ''default'' demo_create_key mem_meta_new
      = (st1, Inr resp)" "kc_secret resp = ''sk-gw-live-x''" "kc_id resp = ''u1''"
    by (simp add: admin_create_key_def demo_create_key_def key_env_parse_def generate_gateway_key_def mem_metadata_ops_def
        mem_create_key_def Let_def PREFIX_LIVE_def SECRET_LEN_def)
  have ok: "mem_keys_ok mem_meta_new" by (simp add: mem_keys_ok_def mem_meta_new_def)
  have none: "mem_key mem_meta_new j = Some r \<Longrightarrow> kr_hash r = derive_hash (\<lambda>m p. p) [] (kc_secret resp) \<Longrightarrow> j = ''u1''" for j r
    by (simp add: mem_key_def mem_meta_new_def)
  have "extract_bearer Some [(''authorization'', ''Bearer sk-gw-live-x'')] = Some (kc_secret resp)" using c(2) demo_token by simp
  from minted_key_admitted [OF ok c(1) none this, where t = 5] c(3)
  have "snd (gateway_key_auth Some (\<lambda>m p. p) mem_metadata_ops [] st1 5 [(''authorization'', ''Bearer sk-gw-live-x'')])
      = Inr \<lparr>gp_key_id = ''u1'', gp_project_id = ''default''\<rparr>" by (simp add: demo_create_key_def)
  with c(1) show ?thesis by blast
qed

text \<open>Revocation through the API: only keys that administrators made.\<close>

lemma admin_revoke_result:
  assumes "mem_keys_ok st"
  shows "admin_revoke_key mem_metadata_ops now i st =
    (case mem_key st i of
       None \<Rightarrow> (st, Inl (ApiStorage SNotFound))
     | Some row \<Rightarrow>
         if kr_origin row = KEY_ORIGIN_CONFIG
         then (st, Inl (ApiBadRequest (''key '' @ quoted i
                 @ '' is managed by the config file; remove it from gateway_keys[] to revoke'')))
         else (fst (mem_revoke_key st now i), Inr (JObject [(''id'', JString i), (''status'', JString ''revoked'')])))"
  by (auto simp: admin_revoke_key_def mem_metadata_ops_def mem_get_key_def mem_key_def mem_revoke_key_def split: option.splits)

section \<open>Sessions\<close>

text \<open>Whatever the store, the token of a successful login is that of a user the store found, and it authenticates that user.\<close>

lemma login_authenticates:
  assumes "admin_login argon2_verify jwt_encode ops master now_ms now_iat now_s username password st = (st', Inr resp)"
    and "\<And>c tok now. jwt_encode master c = Inr tok \<Longrightarrow> now < int (at_exp c) \<Longrightarrow> jwt_decode master now tok = Some c"
    and "0 \<le> now_iat" "now_iat < 2 ^ 62" "now < now_iat + 43200" "extract_bearer ts headers = Some (lo_token resp)"
  obtains user where "find_admin_user ops st username = Inr (Some user)" "argon2_verify password (au_password_hash user) = ArgonOk"
    and "admin_auth ts jwt_decode root_tok master now headers
      = Inr (if root_tok = Some (lo_token resp) then Root else User (au_id user) (au_username user))"
proof -
  from assms(1) obtain user where u: "find_admin_user ops st username = Inr (Some user)"
      "verify_password argon2_verify password (au_password_hash user) = Inr True"
      "token_issue jwt_encode master now_iat (au_id user) (au_username user) SESSION_TTL_SECS = Inr (lo_token resp)"
    by (auto simp: admin_login_def Let_def split: sum.splits option.splits bool.splits)
  have pw: "argon2_verify password (au_password_hash user) = ArgonOk"
    using u(2) by (auto simp: verify_password_def split: argon_result.splits)
  let ?c = "\<lparr>at_sub = au_id user, at_username = au_username user,
      at_exp = i64_as_u64 (wrap_i64 (now_iat + SESSION_TTL_SECS)), at_iat = i64_as_u64 now_iat\<rparr>"
  have enc: "jwt_encode master ?c = Inr (lo_token resp)"
    using u(3) by (auto simp: token_issue_def Let_def split: sum.splits)
  have "in_i64 (now_iat + SESSION_TTL_SECS)" using assms(3,4) by (simp add: in_i64_def SESSION_TTL_SECS_def)
  then have "int (at_exp ?c) = now_iat + 43200"
    using assms(3) by (simp add: i64_as_u64_nonneg SESSION_TTL_SECS_def)
  with assms(2) [OF enc] assms(5) have "jwt_decode master now (lo_token resp) = Some ?c" by simp
  with that [OF u(1) pw] assms(6) show thesis by (auto simp: admin_auth_def token_verify_def)
qed

text \<open>A login succeeds only for a stored administrator whose password Argon2 accepts, and the token it returns
  is a session of exactly that administrator: until it expires, twelve hours after it was issued, a request that
  bears it is authenticated with that id and name. The hypothesis on the JWT library is that decoding a token
  before its expiry gives back the claims that were encoded.\<close>

theorem login_session:
  assumes "admin_login argon2_verify jwt_encode mem_metadata_ops master now_ms now_iat now_s username password st = (st', Inr resp)"
    and "\<And>c tok now. jwt_encode master c = Inr tok \<Longrightarrow> now < int (at_exp c) \<Longrightarrow> jwt_decode master now tok = Some c"
    and "0 \<le> now_iat" "now_iat < 2 ^ 62" "now < now_iat + 43200"
    and "extract_bearer ts headers = Some (lo_token resp)" "root_tok \<noteq> Some (lo_token resp)"
  shows "\<exists>user \<in> set (hm_values (mm_admins st)). au_username user = username
    \<and> argon2_verify password (au_password_hash user) = ArgonOk
    \<and> admin_auth ts jwt_decode root_tok master now headers = Inr (User (au_id user) username)"
proof (rule login_authenticates [OF assms(1) _ assms(3-6), where jwt_decode = jwt_decode and root_tok = root_tok])
  show "jwt_encode master c = Inr tok \<Longrightarrow> now < int (at_exp c) \<Longrightarrow> jwt_decode master now tok = Some c" for c tok now
    by (rule assms(2))
next
  fix user
  assume u: "find_admin_user mem_metadata_ops st username = Inr (Some user)" "argon2_verify password (au_password_hash user) = ArgonOk"
    "admin_auth ts jwt_decode root_tok master now headers
      = Inr (if root_tok = Some (lo_token resp) then Root else User (au_id user) (au_username user))"
  from u(1) have "user \<in> set (hm_values (mm_admins st))" "au_username user = username"
    by (auto simp: mem_metadata_ops_def mem_find_admin_user_def find_Some_iff)
  with u(2,3) assms(7) show ?thesis by (intro bexI [of _ user]) auto
qed

definition demo_claims :: admin_token_claims where
  "demo_claims = \<lparr>at_sub = ''a1'', at_username = ''ann'', at_exp = 43200, at_iat = 0\<rparr>"

definition demo_admins :: mem_meta where
  "demo_admins = mem_meta_new\<lparr>mm_admins := [(''a1'', \<lparr>au_id = ''a1'', au_username = ''ann'', au_password_hash = ''secret'',
     au_created_at = 0, au_last_login_at = None\<rparr>)]\<rparr>"

theorem login_session_witness:
  "\<exists>st' resp. admin_login (\<lambda>p h. if p = h then ArgonOk else ArgonMismatch) (\<lambda>m c. if c = demo_claims then Inr ''tok'' else Inl [])
      mem_metadata_ops [] 0 0 0 ''ann'' ''secret'' demo_admins = (st', Inr resp)
    \<and> admin_auth Some (\<lambda>m now t. if t = ''tok'' then Some demo_claims else None) None [] 5 [(''authorization'', ''Bearer tok'')]
        = Inr (User ''a1'' ''ann'')"
proof -
  let ?enc = "\<lambda>(m::bytes) c. if c = demo_claims then Inr ''tok'' else Inl []"
  let ?dec = "\<lambda>(m::bytes) (now::int) t. if t = ''tok'' then Some demo_claims else None"
  obtain st' resp where l: "admin_login (\<lambda>p h. if p = h then ArgonOk else ArgonMismatch) ?enc
      mem_metadata_ops [] 0 0 0 ''ann'' ''secret'' demo_admins = (st', Inr resp)" "lo_token resp = ''tok''"
    by (simp add: admin_login_def mem_metadata_ops_def mem_find_admin_user_def demo_admins_def mem_meta_new_def hm_values_def
        verify_password_def token_issue_def demo_claims_def SESSION_TTL_SECS_def i64_as_u64_def wrap_i64_def Let_def)
  have dec: "?enc m c = Inr tok \<Longrightarrow> ?dec m now tok = Some c" for m c tok now by (auto split: if_splits)
  have "extract_bearer Some [(''authorization'', ''Bearer tok'')] = Some (lo_token resp)"
    using l(2) by (simp add: extract_bearer_def hdr_str_def hdr_get_def strip_prefix_def trim_def is_whitespace_def
      is_cont_byte_def byte_def Let_def)
  from login_session [OF l(1), of ?dec 5 Some _ None, OF dec _ _ _ this]
  have "\<exists>user \<in> set (hm_values (mm_admins demo_admins)).
      admin_auth Some ?dec None [] 5 [(''authorization'', ''Bearer tok'')] = Inr (User (au_id user) ''ann'')" by auto
  then have "admin_auth Some ?dec None [] 5 [(''authorization'', ''Bearer tok'')] = Inr (User ''a1'' ''ann'')"
    by (simp add: demo_admins_def hm_values_def)
  with l(1) show ?thesis by blast
qed

section \<open>Effective prices\<close>

definition mem_pricing_ok :: "mem_meta \<Rightarrow> bool" where
  "mem_pricing_ok st \<longleftrightarrow> hm_wf (mm_pricing st)
     \<and> (\<forall>k r. (k, r) \<in> set (mm_pricing st) \<longrightarrow> k = (pr_provider r, pr_model r))"

text \<open>The effective catalog is the base with the stored rows on top.\<close>

definition pricing_synced :: "pricing_catalog \<Rightarrow> mem_meta \<times> pricing_catalog \<Rightarrow> bool" where
  "pricing_synced base s \<longleftrightarrow> mem_pricing_ok (fst s) \<and> snd s = merged_catalog base (hm_values (mm_pricing (fst s)))"

lemma row_to_entry_key [simp]: "pe_provider (row_to_entry r) = pr_provider r" "pe_model (row_to_entry r) = pr_model r"
  by (simp_all add: row_to_entry_def)

lemma insert_entries_rows:
  assumes "distinct (map fst m)" "\<And>k r. (k, r) \<in> set m \<Longrightarrow> k = (pr_provider r, pr_model r)"
  shows "hm_get (insert_entries (map row_to_entry (map snd m)) b) k =
    (case map_of m k of Some r \<Rightarrow> Some (row_to_entry r) | None \<Rightarrow> hm_get b k)"
  using assms
proof (induction m arbitrary: b)
  case (Cons a m)
  obtain k' r where a: "a = (k', r)" by fastforce
  with Cons.prems(2) have k': "k' = (pr_provider r, pr_model r)" by auto
  have "map_of m k' = None" using Cons.prems(1) a by (auto simp: map_of_eq_None_iff)
  moreover have "hm_get (insert_entries (map row_to_entry (map snd m)) b') k =
      (case map_of m k of Some r \<Rightarrow> Some (row_to_entry r) | None \<Rightarrow> hm_get b' k)" for b'
    using Cons.IH Cons.prems by auto
  ultimately show ?case
    by (auto simp: a insert_entries_def k' split: option.split)
qed (simp add: insert_entries_def)

lemma merged_by_key:
  assumes "mem_pricing_ok st"
  shows "hm_get (by_key (merged_catalog base (hm_values (mm_pricing st)))) k =
    (case hm_get (mm_pricing st) k of Some r \<Rightarrow> Some (row_to_entry r) | None \<Rightarrow> hm_get (by_key base) k)"
proof -
  have "distinct (map fst (mm_pricing st))" "\<And>k r. (k, r) \<in> set (mm_pricing st) \<Longrightarrow> k = (pr_provider r, pr_model r)"
    using assms unfolding mem_pricing_ok_def hm_wf_def by blast+
  from insert_entries_rows [OF this, of "by_key base" k] show ?thesis
    by (simp add: merged_catalog_def with_overrides_def hm_values_def hm_get_def)
qed

lemma mem_pricing_okI:
  assumes "hm_wf (mm_pricing st)" "\<And>k r. hm_get (mm_pricing st) k = Some r \<Longrightarrow> k = (pr_provider r, pr_model r)"
  shows "mem_pricing_ok st"
  using assms(1) unfolding mem_pricing_ok_def
  by (intro conjI allI impI, assumption) (rule assms(2), simp only: hm_in_set [OF assms(1), symmetric])

lemma mem_pricing_okD:
  assumes "mem_pricing_ok st"
  shows "hm_wf (mm_pricing st)" "hm_get (mm_pricing st) k = Some r \<Longrightarrow> k = (pr_provider r, pr_model r)"
proof -
  show wf: "hm_wf (mm_pricing st)" using assms by (simp only: mem_pricing_ok_def)
  show "k = (pr_provider r, pr_model r)" if "hm_get (mm_pricing st) k = Some r"
    using assms that by (simp only: mem_pricing_ok_def hm_in_set [OF wf, symmetric])
qed

lemma mem_pricing_ok_update:
  assumes "mem_pricing_ok st"
  shows "mem_pricing_ok (fst (mem_upsert_pricing st row))" "mem_pricing_ok (fst (mem_delete_pricing st p m))"
proof -
  note wf = mem_pricing_okD [OF assms]
  show "mem_pricing_ok (fst (mem_upsert_pricing st row))"
  proof (rule mem_pricing_okI)
    show "hm_wf (mm_pricing (fst (mem_upsert_pricing st row)))" using wf(1) by (simp add: mem_upsert_pricing_def)
    show "k = (pr_provider r, pr_model r)" if "hm_get (mm_pricing (fst (mem_upsert_pricing st row))) k = Some r" for k r
      using that wf(2) [of k r] by (cases "k = (pr_provider row, pr_model row)") (simp_all add: mem_upsert_pricing_def)
  qed
  show "mem_pricing_ok (fst (mem_delete_pricing st p m))"
  proof (rule mem_pricing_okI)
    show "hm_wf (mm_pricing (fst (mem_delete_pricing st p m)))" using wf(1) by (simp add: mem_delete_pricing_def)
    show "k = (pr_provider r, pr_model r)" if "hm_get (mm_pricing (fst (mem_delete_pricing st p m))) k = Some r" for k r
      using that wf(2) [of k r] by (cases "k = (p, m)") (simp_all add: mem_delete_pricing_def)
  qed
qed

text \<open>A price set through the admin API is the price that requests are charged from then on, and removing it
  restores the base catalog. A successful upsert stores only finite non-negative prices under the trimmed
  names, makes a lookup of that provider and model return exactly them, and changes no other override; a delete makes
  the entry what the base catalog says. Both keep the effective catalog equal to the base with the stored rows on top.\<close>

theorem price_change_effective:
  assumes "pricing_synced base s"
  shows "(\<forall>body s' j. admin_upsert_pricing mem_metadata_ops base body s = (s', Inr j) \<longrightarrow>
      (let p = trim (pr_provider body); m = trim (pr_model body) in
       lookup (snd s') p m = Some (row_to_entry (body\<lparr>pr_provider := p, pr_model := m\<rparr>))
       \<and> entry_ok (row_to_entry body) \<and> pricing_synced base s'
       \<and> (\<forall>k. k \<noteq> (p, m) \<longrightarrow> hm_get (by_key (snd s')) k = hm_get (by_key (snd s)) k)))
    \<and> (\<forall>p m s' j. admin_delete_pricing mem_metadata_ops base p m s = (s', Inr j) \<longrightarrow>
       hm_get (by_key (snd s')) (p, m) = hm_get (by_key base) (p, m) \<and> pricing_synced base s'
       \<and> (\<forall>k. k \<noteq> (p, m) \<longrightarrow> hm_get (by_key (snd s')) k = hm_get (by_key (snd s)) k))"
proof (intro conjI allI impI)
  fix body s' j
  assume u: "admin_upsert_pricing mem_metadata_ops base body s = (s', Inr j)"
  let ?p = "trim (pr_provider body)" and ?m = "trim (pr_model body)"
  let ?row = "body\<lparr>pr_provider := ?p, pr_model := ?m\<rparr>"
  have s': "s' = (fst (mem_upsert_pricing (fst s) ?row),
      merged_catalog base (hm_values (mm_pricing (fst (mem_upsert_pricing (fst s) ?row)))))"
    using u by (auto simp: admin_upsert_pricing_def mem_metadata_ops_def mem_upsert_pricing_def refresh_pricing_def
        mem_list_pricing_def Let_def split: if_splits)
  have ok: "entry_ok (row_to_entry body)"
    using u by (auto simp: admin_upsert_pricing_def entry_ok_def price_ok_def valid_price_def row_to_entry_def Let_def
        split: if_splits option.splits)
  have pok: "mem_pricing_ok (fst s)" "snd s = merged_catalog base (hm_values (mm_pricing (fst s)))"
    using assms by (simp_all add: pricing_synced_def)
  have key: "hm_get (by_key (snd s')) k = (if k = (?p, ?m) then Some (row_to_entry ?row) else hm_get (by_key (snd s)) k)" for k
    using merged_by_key [OF mem_pricing_ok_update(1) [OF pok(1)], of base ?row k] merged_by_key [OF pok(1), of base k]
    by (simp add: s' pok(2) mem_upsert_pricing_def)
  then have "lookup (snd s') ?p ?m = Some (row_to_entry ?row)" by (simp add: lookup_def)
  with key ok mem_pricing_ok_update(1) [OF pok(1), of ?row] show "let p = ?p; m = ?m in
       lookup (snd s') p m = Some (row_to_entry (body\<lparr>pr_provider := p, pr_model := m\<rparr>))
       \<and> entry_ok (row_to_entry body) \<and> pricing_synced base s'
       \<and> (\<forall>k. k \<noteq> (p, m) \<longrightarrow> hm_get (by_key (snd s')) k = hm_get (by_key (snd s)) k)"
    by (simp add: Let_def pricing_synced_def s')
next
  fix p m s' j
  assume d: "admin_delete_pricing mem_metadata_ops base p m s = (s', Inr j)"
  have s': "s' = (fst (mem_delete_pricing (fst s) p m), merged_catalog base (hm_values (mm_pricing (fst (mem_delete_pricing (fst s) p m)))))"
    using d by (auto simp: admin_delete_pricing_def mem_metadata_ops_def mem_delete_pricing_def refresh_pricing_def
        mem_list_pricing_def)
  have pok: "mem_pricing_ok (fst s)" "snd s = merged_catalog base (hm_values (mm_pricing (fst s)))"
    using assms by (simp_all add: pricing_synced_def)
  have key: "hm_get (by_key (snd s')) k = (if k = (p, m) then hm_get (by_key base) k else hm_get (by_key (snd s)) k)" for k
    using merged_by_key [OF mem_pricing_ok_update(2) [OF pok(1)], of base p m k] merged_by_key [OF pok(1), of base k]
    by (simp add: s' pok(2) mem_delete_pricing_def)
  then show "hm_get (by_key (snd s')) (p, m) = hm_get (by_key base) (p, m)" by simp
  show "pricing_synced base s'" using mem_pricing_ok_update(2) [OF pok(1), of p m] by (simp add: pricing_synced_def s')
  show "hm_get (by_key (snd s')) k = hm_get (by_key (snd s)) k" if "k \<noteq> (p, m)" for k using key that by simp
qed

theorem price_change_effective_witness:
  "let s = fst (admin_upsert_pricing mem_metadata_ops catalog_default \<lparr>pr_provider = ''p'', pr_model = ''m'',
      pr_input_per_1k = Finite 1, pr_output_per_1k = Finite 2, pr_cached_input_per_1k = None\<rparr> (mem_meta_new, catalog_default))
   in lookup (snd s) ''p'' ''m'' \<noteq> None"
proof -
  let ?body = "\<lparr>pr_provider = ''p'', pr_model = ''m'', pr_input_per_1k = Finite 1, pr_output_per_1k = Finite 2,
      pr_cached_input_per_1k = None\<rparr>"
  have sync: "pricing_synced catalog_default (mem_meta_new, catalog_default)"
    by (simp add: pricing_synced_def mem_pricing_ok_def mem_meta_new_def merged_catalog_def with_overrides_def
        insert_entries_def hm_values_def)
  have t: "trim ''p'' = ''p''" "trim ''m'' = ''m''" by (simp_all add: trim_def is_cont_byte_def is_whitespace_def byte_def)
  obtain s' j where u: "admin_upsert_pricing mem_metadata_ops catalog_default ?body (mem_meta_new, catalog_default) = (s', Inr j)"
    by (simp add: admin_upsert_pricing_def t valid_price_def mem_metadata_ops_def mem_upsert_pricing_def refresh_pricing_def
        mem_list_pricing_def Let_def)
  from conjunct1 [OF price_change_effective [OF sync], rule_format, OF u] u t show ?thesis by (simp add: Let_def)
qed

section \<open>Repricing\<close>

text \<open>The current price of a log line, when its provider and model have one.\<close>

definition current_price :: "pricing_catalog \<Rightarrow> request_log_record \<Rightarrow> pricing_entry option" where
  "current_price cat r = Option.bind (cost_key r) (\<lambda>(p, m). lookup cat p m)"

definition repriced :: "pricing_entry \<Rightarrow> request_log_record \<Rightarrow> request_log_record" where
  "repriced e = recompute_row (input_per_1k e) (unwrap_or (cached_input_per_1k e) (input_per_1k e)) (output_per_1k e)"

text \<open>What a sweep over the pairs \<open>ks\<close> makes of a log line.\<close>

definition sweep :: "pricing_catalog \<Rightarrow> timestamp option \<Rightarrow> timestamp option \<Rightarrow> (string \<times> string) list \<Rightarrow> request_log_record \<Rightarrow> request_log_record" where
  "sweep cat from until ks r =
     (if has_tokens r \<and> in_range from until r \<and> (\<exists>k \<in> set ks. cost_key r = Some k)
      then (case current_price cat r of Some e \<Rightarrow> repriced e r | None \<Rightarrow> r) else r)"

definition sweep_count :: "pricing_catalog \<Rightarrow> timestamp option \<Rightarrow> timestamp option \<Rightarrow> (string \<times> string) list \<Rightarrow> request_log_record list \<Rightarrow> nat" where
  "sweep_count cat from until ks rs = length (filter (\<lambda>r. has_tokens r \<and> in_range from until r
     \<and> (\<exists>k \<in> set ks. cost_key r = Some k) \<and> current_price cat r \<noteq> None) rs)"

lemma repriced_keeps [simp]:
  "has_tokens (repriced e r) = has_tokens r" "in_range from until (repriced e r) = in_range from until r"
  "cost_key (repriced e r) = cost_key r" "current_price cat (repriced e r) = current_price cat r"
  by (simp_all add: repriced_def recompute_row_def Let_def has_tokens_def in_range_def cost_key_def log_provider_def
      current_price_def)

lemma selects_key: "recompute_selects p m from until r \<longleftrightarrow> has_tokens r \<and> in_range from until r \<and> cost_key r = Some (p, m)"
  by (auto simp: recompute_selects_def cost_key_def split: bind_splits)

lemma recompute_loop_mem:
  assumes "distinct ks"
  shows "recompute_loop mem_log_ops cat from until ks rep st =
    (st\<lparr>ml_records := map (sweep cat from until ks) (ml_records st)\<rparr>,
     Inr \<lparr>rr_updated_rows = rr_updated_rows rep + sweep_count cat from until ks (ml_records st),
          rr_models_matched = rr_models_matched rep + length (filter (\<lambda>(p, m). lookup cat p m \<noteq> None) ks),
          rr_models_without_price = rr_models_without_price rep
            @ map (\<lambda>(p, m). p @ ''/'' @ m) (filter (\<lambda>(p, m). lookup cat p m = None) ks)\<rparr>)"
  using assms
proof (induction ks arbitrary: rep st)
  case Nil
  then show ?case by (simp add: sweep_def sweep_count_def)
next
  case (Cons k ks)
  obtain p m where k: "k = (p, m)" by fastforce
  show ?case
  proof (cases "lookup cat p m")
    case None
    have "sweep cat from until (k # ks) r = sweep cat from until ks r" for r
      using None k by (auto simp: sweep_def current_price_def)
    moreover have "sweep_count cat from until (k # ks) rs = sweep_count cat from until ks rs" for rs
      using None k by (auto simp: sweep_count_def current_price_def intro!: arg_cong [where f = length] filter_cong)
    ultimately show ?thesis using Cons None k by simp
  next
    case (Some e)
    let ?f = "\<lambda>r. if recompute_selects p m from until r then repriced e r else r"
    have notin: "(p, m) \<notin> set ks" using Cons.prems k by simp
    have sw: "sweep cat from until ks (?f r) = sweep cat from until ((p, m) # ks) r" for r
      using notin Some by (auto simp: sweep_def selects_key current_price_def)
    have cnt: "length (filter (recompute_selects p m from until) rs) + sweep_count cat from until ks (map ?f rs)
        = sweep_count cat from until ((p, m) # ks) rs" for rs
    proof (induction rs)
      case (Cons r rs)
      then show ?case using notin Some by (auto simp: sweep_count_def selects_key current_price_def)
    qed (simp add: sweep_count_def)
    have "recompute_costs mem_log_ops st p m (input_per_1k e) (unwrap_or (cached_input_per_1k e) (input_per_1k e)) (output_per_1k e)
        from until = (st\<lparr>ml_records := map ?f (ml_records st)\<rparr>, Inr (length (filter (recompute_selects p m from until) (ml_records st))))"
      by (simp add: mem_log_ops_def mem_recompute_costs_def repriced_def Let_def)
    with Cons Some k show ?thesis
      by (simp add: sw cnt [symmetric] comp_def)
  qed
qed


end
