(* ===== verification/Startup.thy ===== *)
theory Startup
  imports Sql_Correct Admin_Api
begin

text \<open>
  The start of the process (\<open>gateway-bin/src/main.rs\<close>) and the task that watches the configuration file
  (\<open>gateway-api/src/reload.rs\<close>). Everything the start takes from its surroundings, the environment variables, files, the price feed,
  the listener, is the record \<open>boot_env\<close>; \<open>opens\<close> opens the stores of a storage profile.
\<close>

section \<open>Surroundings and errors\<close>

record boot_env =
  be_env :: "string \<Rightarrow> string option"
  be_read_file :: "string \<Rightarrow> string + string"
  be_from_yaml :: "string \<Rightarrow> string + app_config"
  be_canonicalize :: "string \<Rightarrow> string option"
  be_b64 :: "string \<Rightarrow> string + bytes"
  be_keyed_hash :: keyed_hash_fn
  be_price_file :: "string \<Rightarrow> (string + string) option"
  be_parse_prices :: "string \<Rightarrow> string + pricing_entry list"
  be_fetch :: "string \<Rightarrow> string + string"
  be_models :: "string \<Rightarrow> string + json list"
  be_model :: "json \<Rightarrow> or_model option"
  be_listen :: "string \<Rightarrow> string + string"

datatype boot_error =
    LoadConfig string gateway_error
  | WorkersWithLite
  | MasterKeyInvalid gateway_error
  | MasterKeyUnset
  | AdminTokenVar
  | OpenStores string
  | DefaultProject storage_error
  | SeedKeys string
  | EngineError gateway_error
  | PriceFile string gateway_error
  | PriceOverrides storage_error
  | Listen string

definition MASTER_KEY_ENV :: string where "MASTER_KEY_ENV = ''GATEWAY_MASTER_KEY''"

section \<open>Checks\<close>

definition read_admin_token :: "(string \<Rightarrow> string option) \<Rightarrow> app_config \<Rightarrow> boot_error + string option" where
  "read_admin_token env config =
     (let raw = trim (root_token (admin config)) in
      if raw = [] then Inr None
      else case strip_prefix raw ''env://'' of
             Some var \<Rightarrow>
               if var = [] then Inl AdminTokenVar
               else Inr (Option.bind (env var) (\<lambda>v. if v = [] then None else Some v))
           | None \<Rightarrow> Inr (Some raw))"

definition load_master_key :: "(string \<Rightarrow> string + bytes) \<Rightarrow> (string \<Rightarrow> string option) \<Rightarrow> boot_error + bytes" where
  "load_master_key b64 env =
     (case env MASTER_KEY_ENV of
        Some v \<Rightarrow> (case from_base64 b64 v of Inl e \<Rightarrow> Inl (MasterKeyInvalid e) | Inr k \<Rightarrow> Inr k)
      | None \<Rightarrow> Inl MasterKeyUnset)"

definition str_contains :: "string \<Rightarrow> string \<Rightarrow> bool" where
  "str_contains s p = list_ex (prefix p) (suffixes s)"

definition is_likely_networked :: "(string \<Rightarrow> string option) \<Rightarrow> string \<Rightarrow> bool" where
  "is_likely_networked canonicalize path =
     (case canonicalize path of
        Some canon \<Rightarrow> (let s = to_ascii_lowercase canon in str_contains s ''/nfs/'' \<or> str_contains s ''/smb/'')
      | None \<Rightarrow> False)"

text \<open>\<open>str::parse::<u32>\<close>.\<close>

definition parse_u32 :: "string \<Rightarrow> nat option" where
  "parse_u32 s = Option.bind (parse_u64 s) (\<lambda>n. if n \<le> 4294967295 then Some n else None)"

text \<open>The value says whether the warning about a network file system was logged.\<close>

definition validate_runtime_environment ::
  "(string \<Rightarrow> string option) \<Rightarrow> (string \<Rightarrow> string option) \<Rightarrow> app_config \<Rightarrow> boot_error + bool" where
  "validate_runtime_environment env canonicalize config =
     (case storage config of
        Lite sqlite cache \<Rightarrow>
          if 1 < unwrap_or (Option.bind (env ''GATEWAY_WORKERS'') parse_u32) 1 then Inl WorkersWithLite
          else Inr (is_likely_networked canonicalize (sqlite_path sqlite))
      | _ \<Rightarrow> Inr False)"

section \<open>Stores\<close>

text \<open>Which stores \<open>build_stores\<close> opens: SQLite with in-memory counters, PostgreSQL with Redis, or everything in memory with a
  log of 10000 records.\<close>

datatype store_choice = LiteStores string nat | StandardStores string nat string | MemoryStores nat

definition store_choice_of :: "app_config \<Rightarrow> store_choice" where
  "store_choice_of config =
     (case storage config of
        Lite sqlite cache \<Rightarrow> LiteStores (sqlite_path sqlite) (l1_memory_mb cache)
      | Standard pg redis cache \<Rightarrow> StandardStores (pg_url pg) (pg_max_connections pg) (redis_url redis)
      | Memory cache \<Rightarrow> MemoryStores 10000)"

definition build_stores :: "(store_choice \<Rightarrow> string + 'm) \<Rightarrow> app_config \<Rightarrow> boot_error + 'm" where
  "build_stores opens config = (case opens (store_choice_of config) of Inl e \<Rightarrow> Inl (OpenStores e) | Inr st \<Rightarrow> Inr st)"

definition seed_default_project :: "'m metadata_ops \<Rightarrow> int \<Rightarrow> string \<Rightarrow> 'm \<Rightarrow> 'm \<times> unit sresult" where
  "seed_default_project ops now project_id st =
     (case get_project ops st project_id of
        Inl e \<Rightarrow> (st, Inl e)
      | Inr (Some p) \<Rightarrow> (st, Inr ())
      | Inr None \<Rightarrow>
          (case create_project ops st now \<lparr>np_id = project_id, np_name = project_id\<rparr> of
             (st1, Inl e) \<Rightarrow> (st1, Inl e)
           | (st1, Inr p) \<Rightarrow> (st1, Inr ())))"

section \<open>Prices\<close>

definition MODELS_URL :: string where "MODELS_URL = ''https://openrouter.ai/api/v1/models''"

definition from_openrouter ::
  "(string \<Rightarrow> string + string) \<Rightarrow> (string \<Rightarrow> string + json list) \<Rightarrow> (json \<Rightarrow> or_model option) \<Rightarrow> gateway_error + pricing_catalog" where
  "from_openrouter get_url models model =
     (case get_url MODELS_URL of Inl e \<Rightarrow> Inl (Http e) | Inr json \<Rightarrow> parse_openrouter models model json)"

definition remote_prices :: "boot_env \<Rightarrow> pricing_catalog" where
  "remote_prices be =
     (case from_openrouter (be_fetch be) (be_models be) (be_model be) of Inl e \<Rightarrow> catalog_default | Inr cat \<Rightarrow> cat)"

section \<open>The start\<close>

record app_handles =
  ah_config :: app_config
  ah_engine :: proxy_engine
  ah_default_project_id :: string
  ah_admin_root_token :: "string option"
  ah_master_key :: bytes
  ah_pricing :: pricing_catalog
  ah_pricing_base :: pricing_catalog
  ah_addr :: string

text \<open>From the opened stores on: seed, build the engine, load the prices, listen.\<close>

definition boot_stores ::
  "boot_env \<Rightarrow> 'm metadata_ops \<Rightarrow> int \<Rightarrow> string \<Rightarrow> app_config \<Rightarrow> bytes \<Rightarrow> string option \<Rightarrow> 'm \<Rightarrow> 'm \<times> (boot_error + app_handles)" where
  "boot_stores be ops now prices config master token st =
     (let dflt = default_project_id (server config) in
      case seed_default_project ops now dflt st of
        (st1, Inl e) \<Rightarrow> (st1, Inl (DefaultProject e))
      | (st1, Inr _) \<Rightarrow>
          (case seed_apply (be_env be) (be_keyed_hash be) ops master now dflt (gateway_keys config) st1 of
             (st2, Inl e) \<Rightarrow> (st2, Inl (SeedKeys e))
           | (st2, Inr _) \<Rightarrow>
               (st2,
                case new_engine (be_env be) config of
                  Inl e \<Rightarrow> Inl (EngineError e)
                | Inr engine \<Rightarrow>
                    (case catalog_from_optional_path (be_parse_prices be) (be_price_file be) prices of
                       Inl e \<Rightarrow> Inl (PriceFile prices e)
                     | Inr file_prices \<Rightarrow>
                         (let base = with_overrides (remote_prices be) (catalog_entries file_prices) in
                          case list_pricing ops st2 of
                            Inl e \<Rightarrow> Inl (PriceOverrides e)
                          | Inr overrides \<Rightarrow>
                              (case be_listen be (bind (server config)) of
                                 Inl e \<Rightarrow> Inl (Listen e)
                               | Inr addr \<Rightarrow>
                                   Inr \<lparr>ah_config = config, ah_engine = engine, ah_default_project_id = dflt,
                                        ah_admin_root_token = token, ah_master_key = master,
                                        ah_pricing = merged_catalog base overrides, ah_pricing_base = base, ah_addr = addr\<rparr>))))))"

text \<open>The whole start: the stores are opened only after the configuration, the master key and the admin token were accepted.\<close>

definition boot ::
  "boot_env \<Rightarrow> 'm metadata_ops \<Rightarrow> (store_choice \<Rightarrow> string + 'm) \<Rightarrow> int \<Rightarrow> string \<Rightarrow> string \<Rightarrow> 'm option \<times> (boot_error + app_handles)" where
  "boot be ops opens now path prices =
     (case load_from_path (be_from_yaml be) (be_read_file be) path of
        Inl e \<Rightarrow> (None, Inl (LoadConfig path e))
      | Inr config \<Rightarrow>
          (case validate_runtime_environment (be_env be) (be_canonicalize be) config of
             Inl e \<Rightarrow> (None, Inl e)
           | Inr _ \<Rightarrow>
               (case load_master_key (be_b64 be) (be_env be) of
                  Inl e \<Rightarrow> (None, Inl e)
                | Inr master \<Rightarrow>
                    (case read_admin_token (be_env be) config of
                       Inl e \<Rightarrow> (None, Inl e)
                     | Inr token \<Rightarrow>
                         (case build_stores opens config of
                            Inl e \<Rightarrow> (None, Inl e)
                          | Inr st \<Rightarrow> map_prod Some id (boot_stores be ops now prices config master token st))))))"

section \<open>Watching the configuration file\<close>

text \<open>
  The debounce loop of \<open>run\<close>. \<open>es\<close> are the times, in milliseconds and in order, at which the watcher reports a change; the
  loop is waiting from \<open>now\<close> on. What was reported before \<open>now\<close>, while a reload ran, waits in the channel, which
  keeps the first 8. A received event opens a window of 200 ms in which further events are drained; then the reload
  starts and takes \<open>dur\<close>. The result is the list of the times at which reloads start.
\<close>

definition channel :: "nat \<Rightarrow> nat list \<Rightarrow> nat list" where
  "channel now es = take 8 (takeWhile (\<lambda>e. e \<le> now) es) @ dropWhile (\<lambda>e. e \<le> now) es"

lemma channel_length: "length (channel now es) \<le> length es"
proof -
  have "length (channel now es) \<le> length (takeWhile (\<lambda>e. e \<le> now) es) + length (dropWhile (\<lambda>e. e \<le> now) es)"
    by (simp add: channel_def)
  also have "\<dots> = length es" by (metis length_append takeWhile_dropWhile_id)
  finally show ?thesis .
qed

function debounce :: "(nat \<Rightarrow> nat) \<Rightarrow> nat \<Rightarrow> nat list \<Rightarrow> nat list" where
  "debounce dur now es =
     (case channel now es of
        [] \<Rightarrow> []
      | e # rest \<Rightarrow>
          (let deadline = max now e + 200
           in deadline # debounce dur (deadline + dur deadline) (dropWhile (\<lambda>a. a < deadline) rest)))"
  by pat_completeness auto
termination
proof (relation "measure (\<lambda>(dur, now, es). length es)", simp)
  fix dur :: "nat \<Rightarrow> nat" and now :: nat and es :: "nat list" and e and rest :: "nat list" and d
  assume c: "channel now es = e # rest"
  have "length (dropWhile (\<lambda>a. a < d) rest) \<le> length rest" by (rule length_dropWhile_le)
  also have "\<dots> < length es" using channel_length [of now es] c by simp
  finally show "((dur, d + dur d, dropWhile (\<lambda>a. a < d) rest), (dur, now, es)) \<in> measure (\<lambda>(dur, now, es). length es)"
    by simp
qed

declare debounce.simps [simp del]

text \<open>Each reload sees the file as it is at that time, \<open>file t\<close>.\<close>

definition watch ::
  "(string \<Rightarrow> string + app_config) \<Rightarrow> (nat \<Rightarrow> string + string) \<Rightarrow> (string \<Rightarrow> string option) \<Rightarrow> keyed_hash_fn \<Rightarrow> 'm metadata_ops
     \<Rightarrow> bytes \<Rightarrow> string \<Rightarrow> string \<Rightarrow> (nat \<Rightarrow> nat) \<Rightarrow> nat \<Rightarrow> nat list \<Rightarrow> app_config \<times> 'm \<Rightarrow> app_config \<times> 'm" where
  "watch from_yaml file env keyed_hash ops master dflt path dur now es s =
     fold (\<lambda>t. try_reload from_yaml (\<lambda>p. file t) env keyed_hash ops master dflt path (int t)) (debounce dur now es) s"

section \<open>Every change is picked up\<close>

lemma channel_sorted: "sorted es \<Longrightarrow> sorted (channel now es)"
proof -
  assume s: "sorted es"
  let ?P = "\<lambda>e. e \<le> now"
  have "sorted (takeWhile ?P es @ dropWhile ?P es)" using s by (simp only: takeWhile_dropWhile_id)
  then have "sorted (takeWhile ?P es)" "sorted (dropWhile ?P es)" "\<forall>a \<in> set (takeWhile ?P es). \<forall>b \<in> set (dropWhile ?P es). a \<le> b"
    unfolding sorted_append by blast+
  then show ?thesis unfolding channel_def sorted_append by (blast intro: sorted_wrt_take dest: in_set_takeD)
qed

lemma channel_keeps: "e \<in> set es \<Longrightarrow> e \<in> set (channel now es) \<or> e \<le> now"
  by (metis UnCI UnE channel_def set_append set_takeWhileD takeWhile_dropWhile_id)

lemma channel_Nil: "channel now es = [] \<Longrightarrow> es = []"
  by (auto simp: channel_def dropWhile_eq_Nil_conv takeWhile_eq_Nil_iff) (metis list.set_sel(1))

lemma in_dropWhile_sorted: "sorted xs \<Longrightarrow> a \<in> set xs \<Longrightarrow> d \<le> a \<Longrightarrow> a \<in> set (dropWhile (\<lambda>b. b < (d :: nat)) xs)"
  by (induction xs) auto

lemma debounce_covers:
  assumes "sorted es" "e \<in> set es"
  shows "\<exists>r \<in> set (debounce dur now es). e \<le> r"
  using assms
proof (induction dur now es rule: debounce.induct)
  case (1 dur now es)
  obtain e0 rest where c: "channel now es = e0 # rest"
    using "1.prems"(2) channel_Nil [of now es] by (cases "channel now es") auto
  let ?d = "max now e0 + 200"
  have deb: "debounce dur now es = ?d # debounce dur (?d + dur ?d) (dropWhile (\<lambda>a. a < ?d) rest)"
    using c by (subst debounce.simps) (simp add: Let_def)
  have srt: "sorted rest" using channel_sorted [OF "1.prems"(1), of now] c by simp
  consider "e \<le> ?d" | "e \<in> set rest" "?d \<le> e" using channel_keeps [OF "1.prems"(2), of now] c by fastforce
  then show ?case
  proof cases
    case 1
    with deb show ?thesis by auto
  next
    case 2
    have "sorted (dropWhile (\<lambda>a. a < ?d) rest)" using srt by (rule sorted_dropWhile)
    with 2 in_dropWhile_sorted [OF srt 2] "1.IH" [OF c refl] deb show ?thesis by auto
  qed
qed

lemma debounce_spacing:
  "sorted_wrt (\<lambda>a b. a + 200 \<le> b) (debounce dur now es) \<and> (\<forall>r \<in> set (debounce dur now es). now + 200 \<le> r)
   \<and> length (debounce dur now es) \<le> length es"
proof (induction dur now es rule: debounce.induct)
  case (1 dur now es)
  show ?case
  proof (cases "channel now es")
    case Nil
    then show ?thesis by (subst (1 2 3) debounce.simps) simp
  next
    case (Cons e0 rest)
    let ?d = "max now e0 + 200" and ?rest = "dropWhile (\<lambda>a. a < max now e0 + 200) rest"
    have deb: "debounce dur now es = ?d # debounce dur (?d + dur ?d) ?rest"
      using Cons by (subst debounce.simps) (simp add: Let_def)
    have IH: "sorted_wrt (\<lambda>a b. a + 200 \<le> b) (debounce dur (?d + dur ?d) ?rest)"
      "\<forall>r \<in> set (debounce dur (?d + dur ?d) ?rest). ?d + dur ?d + 200 \<le> r"
      "length (debounce dur (?d + dur ?d) ?rest) \<le> length ?rest"
      using 1 [OF Cons refl] by blast+
    have "length ?rest < length es" using length_dropWhile_le [of "\<lambda>a. a < ?d" rest] channel_length [of now es] Cons by simp
    moreover have "now + 200 \<le> r" "?d + 200 \<le> r" if "r \<in> set (debounce dur (?d + dur ?d) ?rest)" for r
      using IH(2) that by force+
    ultimately show ?thesis using IH(1,3) by (auto simp: deb)
  qed
qed

text \<open>C24: The watcher converges. Whenever the file stops changing with a valid configuration in it, the running configuration
  becomes exactly that one after finitely many reloads, at most one per reported change and at least 200 ms apart,
  however the changes are spread, how long the reloads take and how many change events the bounded channel drops.\<close>

theorem watcher_converges:
  assumes "sorted es" "es \<noteq> []" "\<forall>t \<ge> last es. file t = Inr yaml" "load_from_str from_yaml yaml = Inr cfg"
  shows "fst (watch from_yaml file env keyed_hash ops master dflt path dur now es s) = cfg
    \<and> sorted_wrt (\<lambda>a b. a + 200 \<le> b) (debounce dur now es) \<and> length (debounce dur now es) \<le> length es"
proof -
  let ?rs = "debounce dur now es"
  obtain r where r: "r \<in> set ?rs" "last es \<le> r" using debounce_covers [OF assms(1)] assms(2) by (meson last_in_set)
  then obtain ts where ts: "?rs = ts @ [last ?rs]" by (metis append_butlast_last_id empty_iff list.set(1))
  have "r \<le> last ?rs"
  proof (cases "r = last ?rs")
    case False
    with r(1) ts have "r \<in> set ts" by (metis Un_iff empty_iff insert_iff list.set set_append)
    moreover have "sorted_wrt (\<lambda>a b. a + 200 \<le> b) (ts @ [last ?rs])" using debounce_spacing [of dur now es] ts by simp
    ultimately show ?thesis by (fastforce simp: sorted_wrt_append)
  qed simp
  then have "file (last ?rs) = Inr yaml" using assms(3) r(2) by simp
  then have "fst (watch from_yaml file env keyed_hash ops master dflt path dur now es s) = cfg"
    unfolding watch_def by (subst ts) (simp add: try_reload_def load_from_path_def assms(4))
  with debounce_spacing show ?thesis by blast
qed

theorem watcher_converges_witness:
  "fst (watch (\<lambda>t. Inr demo_config) (\<lambda>t. if t < 300 then Inl ''gone'' else Inr ''x'') (\<lambda>v. None) (\<lambda>m p. p) mem_metadata_ops [] ''default''
     ''c.yaml'' (\<lambda>t. 50) 0 [100, 120, 300] (demo_config\<lparr>gateway_keys := [\<lparr>gk_id = ''k'', gk_name = ''n'', gk_project_id = None,
       gk_secret = ''s'', gk_scopes = []\<rparr>]\<rparr>, mem_meta_new)) = demo_config"
proof -
  have "load_from_str (\<lambda>t. Inr demo_config) ''x'' = Inr demo_config"
    by (simp add: load_from_str_def validate_def demo_config_def)
  then show ?thesis by (intro conjunct1 [OF watcher_converges [where yaml = "''x''"]]) simp_all
qed

section \<open>A started gateway on SQLite\<close>

lemma boot_Inr:
  assumes "boot be ops opens now path prices = (st', Inr app)"
  obtains cfg master token st0 st1 where
    "load_from_path (be_from_yaml be) (be_read_file be) path = Inr cfg" "load_master_key (be_b64 be) (be_env be) = Inr master"
    "opens (store_choice_of cfg) = Inr st0" "seed_default_project ops now (default_project_id (server cfg)) st0 = (st1, Inr ())"
    "st' = Some (fst (seed_apply (be_env be) (be_keyed_hash be) ops master now (default_project_id (server cfg)) (gateway_keys cfg) st1))"
    "snd (seed_apply (be_env be) (be_keyed_hash be) ops master now (default_project_id (server cfg)) (gateway_keys cfg) st1) = Inr ()"
    "new_engine (be_env be) cfg = Inr (ah_engine app)" "ah_config app = cfg" "ah_master_key app = master"
    "ah_default_project_id app = default_project_id (server cfg)"
  using assms unfolding boot_def boot_stores_def build_stores_def
  by (auto simp: Let_def split: sum.splits prod.splits)

lemma load_master_key_length: "load_master_key b64 env = Inr k \<Longrightarrow> length k = 32"
  by (auto simp: load_master_key_def from_base64_def split: option.splits sum.splits if_splits)

lemma load_from_path_valid: "load_from_path from_yaml read_file path = Inr cfg \<Longrightarrow> validate cfg = Inr ()"
  by (auto simp: load_from_path_def load_from_str_def split: sum.splits)

lemma valid_keys_distinct: "validate cfg = Inr () \<Longrightarrow> distinct (map gk_id (gateway_keys cfg))"
  by (simp add: validate_Inr validate_keys_iff)

lemma seed_default_project_sq:
  assumes "sq_working x db"
  shows "\<exists>db1. seed_default_project (sq_metadata_ops x) now p db = (db1, Inr ()) \<and> sq_working x db1 \<and> project_exists db1 p
    \<and> t_keys db1 = t_keys db"
proof -
  have w: "sql_codec x" "sql_ok x db" "\<And>i. db_fault db i = None" using assms by (simp_all add: sq_working_def)
  show ?thesis
  proof (cases "project_exists db p")
    case True
    then have "\<exists>r \<in> set (t_projects db). pj_id r = p" by (auto simp: project_exists_def has_where_def list_ex_iff)
    then obtain r where "List.find (\<lambda>r. pj_id r = p) (t_projects db) = Some r" unfolding find_exists by blast
    with True assms w show ?thesis
      by (simp add: seed_default_project_def sq_metadata_ops_def sq_get_project_def fetched_def fetch_def)
  next
    case False
    then have none: "List.find (\<lambda>r. pj_id r = p) (t_projects db) = None"
      by (auto simp: project_exists_def has_where_def list_ex_iff find_None_iff)
    let ?p = "\<lparr>pj_id = p, pj_name = p, pj_created_at = now\<rparr>"
    let ?db = "db\<lparr>t_projects := t_projects db @ [?p]\<rparr>"
    have c: "sq_create_project x db now \<lparr>np_id = p, np_name = p\<rparr> = (?db, Inr ?p)"
      using False w by (simp add: sq_create_project_def executed_def execute_def insert_project_def Let_def)
    from sq_create_project_sim [OF w(2) c] have "sql_ok x ?db" by blast
    then have "sq_working x ?db" using w by (simp add: sq_working_def)
    moreover have "project_exists ?db p" by (simp add: project_exists_def has_where_def)
    ultimately show ?thesis using c none w(3)
      by (simp add: seed_default_project_def sq_metadata_ops_def sq_get_project_def fetched_def fetch_def)
  qed
qed

lemma sq_row_admits:
  assumes "sq_working x db" "sq_key x db i = Some row" "kr_hash row = derive_hash kh master pt" "parse_gateway_key pt \<noteq> None"
    and "row_usable t row" "extract_bearer ts headers = Some pt"
    and "\<forall>j r. sq_key x db j = Some r \<and> kr_hash r = derive_hash kh master pt \<longrightarrow> j = i"
  shows "snd (gateway_key_auth ts kh (sq_metadata_ops x) master db t headers)
    = Inr \<lparr>gp_key_id = i, gp_project_id = kr_project_id row\<rparr>"
proof -
  have "\<exists>r. find_key_by_hash (sq_metadata_ops x) db (derive_hash kh master pt) = Inr r"
    by (rule sq_find_answers [OF assms(1)])
  from sq_keys.auth_complete [OF assms(1,6,4) this assms(2,3)] assms(5,7) sq_key_id [OF assms(1,2)]
  show ?thesis by simp
qed

text \<open>What lies behind a successful start on a working SQLite database.\<close>

lemma booted_store:
  assumes "boot be (sq_metadata_ops x) opens now path prices = (Some db', Inr app)"
    and "\<forall>c db. opens c = Inr db \<longrightarrow> sq_working x db"
  obtains cfg master db1 where "load_from_path (be_from_yaml be) (be_read_file be) path = Inr cfg" "load_master_key (be_b64 be) (be_env be) = Inr master"
    "sq_working x db1"
    "seed_apply (be_env be) (be_keyed_hash be) (sq_metadata_ops x) master now (default_project_id (server cfg)) (gateway_keys cfg) db1 = (db', Inr ())"
    "new_engine (be_env be) cfg = Inr (ah_engine app)" "ah_config app = cfg" "ah_master_key app = master"
    "ah_default_project_id app = default_project_id (server cfg)"
proof -
  from assms(1) obtain cfg master token db0 db1 where
    load: "load_from_path (be_from_yaml be) (be_read_file be) path = Inr cfg" "load_master_key (be_b64 be) (be_env be) = Inr master"
    and stores: "opens (store_choice_of cfg) = Inr db0"
      "seed_default_project (sq_metadata_ops x) now (default_project_id (server cfg)) db0 = (db1, Inr ())"
    and seed: "Some db' = Some (fst (seed_apply (be_env be) (be_keyed_hash be) (sq_metadata_ops x) master now (default_project_id (server cfg)) (gateway_keys cfg) db1))"
      "snd (seed_apply (be_env be) (be_keyed_hash be) (sq_metadata_ops x) master now (default_project_id (server cfg)) (gateway_keys cfg) db1) = Inr ()"
    and app: "new_engine (be_env be) cfg = Inr (ah_engine app)" "ah_config app = cfg" "ah_master_key app = master"
      "ah_default_project_id app = default_project_id (server cfg)"
    by (rule boot_Inr)
  have "sq_working x db0" using assms(2) stores(1) by blast
  from seed_default_project_sq [OF this, of now "default_project_id (server cfg)"] stores(2) have w1: "sq_working x db1" by auto
  have apply': "seed_apply (be_env be) (be_keyed_hash be) (sq_metadata_ops x) master now (default_project_id (server cfg)) (gateway_keys cfg) db1 = (db', Inr ())"
    using seed by (metis option.inject prod.collapse)
  from that [OF load w1 apply' app] show thesis .
qed

text \<open>C22: A gateway that has started on a working SQLite database is ready to serve its configuration: the configuration it runs
  was accepted by validation, the master key has 32 bytes, the proxy engine was built from that configuration, and
  every declared gateway key is admitted when its secret is presented, as that key and its
  project, at any time, unless another stored key has the same keyed hash.\<close>

theorem booted_gateway_serves_its_keys:
  assumes "boot be (sq_metadata_ops x) opens now path prices = (Some db', Inr app)"
    and "\<forall>c db. opens c = Inr db \<longrightarrow> sq_working x db"
  shows "validate (ah_config app) = Inr () \<and> length (ah_master_key app) = 32
    \<and> new_engine (be_env be) (ah_config app) = Inr (ah_engine app) \<and> sq_working x db'
    \<and> (\<forall>k \<in> set (gateway_keys (ah_config app)). \<exists>secret. resolve_secret (be_env be) k = Inr secret
         \<and> (\<forall>ts headers t. extract_bearer ts headers = Some secret
              \<and> (\<forall>j r. sq_key x db' j = Some r \<and> kr_hash r = derive_hash (be_keyed_hash be) (ah_master_key app) secret \<longrightarrow> j = gk_id k) \<longrightarrow>
              snd (gateway_key_auth ts (be_keyed_hash be) (sq_metadata_ops x) (ah_master_key app) db' t headers)
                = Inr \<lparr>gp_key_id = gk_id k, gp_project_id = key_project (ah_default_project_id app) k\<rparr>))"
proof -
  from assms obtain cfg master db1 where
    load: "load_from_path (be_from_yaml be) (be_read_file be) path = Inr cfg" "load_master_key (be_b64 be) (be_env be) = Inr master"
    and w1: "sq_working x db1"
    and apply': "seed_apply (be_env be) (be_keyed_hash be) (sq_metadata_ops x) master now (default_project_id (server cfg)) (gateway_keys cfg) db1 = (db', Inr ())"
    and app: "new_engine (be_env be) cfg = Inr (ah_engine app)" "ah_config app = cfg" "ah_master_key app = master"
      "ah_default_project_id app = default_project_id (server cfg)"
    by (rule booted_store)
  note valid = load_from_path_valid [OF load(1)]
  note res = sq_keys.seed_apply_result [OF w1 valid_keys_distinct [OF valid] apply']
  have w': "sq_working x db'" using res by blast
  have "\<exists>secret. resolve_secret (be_env be) k = Inr secret
      \<and> (\<forall>ts headers t. extract_bearer ts headers = Some secret
           \<and> (\<forall>j r. sq_key x db' j = Some r \<and> kr_hash r = derive_hash (be_keyed_hash be) master secret \<longrightarrow> j = gk_id k) \<longrightarrow>
           snd (gateway_key_auth ts (be_keyed_hash be) (sq_metadata_ops x) master db' t headers)
             = Inr \<lparr>gp_key_id = gk_id k, gp_project_id = key_project (default_project_id (server cfg)) k\<rparr>)"
    if "k \<in> set (gateway_keys cfg)" for k
  proof -
    from res that obtain pt row where pt: "resolve_secret (be_env be) k = Inr pt" "parse_gateway_key pt \<noteq> None"
      "sq_key x db' (gk_id k) = Some row" "kr_hash row = derive_hash (be_keyed_hash be) master pt"
      "kr_project_id row = key_project (default_project_id (server cfg)) k" "kr_status row = ''active''" "kr_expires_at row = None" by blast
    have "row_usable t row" for t using pt(6,7) by (simp add: row_usable_def)
    from sq_row_admits [OF w' pt(3,4,2) this] pt(1,5) show ?thesis by auto
  qed
  with valid load_master_key_length [OF load(2)] w' app show ?thesis by simp
qed

section \<open>A start that succeeds\<close>

lemma sq_upsert_seeded_succeeds:
  assumes "sq_working x db" "project_exists db (nk_project_id k)"
    and "\<forall>row. sq_key x db (nk_id k) = Some row \<longrightarrow> kr_origin row = KEY_ORIGIN_CONFIG"
  shows "\<exists>db' row. sq_upsert_seeded_key x db now k = (db', Inr row)"
proof -
  have w: "sql_codec x" "sql_ok x db" "\<And>i. db_fault db i = None" using assms(1) by (simp_all add: sq_working_def)
  let ?t = "new_key_tuple x now KEY_ORIGIN_CONFIG k"
  have mine: "kt_origin r = KEY_ORIGIN_CONFIG" if "List.find (\<lambda>r. kt_id r = nk_id k) (t_keys db) = Some r" for r
    using assms(3) that by (simp add: sq_key_def mem_key_def sq_abs_def)
  have "kt_project_id ?t = nk_project_id k" by (simp add: new_key_tuple_def)
  with assms(2) have "\<exists>db1. upsert_key ?t db = Inr (db1, 1) \<and> db_fault db1 = db_fault db" by (simp add: upsert_key_def)
  then obtain db1 where u: "upsert_key ?t db = Inr (db1, 1)" "db_fault db1 = db_fault db" by blast
  from upserted_key_found [OF w(1,2) u(1)] obtain r where
    r: "List.find (\<lambda>r. kt_id r = nk_id k) (t_keys db1) = Some r" "\<not> isl (sx_dec_scopes x (kt_scopes r))" by blast
  show ?thesis using mine w u r
    by (auto simp: sq_upsert_seeded_key_def fetch_def execute_def select_key_def fetched_def row_to_gateway_key_ok split: option.splits)
qed

lemma sq_seed_upserts_succeed:
  assumes "sq_working x db" "\<forall>k \<in> set ks. project_exists db (nk_project_id k)"
    and "\<forall>k \<in> set ks. \<forall>row. sq_key x db (nk_id k) = Some row \<longrightarrow> kr_origin row = KEY_ORIGIN_CONFIG"
  shows "\<exists>db'. seed_upserts (sq_metadata_ops x) now ks db = (db', Inr ()) \<and> sq_working x db'"
  using assms
proof (induction ks arbitrary: db)
  case (Cons k ks)
  then obtain db1 row where u: "sq_upsert_seeded_key x db now k = (db1, Inr row)"
    using sq_upsert_seeded_succeeds [of x db k now] by auto
  have u': "upsert_seeded_key (sq_metadata_ops x) db now k = (db1, Inr row)" using u by (simp add: sq_metadata_ops_def)
  from sq_keys.upsert_seeded_result [OF Cons.prems(1) u'] have "sq_working x db1" "sq_key x db1 = (sq_key x db)(nk_id k \<mapsto> row)"
    "kr_origin row = KEY_ORIGIN_CONFIG" by auto
  moreover have "project_exists db1 = project_exists db" by (rule upsert_keeps_projects [OF u])
  ultimately have "\<exists>db'. seed_upserts (sq_metadata_ops x) now ks db1 = (db', Inr ()) \<and> sq_working x db'"
    using Cons.prems by (intro Cons.IH) auto
  with u' show ?case by simp
qed simp

lemma sq_prune_succeeds:
  assumes "sq_working x db"
  shows "\<exists>db' n. prune_seeded_keys_not_in (sq_metadata_ops x) db p ids = (db', Inr n) \<and> sq_working x db'"
proof -
  obtain db' r where pr: "prune_seeded_keys_not_in (sq_metadata_ops x) db p ids = (db', r)" by fastforce
  then have "\<exists>n. r = Inr n" using assms
    by (auto simp: sq_metadata_ops_def sq_prune_seeded_keys_not_in_def executed_def execute_def delete_keys_def sq_working_def)
  with pr sq_keys.prune_result [OF assms pr] show ?thesis by auto
qed

lemma sq_seed_prunes_succeed:
  "sq_working x db \<Longrightarrow> \<exists>db'. seed_prunes (sq_metadata_ops x) ps db = (db', Inr ()) \<and> sq_working x db'"
proof (induction ps arbitrary: db)
  case (Cons pi ps)
  obtain p ids where pi: "pi = (p, ids)" by (cases pi)
  from sq_prune_succeeds [OF Cons.prems, of p ids] obtain db1 n where
    "prune_seeded_keys_not_in (sq_metadata_ops x) db p ids = (db1, Inr n)" "sq_working x db1" by blast
  with Cons.IH [of db1] pi show ?case by simp
qed simp

lemma seed_collect_succeeds:
  "\<forall>k \<in> set ks. \<exists>pt. resolve_secret env k = Inr pt \<and> parse_gateway_key pt \<noteq> None \<Longrightarrow>
     \<exists>bp tu. seed_collect env dflt ks bp0 tu0 = Inr (bp, tu)"
  by (induction env dflt ks bp0 tu0 rule: seed_collect.induct) auto

lemma sq_seed_apply_succeeds:
  assumes "sq_working x db" "project_exists db dflt" "\<forall>k \<in> set keys. key_project dflt k = dflt"
    and "\<forall>k \<in> set keys. \<exists>pt. resolve_secret env k = Inr pt \<and> parse_gateway_key pt \<noteq> None"
    and "\<forall>k \<in> set keys. \<forall>row. sq_key x db (gk_id k) = Some row \<longrightarrow> kr_origin row = KEY_ORIGIN_CONFIG"
  shows "\<exists>db'. seed_apply env kh (sq_metadata_ops x) master now dflt keys db = (db', Inr ()) \<and> sq_working x db'"
proof -
  obtain bp tu where c: "seed_collect env dflt keys [] [] = Inr (bp, tu)" using seed_collect_succeeds [OF assms(4)] by blast
  have fst: "map fst tu = keys" using seed_collect_keys [OF c] by simp
  have mem: "fst t \<in> set keys" if "t \<in> set tu" for t using that fst by auto
  let ?ks = "map (seeded_key kh master dflt) tu"
  have ids: "nk_id (seeded_key kh master dflt t) = gk_id (fst t)" "nk_project_id (seeded_key kh master dflt t) = key_project dflt (fst t)" for t
    by (simp_all add: seeded_key_def case_prod_beta)
  have "\<exists>db1. seed_upserts (sq_metadata_ops x) now ?ks db = (db1, Inr ()) \<and> sq_working x db1"
    using assms mem by (intro sq_seed_upserts_succeed) (auto simp: ids)
  then obtain db1 where u: "seed_upserts (sq_metadata_ops x) now ?ks db = (db1, Inr ())" "sq_working x db1" by blast
  from sq_seed_prunes_succeed [OF u(2)] obtain db2 where
    p: "seed_prunes (sq_metadata_ops x) bp db1 = (db2, Inr ())" "sq_working x db2" by blast
  from sq_prune_succeeds [OF p(2), of dflt "[]"] obtain db3 n where
    "prune_seeded_keys_not_in (sq_metadata_ops x) db2 dflt [] = (db3, Inr n)" "sq_working x db3" by blast
  with c u p show ?thesis by (auto simp: seed_apply_def seed_prune_default_def)
qed

text \<open>What has to be in order for the start: a file with a valid configuration for a single worker, a 32-byte master key, an admin
  token that names a variable, a working database in which no administrator uses the id of a declared key, keys of the default
  project with well-formed secrets, credentials for the providers, a readable price file and a free address. The price feed is
  not in the list.\<close>

definition boot_in_order :: "boot_env \<Rightarrow> sql_ext \<Rightarrow> (store_choice \<Rightarrow> string + sql_db) \<Rightarrow> string \<Rightarrow> string \<Rightarrow> app_config \<Rightarrow> sql_db \<Rightarrow> bool" where
  "boot_in_order be x opens path prices cfg db \<longleftrightarrow>
     load_from_path (be_from_yaml be) (be_read_file be) path = Inr cfg
   \<and> \<not> isl (validate_runtime_environment (be_env be) (be_canonicalize be) cfg)
   \<and> \<not> isl (load_master_key (be_b64 be) (be_env be)) \<and> \<not> isl (read_admin_token (be_env be) cfg)
   \<and> opens (store_choice_of cfg) = Inr db \<and> sq_working x db
   \<and> (\<forall>k \<in> set (gateway_keys cfg). key_project (default_project_id (server cfg)) k = default_project_id (server cfg)
        \<and> (\<exists>pt. resolve_secret (be_env be) k = Inr pt \<and> parse_gateway_key pt \<noteq> None)
        \<and> (\<forall>row. sq_key x db (gk_id k) = Some row \<longrightarrow> kr_origin row = KEY_ORIGIN_CONFIG))
   \<and> \<not> isl (new_engine (be_env be) cfg) \<and> \<not> isl (catalog_from_optional_path (be_parse_prices be) (be_price_file be) prices)
   \<and> \<not> isl (be_listen be (bind (server cfg)))"

lemma boot_succeeds:
  assumes "boot_in_order be x opens path prices cfg db"
  shows "\<exists>db' app. boot be (sq_metadata_ops x) opens now path prices = (Some db', Inr app) \<and> ah_config app = cfg"
proof -
  let ?dflt = "default_project_id (server cfg)"
  have w: "sq_working x db" using assms by (simp add: boot_in_order_def)
  from seed_default_project_sq [OF w, of now ?dflt] obtain db1 where
    d: "seed_default_project (sq_metadata_ops x) now ?dflt db = (db1, Inr ())" "sq_working x db1" "project_exists db1 ?dflt" "t_keys db1 = t_keys db"
    by blast
  have keys: "sq_key x db1 = sq_key x db" using d(4) by (simp add: sq_key_def mem_key_def sq_abs_def fun_eq_iff)
  obtain master where m: "load_master_key (be_b64 be) (be_env be) = Inr master"
    using assms by (auto simp: boot_in_order_def isl_def) (metis sum.exhaust)
  have "\<exists>db2. seed_apply (be_env be) (be_keyed_hash be) (sq_metadata_ops x) master now ?dflt (gateway_keys cfg) db1 = (db2, Inr ()) \<and> sq_working x db2"
    using assms d(2,3) by (intro sq_seed_apply_succeeds) (simp_all add: boot_in_order_def keys)
  then obtain db2 where s: "seed_apply (be_env be) (be_keyed_hash be) (sq_metadata_ops x) master now ?dflt (gateway_keys cfg) db1 = (db2, Inr ())"
    "sq_working x db2" by blast
  have "list_pricing (sq_metadata_ops x) db2 = Inr (map pt_row (t_pricing db2))"
    using s(2) by (simp add: sq_metadata_ops_def sq_list_pricing_def fetched_def fetch_def sq_working_def)
  with assms m d(1) s(1) show ?thesis
    by (auto simp: boot_in_order_def boot_def boot_stores_def build_stores_def Let_def isl_def split: sum.splits prod.splits)
qed

text \<open>C23: The gateway starts when its surroundings are in order, whatever the price feed does: on any working SQLite
  database, new or already in use, the start reaches the listener with the configuration of the file.\<close>

theorem start_succeeds:
  assumes "boot_in_order be x opens path prices cfg db"
  shows "\<exists>db' app. boot (be\<lparr>be_fetch := feed\<rparr>) (sq_metadata_ops x) opens now path prices = (Some db', Inr app) \<and> ah_config app = cfg"
proof -
  have "boot_in_order (be\<lparr>be_fetch := feed\<rparr>) x opens path prices cfg db" using assms by (simp add: boot_in_order_def)
  then show ?thesis by (rule boot_succeeds)
qed

definition demo_boot_config :: app_config where
  "demo_boot_config = demo_config\<lparr>storage := Lite sqlite_config_default cache_config_default,
     gateway_keys := [\<lparr>gk_id = ''k'', gk_name = ''n'', gk_project_id = None, gk_secret = ''sk-gw-test-a'', gk_scopes = []\<rparr>]\<rparr>"

definition demo_boot_env :: boot_env where
  "demo_boot_env = \<lparr>be_env = (\<lambda>v. if v = MASTER_KEY_ENV then Some ''key'' else None), be_read_file = (\<lambda>p. Inr ''yaml''),
     be_from_yaml = (\<lambda>t. Inr demo_boot_config), be_canonicalize = Some, be_b64 = (\<lambda>s. Inr (replicate 32 (CHR ''k''))),
     be_keyed_hash = (\<lambda>m p. p), be_price_file = (\<lambda>p. None), be_parse_prices = (\<lambda>t. Inr []), be_fetch = (\<lambda>u. Inl ''offline''),
     be_models = (\<lambda>t. Inr []), be_model = (\<lambda>j. None), be_listen = (\<lambda>b. Inr b)\<rparr>"

lemma demo_boot_in_order: "boot_in_order demo_boot_env demo_ext (\<lambda>c. Inr sql_db_new) ''c.yaml'' ''p.json'' demo_boot_config sql_db_new"
proof -
  have w: "sq_working demo_ext sql_db_new" using demo_ext_codec by (simp add: sq_working_def sql_ok_def sql_db_new_def)
  have tr: "trim [] = []" "trim ''n'' \<noteq> []" "trim ''k'' \<noteq> []" by (simp_all add: trim_def is_whitespace_def byte_def)
  have v: "validate demo_boot_config = Inr ()"
    using tr by (simp add: demo_boot_config_def demo_config_def validate_def key_ok_def strip_prefix_def starts_with_def env_scheme_def
        PREFIX_LIVE_def PREFIX_TEST_def)
  show ?thesis
    using w v tr
    by (simp add: boot_in_order_def demo_boot_env_def load_from_path_def load_from_str_def validate_runtime_environment_def
        load_master_key_def from_base64_def read_admin_token_def new_engine_def catalog_from_optional_path_def
        resolve_secret_def parse_gateway_key_def starts_with_def strip_prefix_def env_scheme_def PREFIX_LIVE_def PREFIX_TEST_def
        sq_key_def mem_key_def sq_abs_def sql_db_new_def key_project_def unwrap_or_def MASTER_KEY_ENV_def
        demo_boot_config_def demo_config_def admin_config_default_def)
qed

theorem start_succeeds_witness:
  "\<exists>db' app. boot (demo_boot_env\<lparr>be_fetch := (\<lambda>u. Inr ''{}'')\<rparr>) (sq_metadata_ops demo_ext) (\<lambda>c. Inr sql_db_new) 5 ''c.yaml'' ''p.json''
     = (Some db', Inr app) \<and> ah_config app = demo_boot_config"
  by (rule start_succeeds [OF demo_boot_in_order])

theorem booted_gateway_serves_its_keys_witness:
  "\<exists>db' app secret. boot demo_boot_env (sq_metadata_ops demo_ext) (\<lambda>c. Inr sql_db_new) 5 ''c.yaml'' ''p.json'' = (Some db', Inr app)
     \<and> length (ah_master_key app) = 32 \<and> resolve_secret (be_env demo_boot_env) (hd (gateway_keys (ah_config app))) = Inr secret"
proof -
  obtain db' app where b: "boot demo_boot_env (sq_metadata_ops demo_ext) (\<lambda>c. Inr sql_db_new) 5 ''c.yaml'' ''p.json'' = (Some db', Inr app)"
    and cfg: "ah_config app = demo_boot_config"
    using boot_succeeds [OF demo_boot_in_order] by blast
  have "\<forall>c db. (Inr sql_db_new :: string + sql_db) = Inr db \<longrightarrow> sq_working demo_ext db"
    using demo_boot_in_order by (simp add: boot_in_order_def)
  from booted_gateway_serves_its_keys [OF b this] b cfg show ?thesis by (auto simp: demo_boot_config_def)
qed

end
