(* ===== verification/Sqlite_Pool.thy ===== *)
theory Sqlite_Pool
  imports Startup
begin

text \<open>
  Opening the SQLite database: \<open>gateway-storage/src/sqlite/pool.rs\<close> and \<open>SqliteBackend::open\<close> of \<open>sqlite/mod.rs\<close>. The file system is
  a parameter: its state, creating directories, and looking at one. \<open>sqlx\<close> connects with the options and runs the migrations.
\<close>

section \<open>Parent directories\<close>

definition last_segment :: "string \<Rightarrow> string" where
  "last_segment p = rev (takeWhile (\<lambda>c. c \<noteq> CHR ''/'') (rev p))"

definition but_segment :: "string \<Rightarrow> string" where
  "but_segment p = rev (dropWhile (\<lambda>c. c \<noteq> CHR ''/'') (rev p))"

text \<open>\<open>Path\<close> ignores separators and \<open>.\<close> segments at the end, but not a leading one and not the root.\<close>

function path_trim :: "string \<Rightarrow> string" where
  "path_trim p =
     (if length p \<le> 1 then p
      else if last p = CHR ''/'' then path_trim (butlast p)
      else if last_segment p = ''.'' then path_trim (butlast p)
      else p)"
  by pat_completeness auto
termination by (relation "measure length") (auto simp: length_greater_0_conv [symmetric] simp del: length_greater_0_conv)

declare path_trim.simps [simp del]

definition path_parent :: "string \<Rightarrow> string option" where
  "path_parent p =
     (let t = path_trim p in
      if t = [] \<or> t = ''/'' then None else Some (path_trim (but_segment t)))"

section \<open>Opening\<close>

record sqlite_pool_config =
  sp_path :: string
  sp_max_connections :: nat
  sp_busy_timeout_ms :: nat
  sp_cache_size_kb :: int
  sp_mmap_size :: int

definition sqlite_pool_config_new :: "string \<Rightarrow> sqlite_pool_config" where
  "sqlite_pool_config_new path =
     \<lparr>sp_path = path, sp_max_connections = 8, sp_busy_timeout_ms = 5000, sp_cache_size_kb = 64 * 1024, sp_mmap_size = 256 * 1024 * 1024\<rparr>"

datatype journal_mode = Wal
datatype synchronous_mode = SyncNormal

record connect_options =
  co_url :: string
  co_create_if_missing :: bool
  co_journal :: journal_mode
  co_synchronous :: synchronous_mode
  co_busy_timeout_ms :: nat
  co_foreign_keys :: bool
  co_pragmas :: "(string \<times> string) list"
  co_max_connections :: nat
  co_acquire_timeout_s :: nat

text \<open>\<open>fs_dir\<close> looks at a path: absent, or its metadata, which may fail, with the read-only flag.\<close>

record 'f fs_ops =
  fs_create_dir_all :: "string \<Rightarrow> 'f \<Rightarrow> 'f"
  fs_dir :: "'f \<Rightarrow> string \<Rightarrow> (string + bool) option"

definition sqlite_options :: "sqlite_pool_config \<Rightarrow> connect_options" where
  "sqlite_options cfg =
     \<lparr>co_url = ''sqlite://'' @ sp_path cfg, co_create_if_missing = True, co_journal = Wal, co_synchronous = SyncNormal,
      co_busy_timeout_ms = sp_busy_timeout_ms cfg, co_foreign_keys = True,
      co_pragmas = [(''cache_size'', ''-'' @ show_int (sp_cache_size_kb cfg)), (''temp_store'', ''MEMORY''), (''mmap_size'', show_int (sp_mmap_size cfg))],
      co_max_connections = sp_max_connections cfg, co_acquire_timeout_s = 10\<rparr>"

definition ensure_writable :: "'f fs_ops \<Rightarrow> 'f \<Rightarrow> string \<Rightarrow> unit sresult" where
  "ensure_writable fs st path =
     (case path_parent path of
        None \<Rightarrow> Inr ()
      | Some dir \<Rightarrow>
          if dir = [] then Inr ()
          else (case fs_dir fs st dir of
                  None \<Rightarrow> Inr ()
                | Some (Inl e) \<Rightarrow> Inl (SIo e)
                | Some (Inr readonly) \<Rightarrow>
                    if readonly then Inl (SInvalid (''sqlite parent directory is read-only: '' @ dir)) else Inr ()))"

definition open_sqlite_pool ::
  "'f fs_ops \<Rightarrow> (connect_options \<Rightarrow> 'f \<Rightarrow> 'f \<times> 'p sresult) \<Rightarrow> sqlite_pool_config \<Rightarrow> 'f \<Rightarrow> 'f \<times> 'p sresult" where
  "open_sqlite_pool fs connect cfg st =
     (let st1 = (case path_parent (sp_path cfg) of
                   None \<Rightarrow> st
                 | Some dir \<Rightarrow> if dir = [] then st else fs_create_dir_all fs dir st)
      in case ensure_writable fs st1 (sp_path cfg) of
           Inl e \<Rightarrow> (st1, Inl e)
         | Inr _ \<Rightarrow> connect (sqlite_options cfg) st1)"

definition sqlite_backend_open ::
  "'f fs_ops \<Rightarrow> (connect_options \<Rightarrow> 'f \<Rightarrow> 'f \<times> 'p sresult) \<Rightarrow> ('p \<Rightarrow> 'f \<Rightarrow> 'f \<times> unit sresult) \<Rightarrow> sqlite_pool_config \<Rightarrow> 'f
     \<Rightarrow> 'f \<times> 'p sresult" where
  "sqlite_backend_open fs connect migrate cfg st =
     (case open_sqlite_pool fs connect cfg st of
        (st1, Inl e) \<Rightarrow> (st1, Inl e)
      | (st1, Inr pool) \<Rightarrow>
          (case migrate pool st1 of
             (st2, Inl e) \<Rightarrow> (st2, Inl e)
           | (st2, Inr _) \<Rightarrow> (st2, Inr pool)))"

section \<open>What is checked before a connection is made\<close>

lemma last_segment_join: "CHR ''/'' \<notin> set file \<Longrightarrow> last_segment (dir @ CHR ''/'' # file) = file"
  unfolding last_segment_def by (simp, subst takeWhile_append2) auto

lemma but_segment_join: "CHR ''/'' \<notin> set file \<Longrightarrow> but_segment (dir @ CHR ''/'' # file) = dir @ ''/''"
  unfolding but_segment_def by (simp, subst dropWhile_append2) auto

lemma path_parent_join:
  assumes "CHR ''/'' \<notin> set file" "file \<noteq> []" "file \<noteq> ''.''"
  shows "path_parent (dir @ CHR ''/'' # file) = Some (path_trim (dir @ ''/''))"
proof -
  have "last (dir @ CHR ''/'' # file) \<noteq> CHR ''/''" using assms(1,2) by (metis last_ConsR last_appendR last_in_set list.discI)
  then have "path_trim (dir @ CHR ''/'' # file) = dir @ CHR ''/'' # file"
    using assms(3) by (simp add: path_trim.simps [of "dir @ CHR ''/'' # file"] last_segment_join [OF assms(1)])
  moreover have "dir @ CHR ''/'' # file \<noteq> ''/''" using assms(2) by (cases dir) auto
  ultimately show ?thesis using assms(1) by (simp add: path_parent_def but_segment_join Let_def)
qed

text \<open>The database in a directory: the directory is created first, one that cannot be written is refused before a connection is
  tried, and otherwise the connection enforces foreign keys.\<close>

theorem sqlite_open_checked:
  assumes "CHR ''/'' \<notin> set file" "file \<noteq> []" "file \<noteq> ''.''" "path_trim (dir @ ''/'') = dir" "dir \<noteq> []"
  shows "open_sqlite_pool fs connect (sqlite_pool_config_new (dir @ CHR ''/'' # file)) st =
    (let st1 = fs_create_dir_all fs dir st in
     case fs_dir fs st1 dir of
       Some (Inl e) \<Rightarrow> (st1, Inl (SIo e))
     | Some (Inr True) \<Rightarrow> (st1, Inl (SInvalid (''sqlite parent directory is read-only: '' @ dir)))
     | _ \<Rightarrow> connect (sqlite_options (sqlite_pool_config_new (dir @ CHR ''/'' # file))) st1)
    \<and> co_foreign_keys (sqlite_options (sqlite_pool_config_new (dir @ CHR ''/'' # file)))"
  using assms
  by (auto simp: open_sqlite_pool_def ensure_writable_def sqlite_pool_config_new_def sqlite_options_def path_parent_join Let_def
      split: option.split sum.split bool.split)

theorem sqlite_open_checked_witness:
  "open_sqlite_pool \<lparr>fs_create_dir_all = (\<lambda>d s. d # s), fs_dir = (\<lambda>s d. if d \<in> set s then Some (Inr True) else None)\<rparr> (\<lambda>opts s. (s, Inr ()))
     (sqlite_pool_config_new default_sqlite_path) [] = ([''./data''], Inl (SInvalid ''sqlite parent directory is read-only: ./data''))"
proof -
  have trim: "path_trim (''./data'' @ ''/'') = ''./data''"
    by (subst path_trim.simps, subst path_trim.simps) (simp add: last_segment_def)
  note checked = sqlite_open_checked [of "''gateway.db''" "''./data''", OF _ _ _ trim,
      of "\<lparr>fs_create_dir_all = (\<lambda>d s. d # s), fs_dir = (\<lambda>s d. if d \<in> set s then Some (Inr True) else None)\<rparr>" "\<lambda>opts s. (s, Inr ())" "[]"]
  show ?thesis using checked by (simp add: default_sqlite_path_def)
qed

end
