(* ===== verification/Connections.thy ===== *)
theory Connections
  imports Sqlite_Pool
begin

text \<open>
  Opening the stores of a profile: \<open>PostgresBackend::open\<close> (\<open>gateway-storage/src/postgres/mod.rs\<close>), \<open>connect\<close>
  (\<open>gateway-storage/src/redis/mod.rs\<close>) and \<open>build_stores\<close> (\<open>gateway-bin/src/main.rs\<close>) with the handles it hands out. The drivers, \<open>sqlx\<close>
  and \<open>redis\<close>, and the embedded migrations they run are parameters that act on the state of the world outside.
\<close>

section \<open>Drivers\<close>

record pg_pool_options =
  po_url :: string
  po_max_connections :: nat
  po_acquire_timeout_s :: nat

record ('w, 's, 'p, 'c, 'r) drivers =
  dr_fs :: "'w fs_ops"
  dr_sqlite_connect :: "connect_options \<Rightarrow> 'w \<Rightarrow> 'w \<times> 's sresult"
  dr_sqlite_migrate :: "'s \<Rightarrow> 'w \<Rightarrow> 'w \<times> unit sresult"
  dr_pg_connect :: "pg_pool_options \<Rightarrow> 'w \<Rightarrow> 'w \<times> 'p sresult"
  dr_pg_migrate :: "'p \<Rightarrow> 'w \<Rightarrow> 'w \<times> unit sresult"
  dr_redis_open :: "string \<Rightarrow> string + 'c"
  dr_redis_manager :: "'c \<Rightarrow> 'w \<Rightarrow> 'w \<times> (string + 'r)"

definition postgres_backend_open ::
  "('w, 's, 'p, 'c, 'r) drivers \<Rightarrow> string \<Rightarrow> nat \<Rightarrow> 'w \<Rightarrow> 'w \<times> 'p sresult" where
  "postgres_backend_open dr url max_connections w =
     (case dr_pg_connect dr \<lparr>po_url = url, po_max_connections = max_connections, po_acquire_timeout_s = 10\<rparr> w of
        (w1, Inl e) \<Rightarrow> (w1, Inl e)
      | (w1, Inr pool) \<Rightarrow>
          (case dr_pg_migrate dr pool w1 of
             (w2, Inl e) \<Rightarrow> (w2, Inl e)
           | (w2, Inr _) \<Rightarrow> (w2, Inr pool)))"

definition redis_connect :: "('w, 's, 'p, 'c, 'r) drivers \<Rightarrow> string \<Rightarrow> 'w \<Rightarrow> 'w \<times> 'r sresult" where
  "redis_connect dr url w =
     (case dr_redis_open dr url of
        Inl e \<Rightarrow> (w, Inl (SUnavailable (''redis open: '' @ e)))
      | Inr client \<Rightarrow>
          (case dr_redis_manager dr client w of
             (w1, Inl e) \<Rightarrow> (w1, Inl (SUnavailable (''redis connect: '' @ e)))
           | (w1, Inr conn) \<Rightarrow> (w1, Inr conn)))"

section \<open>The bundle of stores\<close>

datatype ('s, 'p) metadata_backend = SqliteMetadata 's | PostgresMetadata 'p | MemoryMetadata
datatype ('s, 'p) log_backend = SqliteLog 's | PostgresLog 'p | MemoryLog nat
datatype ('s, 'r) kv_backend = SqliteKv 's nat | RedisKv 'r | MemoryKv
datatype 'r counter_backend = RedisCounter 'r | MemoryCounter

record ('s, 'p, 'r) store_bundle =
  sb_metadata :: "('s, 'p) metadata_backend"
  sb_logs :: "('s, 'p) log_backend"
  sb_kv :: "('s, 'r) kv_backend"
  sb_counter :: "'r counter_backend"

definition open_stores ::
  "('w, 's, 'p, 'c, 'r) drivers \<Rightarrow> app_config \<Rightarrow> 'w \<Rightarrow> 'w \<times> (string + ('s, 'p, 'r) store_bundle)" where
  "open_stores dr config w =
     (case storage config of
        Lite sqlite cache \<Rightarrow>
          (case sqlite_backend_open (dr_fs dr) (dr_sqlite_connect dr) (dr_sqlite_migrate dr) (sqlite_pool_config_new (sqlite_path sqlite)) w of
             (w1, Inl e) \<Rightarrow> (w1, Inl (''opening sqlite db at '' @ sqlite_path sqlite))
           | (w1, Inr pool) \<Rightarrow>
               (w1, Inr \<lparr>sb_metadata = SqliteMetadata pool, sb_logs = SqliteLog pool, sb_kv = SqliteKv pool (l1_memory_mb cache),
                          sb_counter = MemoryCounter\<rparr>))
      | Standard pg redis cache \<Rightarrow>
          (case postgres_backend_open dr (pg_url pg) (pg_max_connections pg) w of
             (w1, Inl e) \<Rightarrow> (w1, Inl ''opening postgres pool'')
           | (w1, Inr pool) \<Rightarrow>
               (case redis_connect dr (redis_url redis) w1 of
                  (w2, Inl e) \<Rightarrow> (w2, Inl ''connecting to redis'')
                | (w2, Inr conn) \<Rightarrow>
                    (w2, Inr \<lparr>sb_metadata = PostgresMetadata pool, sb_logs = PostgresLog pool, sb_kv = RedisKv conn, sb_counter = RedisCounter conn\<rparr>)))
      | Memory cache \<Rightarrow>
          (w, Inr \<lparr>sb_metadata = MemoryMetadata, sb_logs = MemoryLog 10000, sb_kv = MemoryKv, sb_counter = MemoryCounter\<rparr>))"

section \<open>What is opened\<close>

text \<open>Which stores are opened and how depends on the configuration only through \<open>store_choice_of\<close>; so the start may take the opening of a
  choice as a parameter.\<close>

lemma open_stores_choice: "store_choice_of config = store_choice_of config' \<Longrightarrow> open_stores dr config w = open_stores dr config' w"
  by (auto simp: store_choice_of_def open_stores_def split: storage_config.splits)

text \<open>The stores of a bundle are over the same database and the same connection: metadata, logs and the cache of the single-process profile share
  one pool, and with it the lock that serialises their writes; PostgreSQL and Redis come together or not at all; the in-memory
  profile touches nothing outside and does not fail.\<close>

theorem bundle_of_one_database:
  "case storage config of
     Lite sqlite cache \<Rightarrow> (\<forall>w1 b. open_stores dr config w = (w1, Inr b) \<longrightarrow>
       (\<exists>pool. b = \<lparr>sb_metadata = SqliteMetadata pool, sb_logs = SqliteLog pool, sb_kv = SqliteKv pool (l1_memory_mb cache), sb_counter = MemoryCounter\<rparr>))
   | Standard pg redis cache \<Rightarrow> (\<forall>w1 b. open_stores dr config w = (w1, Inr b) \<longrightarrow>
       (\<exists>pool conn. b = \<lparr>sb_metadata = PostgresMetadata pool, sb_logs = PostgresLog pool, sb_kv = RedisKv conn, sb_counter = RedisCounter conn\<rparr>))
   | Memory cache \<Rightarrow> (\<exists>b. open_stores dr config w = (w, Inr b))"
  by (auto simp: open_stores_def split: storage_config.split prod.splits sum.splits)

text \<open>Redis is contacted only after PostgreSQL was opened and migrated.\<close>

lemma redis_after_postgres:
  assumes "storage config = Standard pg redis cache" "postgres_backend_open dr (pg_url pg) (pg_max_connections pg) w = (w1, Inl e)"
  shows "open_stores dr config w = (w1, Inl ''opening postgres pool'')"
  using assms by (simp add: open_stores_def)

end
