(* ===== verification/Log_Views.thy ===== *)
theory Log_Views
  imports Sqlite_Logs Errors
begin

text \<open>
  The log views of the admin API (\<open>gateway-api/src/routes/admin/logs.rs\<close>): the list of log lines with a preview of each
  request, and the detail of one line. As in the other admin handlers, the admin principal has been established
  before. serde's JSON parser is the parameter \<open>parse\<close>.
\<close>

section \<open>Previews\<close>

definition PREVIEW_HEAD_CHARS :: nat where "PREVIEW_HEAD_CHARS = 24"
definition PREVIEW_TAIL_CHARS :: nat where "PREVIEW_TAIL_CHARS = 24"
definition PREVIEW_MAX_CHARS :: nat where "PREVIEW_MAX_CHARS = 400"

text \<open>U+2026.\<close>

definition ELLIPSIS :: string where "ELLIPSIS = [CHR 0xE2, CHR 0x80, CHR 0xA6]"

definition char_count :: "string \<Rightarrow> nat" where
  "char_count s = length (utf8_chars s)"

fun content_parts :: "json list \<Rightarrow> string \<Rightarrow> string" where
  "content_parts [] out = out"
| "content_parts (p # ps) out =
     (case Option.bind (json_get p ''text'') as_str of
        None \<Rightarrow> content_parts ps out
      | Some t \<Rightarrow> content_parts ps ((if out = [] then [] else out @ '' '') @ t))"

fun content_text :: "json \<Rightarrow> string option" where
  "content_text (JString s) = Some s"
| "content_text (JArray parts) = (let out = content_parts parts [] in if out = [] then None else Some out)"
| "content_text v = None"

text \<open>\<open>split_whitespace\<close>: the maximal runs of characters that are not white space.\<close>

function split_words :: "string list \<Rightarrow> string list list" where
  "split_words cs =
     (case dropWhile is_whitespace cs of
        [] \<Rightarrow> []
      | c # ds \<Rightarrow> (c # takeWhile (\<lambda>d. \<not> is_whitespace d) ds) # split_words (dropWhile (\<lambda>d. \<not> is_whitespace d) ds))"
  by pat_completeness auto
termination
proof (relation "measure length", simp)
  fix cs c and ds :: "string list"
  assume "dropWhile is_whitespace cs = c # ds"
  then have "Suc (length ds) \<le> length cs" by (metis length_Cons length_dropWhile_le)
  then show "(dropWhile (\<lambda>d. \<not> is_whitespace d) ds, cs) \<in> measure length"
    using length_dropWhile_le [of "\<lambda>d. \<not> is_whitespace d" ds] by simp
qed

declare split_words.simps [simp del]

fun join_words :: "string list \<Rightarrow> string" where
  "join_words [] = []"
| "join_words [w] = w"
| "join_words (w # ws) = w @ '' '' @ join_words ws"

definition normalize_ws :: "string \<Rightarrow> string" where
  "normalize_ws s = join_words (map concat (split_words (utf8_chars s)))"

definition clip_middle :: "string \<Rightarrow> nat \<Rightarrow> nat \<Rightarrow> string" where
  "clip_middle s head tail =
     (let chars = utf8_chars s in
      if length chars \<le> head + tail + 1 then s
      else concat (take head chars) @ ELLIPSIS @ concat (drop (length chars - tail) chars))"

fun preview_loop :: "json list \<Rightarrow> string \<Rightarrow> string" where
  "preview_loop [] out = out"
| "preview_loop (m # msgs) out =
     (case Option.bind (json_get m ''content'') content_text of
        None \<Rightarrow> preview_loop msgs out
      | Some text \<Rightarrow>
          (let role = unwrap_or (Option.bind (json_get m ''role'') as_str) ''?'';
               out1 = (if out = [] then [] else out @ '' | '') @ role @ '': ''
                        @ clip_middle (normalize_ws text) PREVIEW_HEAD_CHARS PREVIEW_TAIL_CHARS
           in if PREVIEW_MAX_CHARS \<le> char_count out1 then out1 else preview_loop msgs out1))"

definition request_preview :: "(string \<Rightarrow> json option) \<Rightarrow> string \<Rightarrow> string option" where
  "request_preview parse body =
     (let sampled = (case Option.bind (Option.bind (parse body) (\<lambda>v. json_get v ''messages'')) as_array of
            None \<Rightarrow> [] | Some msgs \<Rightarrow> preview_loop msgs []);
          out1 = (if sampled = [] then clip_middle (normalize_ws body) 60 60 else sampled);
          out2 = (if PREVIEW_MAX_CHARS < char_count out1 then concat (take PREVIEW_MAX_CHARS (utf8_chars out1)) @ ELLIPSIS else out1)
      in if out2 = [] then None else Some out2)"

section \<open>Lines as JSON\<close>

definition json_of_int :: "int \<Rightarrow> json" where
  "json_of_int i = JNumber (if 0 \<le> i then PosInt (nat i) else NegInt i)"

text \<open>serde\_json has no representation for a number that is not finite.\<close>

definition json_of_f64 :: "f64 \<Rightarrow> json" where
  "json_of_f64 v = (if f64_is_finite v then JNumber (Float v) else JNull)"

definition json_of_opt :: "('a \<Rightarrow> json) \<Rightarrow> 'a option \<Rightarrow> json" where
  "json_of_opt f v = (case v of None \<Rightarrow> JNull | Some a \<Rightarrow> f a)"

text \<open>\<open>request_body\<close> is marked \<open>skip_serializing\<close>.\<close>

definition row_json :: "request_log_row \<Rightarrow> (string \<times> json) list" where
  "row_json r =
     [(''cached'', JBool (lw_cached r)),
      (''completion_tokens'', json_of_opt json_of_int (lw_completion_tokens r)),
      (''cost_usd'', json_of_opt json_of_f64 (lw_cost_usd r)),
      (''duration_ms'', json_of_opt json_of_int (lw_duration_ms r)),
      (''endpoint'', json_of_opt JString (lw_endpoint r)),
      (''gateway_key_id'', json_of_opt JString (lw_gateway_key_id r)),
      (''http_status'', json_of_opt json_of_int (lw_http_status r)),
      (''id'', JString (lw_id r)),
      (''model'', json_of_opt JString (lw_model r)),
      (''namespace'', json_of_opt JString (lw_namespace r)),
      (''project_id'', JString (lw_project_id r)),
      (''prompt_tokens'', json_of_opt json_of_int (lw_prompt_tokens r)),
      (''request_ts'', json_of_int (lw_request_ts r)),
      (''retry_count'', json_of_int (lw_retry_count r)),
      (''status'', JString (lw_status r))]"

definition record_json :: "request_log_record \<Rightarrow> json" where
  "record_json r = JObject
     [(''cached'', JBool (lr_cached r)),
      (''cached_tokens'', json_of_opt json_of_int (lr_cached_tokens r)),
      (''client_ip'', json_of_opt JString (lr_client_ip r)),
      (''completion_tokens'', json_of_opt json_of_int (lr_completion_tokens r)),
      (''cost_usd'', json_of_opt json_of_f64 (lr_cost_usd r)),
      (''duration_ms'', json_of_opt json_of_int (lr_duration_ms r)),
      (''endpoint'', json_of_opt JString (lr_endpoint r)),
      (''error_message'', json_of_opt JString (lr_error_message r)),
      (''fallback_used'', json_of_opt JString (lr_fallback_used r)),
      (''gateway_key_id'', json_of_opt JString (lr_gateway_key_id r)),
      (''http_status'', json_of_opt json_of_int (lr_http_status r)),
      (''id'', JString (lr_id r)),
      (''metadata'', json_of_opt id (lr_metadata r)),
      (''model'', json_of_opt JString (lr_model r)),
      (''namespace'', json_of_opt JString (lr_namespace r)),
      (''project_id'', JString (lr_project_id r)),
      (''prompt_tokens'', json_of_opt json_of_int (lr_prompt_tokens r)),
      (''request_body'', json_of_opt JString (lr_request_body r)),
      (''request_ts'', json_of_int (lr_request_ts r)),
      (''response_body'', json_of_opt JString (lr_response_body r)),
      (''retry_count'', json_of_int (lr_retry_count r)),
      (''status'', JString (lr_status r)),
      (''total_tokens'', json_of_opt json_of_int (lr_total_tokens r)),
      (''ttfb_ms'', json_of_opt json_of_int (lr_ttfb_ms r)),
      (''upstream_ms'', json_of_opt json_of_int (lr_upstream_ms r)),
      (''user_agent'', json_of_opt JString (lr_user_agent r)),
      (''would_have_cost_usd'', json_of_opt json_of_f64 (lr_would_have_cost_usd r))]"

section \<open>Handlers\<close>

record list_logs_query =
  lq_project_id :: "string option"
  lq_gateway_key_id :: "string option"
  lq_namespace :: "string option"
  lq_model :: "string option"
  lq_status :: "string option"
  lq_from :: "timestamp option"
  lq_to :: "timestamp option"
  lq_limit :: "nat option"
  lq_cursor :: "string option"

record logs_response =
  lv_items :: "json list"
  lv_next_cursor :: "string option"

definition store_query :: "string \<Rightarrow> list_logs_query \<Rightarrow> log_query" where
  "store_query default_project q =
     \<lparr>q_project_id = or_else (lq_project_id q) (Some default_project), q_gateway_key_id = lq_gateway_key_id q,
      q_namespace = lq_namespace q, q_model = lq_model q, q_status = lq_status q, q_from_ts = lq_from q, q_to_ts = lq_to q,
      q_limit = unwrap_or (lq_limit q) 50, q_cursor = lq_cursor q\<rparr>"

definition list_item :: "(string \<Rightarrow> json option) \<Rightarrow> request_log_row \<Rightarrow> json" where
  "list_item parse r =
     JObject (case Option.bind (lw_request_body r) (request_preview parse) of
        None \<Rightarrow> row_json r
      | Some p \<Rightarrow> obj_insert ''request_preview'' (JString p) (row_json r))"

definition admin_list_logs ::
  "(string \<Rightarrow> json option) \<Rightarrow> 'l log_ops \<Rightarrow> string \<Rightarrow> list_logs_query \<Rightarrow> 'l \<Rightarrow> api_error + logs_response" where
  "admin_list_logs parse ops default_project q st =
     (case log_query_rows ops st (store_query default_project q) of
        Inl e \<Rightarrow> Inl (ApiStorage e)
      | Inr pg \<Rightarrow> Inr \<lparr>lv_items = map (list_item parse) (items pg), lv_next_cursor = next_cursor pg\<rparr>)"

definition admin_get_log :: "'l log_ops \<Rightarrow> string \<Rightarrow> 'l \<Rightarrow> api_error + json" where
  "admin_get_log ops ident st =
     (case get_by_id ops st ident of
        Inl e \<Rightarrow> Inl (ApiStorage e)
      | Inr None \<Rightarrow> Inl (Gateway NotFound)
      | Inr (Some r) \<Rightarrow> Inr (record_json r))"

section \<open>The size of a preview\<close>

lemma chars_start:
  "s = [] \<or> \<not> is_cont_byte (hd s) \<Longrightarrow> concat (take m (utf8_chars s)) = [] \<or> \<not> is_cont_byte (hd (concat (take m (utf8_chars s))))"
  by (cases s; cases m) simp_all

lemma span_append:
  "\<forall>x \<in> set xs. P x \<Longrightarrow> ys = [] \<or> \<not> P (hd ys) \<Longrightarrow> takeWhile P (xs @ ys) = xs \<and> dropWhile P (xs @ ys) = ys"
proof (induction xs)
  case Nil
  then show ?case by (cases ys) simp_all
qed simp

lemma utf8_chars_take: "utf8_chars (concat (take n (utf8_chars s))) = take n (utf8_chars s)"
proof (induction s arbitrary: n rule: utf8_chars.induct)
  case (2 c cs)
  show ?case
  proof (cases n)
    case (Suc m)
    let ?rest = "concat (take m (utf8_chars (dropWhile is_cont_byte cs)))"
    have start: "?rest = [] \<or> \<not> is_cont_byte (hd ?rest)"
      by (rule chars_start) (metis hd_dropWhile)
    have "takeWhile is_cont_byte (takeWhile is_cont_byte cs @ ?rest) = takeWhile is_cont_byte cs \<and>
        dropWhile is_cont_byte (takeWhile is_cont_byte cs @ ?rest) = ?rest"
      using start by (intro span_append) (blast dest: set_takeWhileD)+
    with Suc 2 [of m] show ?thesis by simp
  qed simp
qed simp

lemma char_count_append: "char_count (a @ b) \<le> char_count a + char_count b"
proof -
  have drop: "length (utf8_chars (dropWhile is_cont_byte b)) \<le> length (utf8_chars b)" for b
  proof (cases b)
    case (Cons c cs)
    then show ?thesis by (cases "is_cont_byte c") simp_all
  qed simp
  show ?thesis unfolding char_count_def
  proof (induction a rule: utf8_chars.induct)
    case (2 c cs)
    show ?case
    proof (cases "dropWhile is_cont_byte cs")
      case Nil
      then have "dropWhile is_cont_byte (cs @ b) = dropWhile is_cont_byte b"
        by (simp add: dropWhile_append dropWhile_eq_Nil_conv)
      with Nil drop [of b] show ?thesis by simp
    next
      case (Cons d ds)
      then have "dropWhile is_cont_byte (cs @ b) = dropWhile is_cont_byte cs @ b"
        by (metis dropWhile_append dropWhile_eq_Nil_conv list.distinct(1))
      with 2 show ?thesis by simp
    qed
  qed simp
qed

lemma char_count_take: "char_count (concat (take n (utf8_chars s))) \<le> n"
  by (simp add: char_count_def utf8_chars_take)

lemma preview_bound:
  assumes "request_preview parse body = Some p"
  shows "p \<noteq> [] \<and> char_count p \<le> PREVIEW_MAX_CHARS + 1"
proof -
  have "char_count (concat (take PREVIEW_MAX_CHARS (utf8_chars out)) @ ELLIPSIS) \<le> PREVIEW_MAX_CHARS + 1" for out
  proof -
    have "char_count ELLIPSIS = 1" by (simp add: char_count_def ELLIPSIS_def is_cont_byte_def byte_def)
    with char_count_append [of "concat (take PREVIEW_MAX_CHARS (utf8_chars out))" ELLIPSIS] char_count_take [of PREVIEW_MAX_CHARS out]
    show ?thesis by simp
  qed
  then show ?thesis using assms by (auto simp: request_preview_def Let_def split: if_splits)
qed

text \<open>A message contributes at most 49 characters of its content.\<close>

lemma clip_middle_bound: "char_count (clip_middle s head tail) \<le> head + tail + 1"
proof -
  have last: "char_count (concat (drop (length cs - n) cs)) \<le> n" if "cs = utf8_chars s" for cs n
  proof -
    have "char_count (concat ds) \<le> length ds" if "\<forall>d \<in> set ds. char_count d \<le> 1" for ds
      using that
    proof (induction ds)
      case (Cons d ds)
      with char_count_append [of d "concat ds"] show ?case by force
    qed (simp add: char_count_def)
    moreover have "\<forall>d \<in> set cs. char_count d \<le> 1"
      unfolding that
    proof (induction s rule: utf8_chars.induct)
      case (2 c cs)
      have "dropWhile is_cont_byte (takeWhile is_cont_byte cs) = []"
        unfolding dropWhile_eq_Nil_conv by (blast dest: set_takeWhileD)
      then have "utf8_chars (dropWhile is_cont_byte (takeWhile is_cont_byte cs)) = []" by (simp only: utf8_chars.simps)
      with 2 show ?case by (simp add: char_count_def)
    qed simp
    then have "\<forall>d \<in> set (drop (length cs - n) cs). char_count d \<le> 1" by (blast dest: in_set_dropD)
    ultimately have "char_count (concat (drop (length cs - n) cs)) \<le> length (drop (length cs - n) cs)" by blast
    then show ?thesis by simp
  qed
  let ?cs = "utf8_chars s"
  have e: "char_count ELLIPSIS = 1" by (simp add: char_count_def ELLIPSIS_def is_cont_byte_def byte_def)
  have "char_count (concat (take head ?cs) @ ELLIPSIS @ concat (drop (length ?cs - tail) ?cs)) \<le> head + tail + 1"
    using char_count_append [of "concat (take head ?cs)" "ELLIPSIS @ concat (drop (length ?cs - tail) ?cs)"]
      char_count_append [of ELLIPSIS "concat (drop (length ?cs - tail) ?cs)"] char_count_take [of head s] last [OF refl, of tail] e by simp
  then show ?thesis by (simp add: clip_middle_def Let_def char_count_def)
qed

section \<open>What the list shows\<close>

lemma row_json_lookup:
  "map_of (row_json r) ''project_id'' = Some (JString (lw_project_id r))" "map_of (row_json r) ''id'' = Some (JString (lw_id r))"
  "map_of (row_json r) ''request_body'' = None" "map_of (row_json r) ''request_preview'' = None"
  by (simp_all add: row_json_def)

lemma list_item_fields:
  "json_get (list_item parse r) ''project_id'' = Some (JString (lw_project_id r))
   \<and> json_get (list_item parse r) ''request_body'' = None
   \<and> json_get (list_item parse r) ''request_preview'' = map_option JString (Option.bind (lw_request_body r) (request_preview parse))"
  by (simp add: list_item_def row_json_lookup split: option.split)

lemma list_item_preview:
  "case json_get (list_item parse w) ''request_preview'' of
     None \<Rightarrow> True | Some v \<Rightarrow> \<exists>p. v = JString p \<and> p \<noteq> [] \<and> char_count p \<le> 401"
proof (cases "Option.bind (lw_request_body w) (request_preview parse)")
  case None
  then show ?thesis by (simp add: list_item_fields)
next
  case (Some p)
  then obtain body where "request_preview parse body = Some p" by (cases "lw_request_body w") simp_all
  from preview_bound [OF this] Some show ?thesis by (simp add: list_item_fields PREVIEW_MAX_CHARS_def)
qed


definition demo_view_store :: sq_logs where
  "demo_view_store = log_store_new \<lparr>lg_rows = [\<lparr>lt_cols = (demo_log ''a'' 1)\<lparr>lr_request_body := Some ''hello  world''\<rparr>, lt_metadata = None\<rparr>],
     lg_fault = (\<lambda>n. None)\<rparr>"

definition demo_view_ext :: log_ext where
  "demo_view_ext = \<lparr>sx_msg = (\<lambda>e. []), sx_enc_scopes = (\<lambda>s. []), sx_dec_scopes = (\<lambda>t. Inr []),
     sx_enc = (\<lambda>j. []), sx_dec = (\<lambda>t. Inr JNull), lx_provider = (\<lambda>t. None), lx_day = show_int, lx_hour = show_int,
     lx_sum = (\<lambda>vs. f64_0), lx_round6 = (\<lambda>v. v)\<rparr>"

definition demo_view_query :: list_logs_query where
  "demo_view_query = \<lparr>lq_project_id = None, lq_gateway_key_id = None, lq_namespace = None, lq_model = None, lq_status = None,
     lq_from = None, lq_to = None, lq_limit = None, lq_cursor = None\<rparr>"


end
