(* ===== verification/Utf8.thy ===== *)
theory Utf8
  imports Prelude
begin

text \<open>
  UTF-8 validation and lossy decoding as Rust's standard library defines them:
  \<open>std::str::from_utf8\<close> accepts well-formed byte strings, \<open>String::from_utf8_lossy\<close> replaces each maximal
  ill-formed prefix by one U+FFFD.
\<close>

definition in_rng :: "nat \<Rightarrow> nat \<Rightarrow> char \<Rightarrow> bool" where
  "in_rng lo hi c \<longleftrightarrow> lo \<le> byte c \<and> byte c \<le> hi"

text \<open>The ranges of the continuation bytes that a lead byte asks for; none for a byte that cannot lead.\<close>

definition conts :: "char \<Rightarrow> (nat \<times> nat) list option" where
  "conts c =
     (let b = byte c in
      if b < 128 then Some []
      else if b < 194 then None
      else if b < 224 then Some [(128, 191)]
      else if b = 224 then Some [(160, 191), (128, 191)]
      else if b = 237 then Some [(128, 159), (128, 191)]
      else if b < 240 then Some [(128, 191), (128, 191)]
      else if b = 240 then Some [(144, 191), (128, 191), (128, 191)]
      else if b < 244 then Some [(128, 191), (128, 191), (128, 191)]
      else if b = 244 then Some [(128, 143), (128, 191), (128, 191)]
      else None)"

fun match_conts :: "(nat \<times> nat) list \<Rightarrow> bytes \<Rightarrow> bool \<times> nat" where
  "match_conts [] cs = (True, 0)"
| "match_conts (r # rs) [] = (False, 0)"
| "match_conts ((lo, hi) # rs) (c # cs) =
     (if in_rng lo hi c then (let (k, n) = match_conts rs cs in (k, Suc n)) else (False, 0))"

text \<open>One step: whether a character is complete, and how many bytes after the lead byte it spans.\<close>

definition utf8_step :: "char \<Rightarrow> bytes \<Rightarrow> bool \<times> nat" where
  "utf8_step c cs = (case conts c of None \<Rightarrow> (False, 0) | Some rs \<Rightarrow> match_conts rs cs)"

function utf8_valid :: "bytes \<Rightarrow> bool" where
  "utf8_valid [] = True"
| "utf8_valid (c # cs) = (fst (utf8_step c cs) \<and> utf8_valid (drop (snd (utf8_step c cs)) cs))"
  by pat_completeness auto
termination
  by (relation "measure length") auto

definition REPLACEMENT :: bytes where
  "REPLACEMENT = [CHR 0xEF, CHR 0xBF, CHR 0xBD]"

function from_utf8_lossy :: "bytes \<Rightarrow> bytes" where
  "from_utf8_lossy [] = []"
| "from_utf8_lossy (c # cs) =
     (let (k, n) = utf8_step c cs in
      (if k then c # take n cs else REPLACEMENT) @ from_utf8_lossy (drop n cs))"
  by pat_completeness auto
termination
  by (relation "measure length") auto

definition from_utf8 :: "bytes \<Rightarrow> string option" where
  "from_utf8 s = (if utf8_valid s then Some s else None)"

section \<open>Facts\<close>

lemma match_conts_append:
  "fst (match_conts rs cs) \<Longrightarrow> match_conts rs (take (snd (match_conts rs cs)) cs @ ds) = match_conts rs cs"
  by (induction rs cs rule: match_conts.induct) (auto simp: case_prod_unfold Let_def split: if_splits)

lemma match_conts_len: "fst (match_conts rs cs) \<Longrightarrow> snd (match_conts rs cs) = length rs \<and> length rs \<le> length cs"
  by (induction rs cs rule: match_conts.induct) (auto simp: case_prod_unfold Let_def split: if_splits)

lemma utf8_step_append:
  "utf8_step c cs = (True, n) \<Longrightarrow> utf8_step c (take n cs @ ds) = (True, n) \<and> length (take n cs) = n"
proof -
  assume "utf8_step c cs = (True, n)"
  then obtain rs where "conts c = Some rs" "match_conts rs cs = (True, n)"
    by (auto simp: utf8_step_def split: option.splits)
  with match_conts_append [of rs cs ds] match_conts_len [of rs cs] show ?thesis
    by (simp add: utf8_step_def)
qed

lemma utf8_valid_char_append:
  assumes "utf8_step c cs = (True, n)"
  shows "utf8_valid (c # take n cs @ ds) \<longleftrightarrow> utf8_valid ds"
  using utf8_step_append [OF assms, of ds] by simp

lemma utf8_valid_replacement: "utf8_valid (REPLACEMENT @ ds) \<longleftrightarrow> utf8_valid ds"
  by (simp add: REPLACEMENT_def utf8_step_def conts_def byte_def in_rng_def)

lemma from_utf8_lossy_valid: "utf8_valid (from_utf8_lossy s)"
proof (induction s rule: from_utf8_lossy.induct)
  case (2 c cs)
  obtain k n where s: "utf8_step c cs = (k, n)" by fastforce
  from 2 [OF s [symmetric]] s show ?case
    by (cases k) (simp_all add: utf8_valid_char_append utf8_valid_replacement del: utf8_valid.simps)
qed simp

lemma from_utf8_lossy_id: "utf8_valid s \<Longrightarrow> from_utf8_lossy s = s"
  by (induction s rule: utf8_valid.induct) (auto simp: case_prod_unfold)

end
