(* ===== verification/Request_Log.thy ===== *)
theory Request_Log
  imports Utf8 Cache_Policy Storage_Models
begin

text \<open>
  What a request leaves in the log: the redaction and clipping of bodies in
  \<open>gateway-api/src/routes/proxy.rs\<close> and the record builder of \<open>gateway-api/src/logging.rs\<close>.
  Serialising JSON is serde\_json's work: \<open>chunks\<close> gives the successive buffers it writes for a value, so
  that what the size-limited writer makes of them is modelled here.
\<close>

section \<open>Redaction of embedded binary data\<close>

definition MAX_LOG_BODY_BYTES :: nat where "MAX_LOG_BODY_BYTES = 65536"

text \<open>The marker appended to a clipped body: a newline, an ellipsis and a word.\<close>

definition TRUNCATED_MARK :: string where
  "TRUNCATED_MARK = [CHR 0x0A, CHR 0xE2, CHR 0x80, CHR 0xA6] @ ''[truncated]''"

definition is_base64_field_name :: "string \<Rightarrow> bool" where
  "is_base64_field_name name \<longleftrightarrow>
     eq_ignore_ascii_case name ''base64'' \<or> eq_ignore_ascii_case name ''base64_data''
     \<or> eq_ignore_ascii_case name ''b64_json'' \<or> ends_with (to_ascii_lowercase name) ''_base64''"

definition data_url_parts :: "string \<Rightarrow> (string \<times> string) option" where
  "data_url_parts value =
     (if length value < 5 \<or> \<not> eq_ignore_ascii_case (take 5 value) ''data:'' then None
      else Option.bind (split_once (CHR '','') (drop 5 value)) (\<lambda>(metadata, payload).
        if \<not> (\<exists>part \<in> set (split_on (CHR '';'') metadata). eq_ignore_ascii_case part ''base64'') then None
        else (let media = hd (split_on (CHR '';'') metadata)
              in Some (if media = [] then ''text/plain'' else media, payload))))"

definition is_ascii_whitespace :: "char \<Rightarrow> bool" where
  "is_ascii_whitespace c \<longleftrightarrow> byte c \<in> {9, 10, 12, 13, 32}"

definition decoded_base64_len :: "string \<Rightarrow> nat" where
  "decoded_base64_len value =
     (let significant = length (filter (\<lambda>c. \<not> is_ascii_whitespace c) value);
          padding = length (filter (\<lambda>c. c = CHR ''='') (filter (\<lambda>c. \<not> is_ascii_whitespace c) value))
      in u64_saturating_mul significant 6 div 8 - min padding 2)"

definition base64_summary :: "string \<Rightarrow> bool \<Rightarrow> string option \<Rightarrow> string option" where
  "base64_summary value force media_type =
     Option.bind
       (if force then Some (unwrap_or media_type ''application/octet-stream'', value) else data_url_parts value)
       (\<lambda>(media, payload).
          Some (''[base64 '' @ media @ '', '' @ show_nat (decoded_base64_len payload) @ '' bytes]''))"

definition object_media_type :: "(string \<times> json) list \<Rightarrow> string option" where
  "object_media_type m = Option.bind (or_else (map_of m ''media_type'') (map_of m ''mime_type'')) as_str"

definition declares_base64 :: "(string \<times> json) list \<Rightarrow> bool" where
  "declares_base64 m \<longleftrightarrow>
     (case Option.bind (map_of m ''type'') as_str of Some kind \<Rightarrow> eq_ignore_ascii_case kind ''base64'' | None \<Rightarrow> False)
     \<or> (object_media_type m \<noteq> None \<and> map_of m ''data'' \<noteq> None)"

text \<open>The value that \<open>RedactedJson\<close> serialises in place of \<open>v\<close>.\<close>

function redact :: "json \<Rightarrow> bool \<Rightarrow> string option \<Rightarrow> json" where
  "redact JNull force media = JNull"
| "redact (JBool b) force media = JBool b"
| "redact (JNumber n) force media = JNumber n"
| "redact (JString s) force media =
     (case base64_summary s force media of Some summary \<Rightarrow> JString summary | None \<Rightarrow> JString s)"
| "redact (JArray vs) force media = JArray (map (\<lambda>v. redact v False None) vs)"
| "redact (JObject m) force media =
     JObject (map (\<lambda>(k, v).
       let f = is_base64_field_name k \<or> (declares_base64 m \<and> eq_ignore_ascii_case k ''data'')
       in (k, redact v f (if f then object_media_type m else None))) m)"
  by pat_completeness auto
termination
proof (relation "measure (\<lambda>(v, f, t). size v)", goal_cases)
  case (2 vs force media v)
  then show ?case by (simp add: less_Suc_eq_le size_list_estimation')
next
  case (3 m force media kv k v f)
  then have "size v \<le> size_list (size_prod (\<lambda>_. 0) size) m"
    by (intro size_list_estimation' [where x = "(k, v)"]) auto
  then show ?case by simp
qed simp

section \<open>The size-limited writer\<close>

record log_body_writer =
  lbw_bytes :: bytes
  lbw_truncated :: bool

definition lbw_new :: log_body_writer where
  "lbw_new = \<lparr>lbw_bytes = [], lbw_truncated = False\<rparr>"

text \<open>\<open>Write::write\<close>: the number of bytes taken, or an error once the limit is reached.\<close>

definition lbw_write :: "log_body_writer \<Rightarrow> bytes \<Rightarrow> log_body_writer \<times> nat option" where
  "lbw_write w buf =
     (let remaining = MAX_LOG_BODY_BYTES - length (lbw_bytes w) in
      if remaining = 0 then (w\<lparr>lbw_truncated := True\<rparr>, None)
      else (let tk = min remaining (length buf);
                w1 = w\<lparr>lbw_bytes := lbw_bytes w @ take tk buf\<rparr>
            in (if tk < length buf then w1\<lparr>lbw_truncated := True\<rparr> else w1, Some tk)))"

text \<open>\<open>Write::write_all\<close>: writes until the buffer is empty or a write fails.\<close>

function lbw_write_all :: "log_body_writer \<Rightarrow> bytes \<Rightarrow> log_body_writer \<times> bool" where
  "lbw_write_all w buf =
     (if buf = [] then (w, True)
      else (case lbw_write w buf of
              (w1, None) \<Rightarrow> (w1, False)
            | (w1, Some n) \<Rightarrow> if n = 0 then (w1, False) else lbw_write_all w1 (drop n buf)))"
  by pat_completeness auto
termination
  by (relation "measure (\<lambda>(w, buf). length buf)") auto

declare lbw_write_all.simps [simp del]

fun lbw_write_chunks :: "log_body_writer \<Rightarrow> bytes list \<Rightarrow> log_body_writer \<times> bool" where
  "lbw_write_chunks w [] = (w, True)"
| "lbw_write_chunks w (b # bs) =
     (case lbw_write_all w b of (w1, True) \<Rightarrow> lbw_write_chunks w1 bs | (w1, False) \<Rightarrow> (w1, False))"

definition redacted_json_for_log :: "(json \<Rightarrow> bytes list) \<Rightarrow> json \<Rightarrow> string" where
  "redacted_json_for_log chunks value =
     (let (w, ok) = lbw_write_chunks lbw_new (chunks (redact value False None)) in
      if \<not> ok \<and> \<not> lbw_truncated w then ''[failed to serialize request JSON]''
      else from_utf8_lossy (lbw_bytes w) @ (if lbw_truncated w then TRUNCATED_MARK else []))"

definition clip_body_for_log :: "bytes \<Rightarrow> string option" where
  "clip_body_for_log body =
     (let tk = min (length body) MAX_LOG_BODY_BYTES
      in Some (from_utf8_lossy (take tk body) @ (if tk < length body then TRUNCATED_MARK else [])))"

definition request_body_for_log :: "(json \<Rightarrow> bytes list) \<Rightarrow> bytes \<Rightarrow> json option \<Rightarrow> string option" where
  "request_body_for_log chunks body j =
     (if body = [] then None
      else (case j of Some v \<Rightarrow> Some (redacted_json_for_log chunks v) | None \<Rightarrow> clip_body_for_log body))"

definition captured_body_to_string :: "bytes \<Rightarrow> bool \<Rightarrow> string option" where
  "captured_body_to_string buf trunc =
     (if buf = [] then None
      else (let s = (case from_utf8 buf of Some t \<Rightarrow> t | None \<Rightarrow> ''[binary '' @ show_nat (length buf) @ '' bytes]'')
            in Some (if trunc then s @ TRUNCATED_MARK else s)))"

text \<open>The preview of a cached body. A slice that ends inside a character panics: \<^const>\<open>None\<close>.\<close>

fun preview_loop :: "bytes list \<Rightarrow> string \<Rightarrow> string option" where
  "preview_loop [] out = Some out"
| "preview_loop (c # cs) out =
     (if MAX_LOG_BODY_BYTES \<le> length out then Some (out @ TRUNCATED_MARK)
      else (case from_utf8 c of
              None \<Rightarrow> preview_loop cs out
            | Some s \<Rightarrow>
                Option.bind (str_slice_to s (min (length s) (MAX_LOG_BODY_BYTES - length out)))
                  (\<lambda>t. preview_loop cs (out @ t))))"

definition cached_body_preview :: "cached_response \<Rightarrow> string option option" where
  "cached_body_preview cached =
     map_option (\<lambda>out. if out = [] then None else Some out) (preview_loop (cd_chunks cached) [])"

definition extract_model :: "json option \<Rightarrow> string option" where
  "extract_model body = Option.bind body (\<lambda>b. Option.bind (json_get b ''model'') as_str)"

section \<open>The log builder\<close>

type_synonym log_builder = request_log_record

definition log_new :: "int \<Rightarrow> string \<Rightarrow> string \<Rightarrow> string option \<Rightarrow> string option \<Rightarrow> log_builder" where
  "log_new now ident project_id ns endpoint =
     \<lparr>lr_id = ident, lr_project_id = project_id, lr_gateway_key_id = None, lr_namespace = ns,
      lr_model = None, lr_endpoint = endpoint, lr_request_ts = now, lr_duration_ms = None,
      lr_upstream_ms = None, lr_ttfb_ms = None, lr_status = ''success'', lr_http_status = None,
      lr_cached = False, lr_retry_count = 0, lr_fallback_used = None, lr_prompt_tokens = None,
      lr_completion_tokens = None, lr_cached_tokens = None, lr_total_tokens = None, lr_cost_usd = None,
      lr_would_have_cost_usd = None, lr_metadata = None, lr_client_ip = None, lr_user_agent = None,
      lr_error_message = None, lr_request_body = None, lr_response_body = None\<rparr>"

definition set_id :: "string \<Rightarrow> log_builder \<Rightarrow> log_builder" where
  "set_id ident l = l\<lparr>lr_id := ident\<rparr>"

definition set_model :: "string option \<Rightarrow> log_builder \<Rightarrow> log_builder" where
  "set_model model l = l\<lparr>lr_model := model\<rparr>"

definition set_gateway_key :: "string option \<Rightarrow> log_builder \<Rightarrow> log_builder" where
  "set_gateway_key key_id l = l\<lparr>lr_gateway_key_id := key_id\<rparr>"

definition set_status :: "string \<Rightarrow> int option \<Rightarrow> log_builder \<Rightarrow> log_builder" where
  "set_status status http_status l = l\<lparr>lr_status := status, lr_http_status := http_status\<rparr>"

definition set_timing :: "int \<Rightarrow> int \<Rightarrow> int \<Rightarrow> log_builder \<Rightarrow> log_builder" where
  "set_timing duration upstream ttfb l =
     l\<lparr>lr_duration_ms := Some duration, lr_upstream_ms := Some upstream, lr_ttfb_ms := Some ttfb\<rparr>"

definition set_client :: "string option \<Rightarrow> string option \<Rightarrow> log_builder \<Rightarrow> log_builder" where
  "set_client ip user_agent l = l\<lparr>lr_client_ip := ip, lr_user_agent := user_agent\<rparr>"

definition set_request_body :: "string option \<Rightarrow> log_builder \<Rightarrow> log_builder" where
  "set_request_body body l = l\<lparr>lr_request_body := body\<rparr>"

definition set_response_body :: "string option \<Rightarrow> log_builder \<Rightarrow> log_builder" where
  "set_response_body body l = l\<lparr>lr_response_body := body\<rparr>"

definition set_error :: "string \<Rightarrow> log_builder \<Rightarrow> log_builder" where
  "set_error msg l = l\<lparr>lr_error_message := Some msg\<rparr>"

definition set_cached :: "bool \<Rightarrow> log_builder \<Rightarrow> log_builder" where
  "set_cached cached l = l\<lparr>lr_cached := cached\<rparr>"

definition set_retry :: "int \<Rightarrow> log_builder \<Rightarrow> log_builder" where
  "set_retry n l = l\<lparr>lr_retry_count := n\<rparr>"

definition set_fallback :: "string option \<Rightarrow> log_builder \<Rightarrow> log_builder" where
  "set_fallback provider l = l\<lparr>lr_fallback_used := provider\<rparr>"

definition set_token_usage :: "int option \<Rightarrow> int option \<Rightarrow> int option \<Rightarrow> int option \<Rightarrow> log_builder \<Rightarrow> log_builder" where
  "set_token_usage prompt completion cached tot l =
     l\<lparr>lr_prompt_tokens := prompt, lr_completion_tokens := completion, lr_cached_tokens := cached,
       lr_total_tokens := tot\<rparr>"

definition set_cost :: "f64 option \<Rightarrow> f64 option \<Rightarrow> log_builder \<Rightarrow> log_builder" where
  "set_cost cost would_have l = l\<lparr>lr_cost_usd := cost, lr_would_have_cost_usd := would_have\<rparr>"

definition merge_metadata :: "string \<Rightarrow> json \<Rightarrow> log_builder \<Rightarrow> log_builder" where
  "merge_metadata key value l =
     l\<lparr>lr_metadata := Some
         (case unwrap_or (lr_metadata l) (JObject []) of
            JObject m \<Rightarrow> JObject (obj_insert key value m)
          | _ \<Rightarrow> JObject [(key, value)])\<rparr>"

text \<open>\<open>submit\<close>: a failing append is only reported in the tracing output.\<close>

definition submit :: "'l log_ops \<Rightarrow> log_builder \<Rightarrow> 'l \<Rightarrow> 'l" where
  "submit ops l st = fst (log_append ops st l)"

section \<open>Writing is clipping\<close>

text \<open>The writer after \<open>d\<close> has been offered to it.\<close>

definition lbw_holds :: "log_body_writer \<Rightarrow> bytes \<Rightarrow> bool" where
  "lbw_holds w d \<longleftrightarrow> lbw_bytes w = take MAX_LOG_BODY_BYTES d \<and> (lbw_truncated w \<longleftrightarrow> MAX_LOG_BODY_BYTES < length d)"

lemma lbw_write_all_step:
  assumes "lbw_holds w d" "buf \<noteq> []"
  shows "lbw_write_all w buf =
    (if length d + length buf \<le> MAX_LOG_BODY_BYTES then (w\<lparr>lbw_bytes := d @ buf\<rparr>, True)
     else (w\<lparr>lbw_bytes := take MAX_LOG_BODY_BYTES (d @ buf), lbw_truncated := True\<rparr>, False))"
proof (cases "length d < MAX_LOG_BODY_BYTES")
  case False
  then have "lbw_write w buf = (w\<lparr>lbw_truncated := True\<rparr>, None)"
    using assms(1) by (simp add: lbw_write_def lbw_holds_def)
  moreover have "\<not> length d + length buf \<le> MAX_LOG_BODY_BYTES" using False assms(2) by (cases buf) auto
  ultimately show ?thesis using False assms by (simp add: lbw_write_all.simps lbw_holds_def)
next
  case True
  then have d: "lbw_bytes w = d" "\<not> lbw_truncated w" using assms(1) by (auto simp: lbw_holds_def)
  show ?thesis
  proof (cases "length d + length buf \<le> MAX_LOG_BODY_BYTES")
    case fits: True
    then have "lbw_write w buf = (w\<lparr>lbw_bytes := d @ buf\<rparr>, Some (length buf))"
      using True d by (auto simp: lbw_write_def Let_def min_def)
    with fits assms(2) show ?thesis by (simp add: lbw_write_all.simps [of w] lbw_write_all.simps [of _ "[]"])
  next
    case False
    let ?n = "MAX_LOG_BODY_BYTES - length d"
    let ?w = "w\<lparr>lbw_bytes := d @ take ?n buf, lbw_truncated := True\<rparr>"
    have w: "lbw_write w buf = (?w, Some ?n)"
      using True False d by (simp add: lbw_write_def Let_def min_def)
    have full: "lbw_write ?w (drop ?n buf) = (?w, None)"
      using True False by (simp add: lbw_write_def Let_def)
    have "lbw_write_all ?w (drop ?n buf) = (?w, False)"
      using full False True by (simp add: lbw_write_all.simps [of ?w])
    with w True False assms(2) show ?thesis by (simp add: lbw_write_all.simps [of w])
  qed
qed

lemma lbw_write_chunks_clip:
  "lbw_holds w d \<Longrightarrow> length d \<le> MAX_LOG_BODY_BYTES \<Longrightarrow> lbw_write_chunks w bs = (w', ok) \<Longrightarrow>
   lbw_holds w' (d @ concat bs) \<and> (ok \<longleftrightarrow> length (d @ concat bs) \<le> MAX_LOG_BODY_BYTES)"
proof (induction bs arbitrary: w d)
  case (Cons b bs)
  show ?case
  proof (cases "b = []")
    case True
    with Cons show ?thesis by (simp add: lbw_write_all.simps [of _ "[]"])
  next
    case False
    note st = lbw_write_all_step [OF Cons.prems(1) False]
    show ?thesis
    proof (cases "length d + length b \<le> MAX_LOG_BODY_BYTES")
      case True
      with Cons.prems(1,2) have "lbw_holds (w\<lparr>lbw_bytes := d @ b\<rparr>) (d @ b)" by (simp add: lbw_holds_def)
      from Cons.IH [OF this] True st Cons.prems(3) show ?thesis by simp
    next
      case big: False
      with st Cons.prems(3) show ?thesis by (auto simp: lbw_holds_def)
    qed
  qed
qed (simp add: lbw_holds_def)

section \<open>What redaction leaves\<close>

fun json_strings :: "json \<Rightarrow> string list" where
  "json_strings (JString s) = [s]"
| "json_strings (JArray vs) = concat (map json_strings vs)"
| "json_strings (JObject m) = concat (map (json_strings \<circ> snd) m)"
| "json_strings _ = []"

lemma summary_not_data_url: "data_url_parts (''[base64 '' @ s) = None"
  by (simp add: data_url_parts_def eq_ignore_ascii_case_def to_ascii_lowercase_def ascii_lower_def byte_def)

lemma redact_strings: "\<forall>s \<in> set (json_strings (redact v force media)). data_url_parts s = None"
proof (induction v force media rule: redact.induct)
  case (4 s force media)
  then show ?case
    using summary_not_data_url by (auto simp: base64_summary_def split: option.splits bind_splits if_splits)
next
  case (6 m force media)
  then show ?case by (fastforce simp: Let_def case_prod_unfold)
qed auto

lemma redacted_json_for_log_clip:
  "redacted_json_for_log chunks v =
     (let doc = concat (chunks (redact v False None))
      in from_utf8_lossy (take MAX_LOG_BODY_BYTES doc) @ (if MAX_LOG_BODY_BYTES < length doc then TRUNCATED_MARK else []))"
proof -
  obtain w ok where w: "lbw_write_chunks lbw_new (chunks (redact v False None)) = (w, ok)" by fastforce
  have "lbw_holds lbw_new []" by (simp add: lbw_holds_def lbw_new_def)
  from lbw_write_chunks_clip [OF this _ w] w show ?thesis
    by (auto simp: redacted_json_for_log_def lbw_holds_def Let_def)
qed

lemma json_strings_redact_field:
  "(k, JString s) \<in> set m \<Longrightarrow> is_base64_field_name k \<Longrightarrow>
   (k, JString (''[base64 '' @ unwrap_or (object_media_type m) ''application/octet-stream'' @ '', ''
      @ show_nat (decoded_base64_len s) @ '' bytes]'')) \<in> (case redact (JObject m) force media of JObject m' \<Rightarrow> set m' | _ \<Rightarrow> {})"
  by (force simp: base64_summary_def Let_def)



text \<open>A cached response whose chunks are valid UTF-8 can still panic the replay: the preview slices a
  chunk at the log limit, and a limit inside a character makes the slice panic. A chunk of 65,535 letters
  and one two-byte character is such a response.\<close>

theorem preview_slice_panics:
  "cd_chunks c = [replicate 65535 (CHR ''a'') @ [CHR 0xC3, CHR 0xA9]] \<Longrightarrow>
   (\<forall>s \<in> set (cd_chunks c). utf8_valid s) \<and> cached_body_preview c = None"
proof -
  have valid: "utf8_valid (replicate n (CHR ''a'') @ [CHR 0xC3, CHR 0xA9])" for n
    by (induction n) (simp_all add: utf8_step_def conts_def byte_def in_rng_def)
  assume c: "cd_chunks c = [replicate 65535 (CHR ''a'') @ [CHR 0xC3, CHR 0xA9]]"
  have "str_slice_to (replicate 65535 (CHR ''a'') @ [CHR 0xC3, CHR 0xA9]) 65536 = None"
    by (simp add: str_slice_to_def is_char_boundary_def nth_append is_cont_byte_def byte_def)
  with c valid show ?thesis
    by (simp add: cached_body_preview_def from_utf8_def MAX_LOG_BODY_BYTES_def)
qed

theorem preview_slice_panics_witness:
  "cached_body_preview \<lparr>cd_status = 200, cd_headers = [],
     cd_chunks = [replicate 65535 (CHR ''a'') @ [CHR 0xC3, CHR 0xA9]], cd_finished_at_ms = 0, cd_served_by = None\<rparr> = None"
  by (rule preview_slice_panics [THEN conjunct2]) simp

end
