(* ===== verification/Fingerprint.thy ===== *)
theory Fingerprint
  imports Json "HOL-Library.Multiset"
begin

text \<open>
  Cache keys: \<open>gateway-core/src/cache/fingerprint.rs\<close>. The hasher is the byte string fed to it;
  BLAKE3 itself is a parameter \<open>blake3_hex\<close> applied to that string, and \<open>nstr\<close> is
  serde\_json's rendering of a number.
\<close>

section \<open>Definitions\<close>

record fingerprint_inputs =
  fi_namespace :: string
  fi_endpoint :: string
  fi_body :: bytes
  fi_json_body :: "json option"
  fi_cache_scope :: "string option"

text \<open>\<open>u64::to_le_bytes\<close>: eight bytes, least significant first.\<close>

fun le_bytes :: "nat \<Rightarrow> nat \<Rightarrow> bytes" where
  "le_bytes 0 n = []"
| "le_bytes (Suc k) n = char_of (n mod 256) # le_bytes k (n div 256)"

definition hash_len :: "nat \<Rightarrow> bytes \<Rightarrow> bytes" where
  "hash_len len hasher = hasher @ le_bytes 8 (len mod 18446744073709551616)"

text \<open>
  The object branch visits the entries in the order of the sorted keys: keys are unique, so
  sorting the entries by key is the source's sorting of the keys followed by a lookup.
\<close>

function hash_json_value :: "(jnumber \<Rightarrow> string) \<Rightarrow> json \<Rightarrow> bytes \<Rightarrow> bytes" where
  "hash_json_value nstr JNull hasher = hasher @ ''n''"
| "hash_json_value nstr (JBool b) hasher = hasher @ (if b then ''b1'' else ''b0'')"
| "hash_json_value nstr (JNumber n) hasher =
     hash_len (length (nstr n)) (hasher @ ''d'') @ nstr n"
| "hash_json_value nstr (JString s) hasher = hash_len (length s) (hasher @ ''s'') @ s"
| "hash_json_value nstr (JArray arr) hasher =
     fold (\<lambda>item h. hash_json_value nstr item h) arr (hash_len (length arr) (hasher @ ''a''))"
| "hash_json_value nstr (JObject m) hasher =
     fold (\<lambda>(key, v) h. hash_json_value nstr v (hash_len (length key) h @ key)) (sort_key fst m)
       (hash_len (length m) (hasher @ ''o''))"
  by pat_completeness auto
termination
proof (relation "measure (\<lambda>(nstr, v, h). size v)", goal_cases)
  case (2 nstr arr hasher item h)
  then show ?case by (simp add: less_Suc_eq_le size_list_estimation')
next
  case (3 nstr m hasher kv key v h)
  then have "(key, v) \<in> set m" by simp
  then have "size v \<le> size_list (size_prod (\<lambda>_. 0) size) m"
    by (intro size_list_estimation' [where x = "(key, v)"]) simp_all
  then show ?case by simp
qed simp

definition fingerprint_input :: "(jnumber \<Rightarrow> string) \<Rightarrow> fingerprint_inputs \<Rightarrow> bytes" where
  "fingerprint_input nstr inp =
     (let h1 = fi_namespace inp @ ''|'' @ fi_endpoint inp @ ''|'';
          h2 = (case fi_cache_scope inp of Some s \<Rightarrow> h1 @ s | None \<Rightarrow> h1);
          h3 = h2 @ ''|''
      in case fi_json_body inp of
           Some value \<Rightarrow> hash_json_value nstr value h3
         | None \<Rightarrow> h3 @ fi_body inp)"

definition fingerprint :: "(bytes \<Rightarrow> string) \<Rightarrow> (jnumber \<Rightarrow> string) \<Rightarrow> fingerprint_inputs \<Rightarrow> string" where
  "fingerprint blake3_hex nstr inp = blake3_hex (fingerprint_input nstr inp)"


section \<open>The encoding is prefix-free\<close>

text \<open>Sizes that fit in memory: every length is a \<open>u64\<close>.\<close>

fun json_fits :: "(jnumber \<Rightarrow> string) \<Rightarrow> json \<Rightarrow> bool" where
  "json_fits nstr (JNumber n) = (length (nstr n) \<le> u64_max)"
| "json_fits nstr (JString s) = (length s \<le> u64_max)"
| "json_fits nstr (JArray xs) = (length xs \<le> u64_max \<and> (\<forall>x \<in> set xs. json_fits nstr x))"
| "json_fits nstr (JObject m) =
     (length m \<le> u64_max \<and> (\<forall>kv \<in> set m. length (fst kv) \<le> u64_max \<and> json_fits nstr (snd kv)))"
| "json_fits nstr _ = True"

definition len8 :: "nat \<Rightarrow> bytes" where
  "len8 n = le_bytes 8 (n mod 18446744073709551616)"

lemma hash_len_append: "hash_len n h = h @ len8 n"
  by (simp add: hash_len_def len8_def)

definition enc :: "(jnumber \<Rightarrow> string) \<Rightarrow> json \<Rightarrow> bytes" where
  "enc nstr v = hash_json_value nstr v []"

definition enc_entry :: "(jnumber \<Rightarrow> string) \<Rightarrow> string \<times> json \<Rightarrow> bytes" where
  "enc_entry nstr kv = len8 (length (fst kv)) @ fst kv @ enc nstr (snd kv)"

lemma fold_append_concat:
  "(\<And>x h. x \<in> set xs \<Longrightarrow> f x h = h @ g x) \<Longrightarrow> fold f xs h = h @ concat (map g xs)"
  by (induction xs arbitrary: h) simp_all

lemma hash_json_value_append: "hash_json_value nstr v h = h @ enc nstr v"
proof (induction nstr v h rule: hash_json_value.induct)
  case (5 nstr arr h)
  have "fold (hash_json_value nstr) arr h' = h' @ concat (map (enc nstr) arr)" for h'
    by (rule fold_append_concat) (rule 5)
  then show ?case by (simp add: enc_def [of nstr "JArray arr"] hash_len_append)
next
  case (6 nstr m h)
  let ?f = "\<lambda>(key, v) h. hash_json_value nstr v (hash_len (length key) h @ key)"
  have "fold ?f (sort_key fst m) h' = h' @ concat (map (enc_entry nstr) (sort_key fst m))" for h'
  proof (rule fold_append_concat)
    fix kv h'' assume "kv \<in> set (sort_key fst m)"
    with 6 [of kv "fst kv" "snd kv" h'']
    show "?f kv h'' = h'' @ enc_entry nstr kv"
      by (simp add: case_prod_unfold enc_entry_def hash_len_append)
  qed
  then show ?case by (simp add: enc_def [of nstr "JObject m"] hash_len_append)
qed (simp_all add: enc_def hash_len_append)

lemma enc_simps:
  "enc nstr JNull = ''n''" "enc nstr (JBool b) = (if b then ''b1'' else ''b0'')"
  "enc nstr (JNumber n) = ''d'' @ len8 (length (nstr n)) @ nstr n"
  "enc nstr (JString s) = ''s'' @ len8 (length s) @ s"
  "enc nstr (JArray xs) = ''a'' @ len8 (length xs) @ concat (map (enc nstr) xs)"
  "enc nstr (JObject m) = ''o'' @ len8 (length m) @ concat (map (enc_entry nstr) (sort_key fst m))"
proof -
  have f: "fold (hash_json_value nstr) xs h = h @ concat (map (enc nstr) xs)" for h
    by (rule fold_append_concat) (rule hash_json_value_append)
  have g: "fold (\<lambda>(key, v) h. hash_json_value nstr v (hash_len (length key) h @ key)) (sort_key fst m) h =
      h @ concat (map (enc_entry nstr) (sort_key fst m))" for h
    by (rule fold_append_concat)
      (simp add: case_prod_unfold enc_entry_def hash_json_value_append hash_len_append)
  show "enc nstr (JArray xs) = ''a'' @ len8 (length xs) @ concat (map (enc nstr) xs)"
    using f by (simp add: enc_def [of nstr "JArray xs"] hash_len_append)
  show "enc nstr (JObject m) = ''o'' @ len8 (length m) @ concat (map (enc_entry nstr) (sort_key fst m))"
    using g by (simp add: enc_def [of nstr "JObject m"] hash_len_append)
qed (simp_all add: enc_def hash_len_append)

lemma length_le_bytes [simp]: "length (le_bytes k n) = k"
  by (induction k n rule: le_bytes.induct) simp_all

lemma le_bytes_inj: "le_bytes k m = le_bytes k n \<Longrightarrow> m < 256 ^ k \<Longrightarrow> n < 256 ^ k \<Longrightarrow> m = n"
proof (induction k m arbitrary: n rule: le_bytes.induct)
  case (2 k m)
  then have "m mod 256 = n mod 256" "le_bytes k (m div 256) = le_bytes k (n div 256)"
    by (auto dest: arg_cong [of _ _ "of_char :: char \<Rightarrow> nat"])
  moreover from 2 have "m div 256 < 256 ^ k" "n div 256 < 256 ^ k"
    by (auto simp: less_mult_imp_div_less mult.commute)
  ultimately show ?case using "2.IH" by (metis div_mult_mod_eq)
qed simp

lemma len8_inj: "m \<le> u64_max \<Longrightarrow> n \<le> u64_max \<Longrightarrow> len8 m = len8 n \<longleftrightarrow> m = n"
  using le_bytes_inj [of 8 m n] by (auto simp: len8_def)

text \<open>A length-prefixed string or list splits off uniquely.\<close>

lemma len8_append:
  "m \<le> u64_max \<Longrightarrow> n \<le> u64_max \<Longrightarrow> len8 m @ r = len8 n @ s \<longleftrightarrow> m = n \<and> r = s"
  using len8_inj by (simp add: len8_def)

lemma len8_string:
  "length x \<le> u64_max \<Longrightarrow> length y \<le> u64_max \<Longrightarrow>
   len8 (length x) @ x @ r = len8 (length y) @ y @ s \<longleftrightarrow> x = y \<and> r = s"
  using len8_append [of "length x" "length y" "x @ r" "y @ s"] by auto

lemma concat_prefix_free:
  assumes "length xs = length ys"
    and "\<And>x y r s. x \<in> set xs \<Longrightarrow> y \<in> set ys \<Longrightarrow> f x @ r = f y @ s \<Longrightarrow> x = y \<and> r = s"
    and "concat (map f xs) @ r = concat (map f ys) @ s"
  shows "xs = ys \<and> r = s"
  using assms
proof (induction xs ys arbitrary: r s rule: list_induct2)
  case (Cons x xs y ys)
  have "x = y \<and> concat (map f xs) @ r = concat (map f ys) @ s"
    using Cons.prems(2) by (intro Cons.prems(1)) simp_all
  moreover from this have "xs = ys \<and> r = s" using Cons.prems(1) by (intro Cons.IH) auto
  ultimately show ?case by simp
qed simp

lemma sort_key_id: "sorted_wrt (<) (map fst m) \<Longrightarrow> sort_key fst m = m"
  by (rule sort_key_id_if_sorted) (rule strict_sorted_imp_sorted)

lemma enc_prefix_free:
  assumes "inj_on nstr {n. jnumber_wf n}"
  shows "json_wf v \<Longrightarrow> json_wf w \<Longrightarrow> json_fits nstr v \<Longrightarrow> json_fits nstr w \<Longrightarrow>
    enc nstr v @ r = enc nstr w @ s \<Longrightarrow> v = w \<and> r = s"
proof (induction v arbitrary: w r s)
  case JNull
  then show ?case by (cases w) (simp_all add: enc_simps split: if_splits)
next
  case (JBool b)
  then show ?case by (cases w) (simp_all add: enc_simps split: if_splits)
next
  case (JNumber n)
  then obtain n' where w: "w = JNumber n'" by (cases w) (simp_all add: enc_simps split: if_splits)
  with JNumber have "nstr n = nstr n' \<and> r = s" by (simp add: enc_simps len8_string del: append_eq_append_conv)
  with assms JNumber w show ?case by (simp add: inj_on_eq_iff)
next
  case (JString x)
  then obtain y where w: "w = JString y" by (cases w) (simp_all add: enc_simps split: if_splits)
  with JString show ?case by (simp add: enc_simps len8_string del: append_eq_append_conv)
next
  case (JArray xs)
  then obtain ys where w: "w = JArray ys" by (cases w) (simp_all add: enc_simps split: if_splits)
  with JArray.prems have "length xs = length ys \<and>
      concat (map (enc nstr) xs) @ r = concat (map (enc nstr) ys) @ s"
    by (simp add: enc_simps len8_append del: append_eq_append_conv)
  then have "xs = ys \<and> r = s"
    using JArray.IH JArray.prems w by (intro concat_prefix_free [where f = "enc nstr"]) auto
  with w show ?case by simp
next
  case (JObject m)
  then obtain m' where w: "w = JObject m'" by (cases w) (simp_all add: enc_simps split: if_splits)
  with JObject.prems have mm: "length m = length m' \<and>
      concat (map (enc_entry nstr) m) @ r = concat (map (enc_entry nstr) m') @ s"
    by (simp add: enc_simps sort_key_id len8_append del: append_eq_append_conv)
  have "x = y \<and> r' = s'" if "x \<in> set m" "y \<in> set m'" "enc_entry nstr x @ r' = enc_entry nstr y @ s'"
    for x y r' s'
  proof -
    have "fst x = fst y \<and> enc nstr (snd x) @ r' = enc nstr (snd y) @ s'"
      using that JObject.prems w
        len8_string [of "fst x" "fst y" "enc nstr (snd x) @ r'" "enc nstr (snd y) @ s'"]
      by (simp add: enc_entry_def del: append_eq_append_conv)
    moreover have "snd x \<in> Basic_BNFs.snds x" by (cases x) simp
    ultimately show ?thesis
      using that JObject.IH [of x "snd x" "snd y" r' s'] JObject.prems w by (auto simp: prod_eq_iff)
  qed
  then have "m = m' \<and> r = s" using mm by (intro concat_prefix_free [where f = "enc_entry nstr"]) auto
  with w show ?case by simp
qed

lemma fingerprint_input_json:
  "fi_json_body i = Some v \<Longrightarrow>
   fingerprint_input nstr i =
     fi_namespace i @ ''|'' @ fi_endpoint i @ ''|'' @ unwrap_or (fi_cache_scope i) [] @ ''|'' @ enc nstr v"
  by (simp add: fingerprint_input_def hash_json_value_append Let_def split: option.split)

lemma sep_append:
  fixes c :: char
  assumes "c \<notin> set a" "c \<notin> set a'" "a @ c # b = a' @ c # b'"
  shows "a = a' \<and> b = b'"
proof -
  have "Some (a, b) = split_once c (a' @ c # b')"
    by (simp only: split_once_append [OF assms(1), of b, symmetric] assms(3))
  then show ?thesis by (simp add: split_once_append [OF assms(2)])
qed

text \<open>A number renderer that is injective, for the concrete instances below.\<close>

fun demo_nstr :: "jnumber \<Rightarrow> string" where
  "demo_nstr (PosInt n) = show_nat n"
| "demo_nstr (NegInt i) = show_int i"
| "demo_nstr (Float (Finite q)) =
     show_int (fst (quotient_of q)) @ ''/'' @ show_int (snd (quotient_of q))"
| "demo_nstr (Float _) = ''nan''"

lemma digits_not: "c \<in> set (show_nat n) \<Longrightarrow> is_ascii_digit c"
  using show_nat_digits [of n] by (simp add: list_all_iff)

lemma show_int_inj: "show_int i = show_int j \<Longrightarrow> i = j"
proof -
  have minus: "show_nat n \<noteq> CHR ''-'' # cs" for n cs
    using show_nat_hd [of n "CHR ''-''" cs] by (auto simp: is_ascii_digit_def byte_def)
  assume e: "show_int i = show_int j"
  consider "i < 0" "j < 0" | "0 \<le> i" "0 \<le> j" | "i < 0" "0 \<le> j" | "0 \<le> i" "j < 0" by linarith
  then show "i = j"
  proof cases
    case 1
    with e show ?thesis by (simp add: show_int_def)
  next
    case 2
    with e show ?thesis by (simp add: show_int_def)
  next
    case 3
    then have "show_nat (nat j) = CHR ''-'' # show_nat (nat (- i))" using e by (simp add: show_int_def)
    then show ?thesis by (simp only: minus)
  next
    case 4
    then have "show_nat (nat i) = CHR ''-'' # show_nat (nat (- j))" using e by (simp add: show_int_def)
    then show ?thesis by (simp only: minus)
  qed
qed

lemma show_int_no_slash: "CHR ''/'' \<notin> set (show_int i)"
  using digits_not [of "CHR ''/''"] by (auto simp: show_int_def is_ascii_digit_def byte_def)

lemma demo_nstr_inj: "inj_on demo_nstr {n. jnumber_wf n}"
proof (rule inj_onI, clarify)
  fix x y assume x: "jnumber_wf x" and y: "jnumber_wf y" and e: "demo_nstr x = demo_nstr y"
  define f where "f z = (case z of Float _ \<Rightarrow> True | _ \<Rightarrow> False)" for z
  have sl: "f z \<longleftrightarrow> CHR ''/'' \<in> set (demo_nstr z)" if "jnumber_wf z" for z
    using that show_int_no_slash show_int_no_slash [of "int n" for n]
    by (cases z rule: demo_nstr.cases) (auto simp: f_def show_int_def split: if_splits)
  show "x = y"
  proof (cases "f x")
    case True
    then have "f y" using sl x y e by metis
    with True x y obtain p q where pq: "x = Float (Finite p)" "y = Float (Finite q)"
      by (cases x rule: demo_nstr.cases; cases y rule: demo_nstr.cases) (auto simp: f_def)
    with e have "show_int (fst (quotient_of p)) = show_int (fst (quotient_of q))
        \<and> show_int (snd (quotient_of p)) = show_int (snd (quotient_of q))"
      by (intro sep_append [OF show_int_no_slash show_int_no_slash]) simp
    then have "quotient_of p = quotient_of q" by (auto simp: prod_eq_iff dest: show_int_inj)
    with pq show ?thesis by (simp add: quotient_of_inject_eq)
  next
    case False
    then have "\<not> f y" using sl x y e by metis
    have nat: "show_nat n = show_int (int n)" for n by (simp add: show_int_def)
    from False \<open>\<not> f y\<close> x y e show ?thesis
      by (cases x; cases y) (auto simp: f_def nat simp del: show_nat_inj dest!: show_int_inj)
  qed
qed

section \<open>Properties\<close>

text \<open>C35: the bytes hashed for a cacheable JSON request determine the request: for namespaces and
  scopes without the separator and endpoints without it, equal hash inputs imply the same namespace,
  the same endpoint, the same scope (an absent one counting as empty) and the same JSON body, every field of it
  included. The number renderer is assumed injective on the numbers a parser returns.\<close>

theorem fingerprint_input_inj:
  assumes "inj_on nstr {n. jnumber_wf n}"
    and "fi_json_body i = Some v" "json_wf v" "json_fits nstr v"
    and "fi_json_body j = Some w" "json_wf w" "json_fits nstr w"
    and "\<forall>x \<in> {i, j}. CHR ''|'' \<notin> set (fi_namespace x @ fi_endpoint x @ unwrap_or (fi_cache_scope x) [])"
    and "fingerprint_input nstr i = fingerprint_input nstr j"
  shows "fi_namespace i = fi_namespace j \<and> fi_endpoint i = fi_endpoint j
    \<and> unwrap_or (fi_cache_scope i) [] = unwrap_or (fi_cache_scope j) [] \<and> v = w"
proof -
  have 1: "fi_namespace i = fi_namespace j \<and>
      fi_endpoint i @ ''|'' @ unwrap_or (fi_cache_scope i) [] @ ''|'' @ enc nstr v =
      fi_endpoint j @ ''|'' @ unwrap_or (fi_cache_scope j) [] @ ''|'' @ enc nstr w"
    using assms(2,5,8,9) by (intro sep_append [of "CHR ''|''"]) (simp_all add: fingerprint_input_json)
  then have 2: "fi_endpoint i = fi_endpoint j \<and>
      unwrap_or (fi_cache_scope i) [] @ ''|'' @ enc nstr v = unwrap_or (fi_cache_scope j) [] @ ''|'' @ enc nstr w"
    using assms(8) by (intro sep_append [of "CHR ''|''"]) simp_all
  then have 3: "unwrap_or (fi_cache_scope i) [] = unwrap_or (fi_cache_scope j) [] \<and> enc nstr v = enc nstr w"
    using assms(8) by (intro sep_append [of "CHR ''|''"]) simp_all
  with enc_prefix_free [OF assms(1,3,6,4,7), of "[]" "[]"] 1 2 show ?thesis by simp
qed

theorem fingerprint_input_inj_witness:
  "let i = \<lparr>fi_namespace = ''oa'', fi_endpoint = ''/v1'', fi_body = [],
        fi_json_body = Some (JArray [JString ''a'', JString ''b'']), fi_cache_scope = None\<rparr> in
   fingerprint_input demo_nstr i \<noteq>
   fingerprint_input demo_nstr (i\<lparr>fi_json_body := Some (JArray [JString ''ab''])\<rparr>)"
  using fingerprint_input_inj [OF demo_nstr_inj,
      of "\<lparr>fi_namespace = ''oa'', fi_endpoint = ''/v1'', fi_body = [],
        fi_json_body = Some (JArray [JString ''a'', JString ''b'']), fi_cache_scope = None\<rparr>"
      "JArray [JString ''a'', JString ''b'']"
      "\<lparr>fi_namespace = ''oa'', fi_endpoint = ''/v1'', fi_body = [],
        fi_json_body = Some (JArray [JString ''ab'']), fi_cache_scope = None\<rparr>"
      "JArray [JString ''ab'']"]
  by (auto simp: Let_def)

text \<open>the cache key of a JSON object does not depend on the order of its fields: two objects with
  the same entries, however ordered, feed the same bytes to the hash.\<close>

theorem fingerprint_field_order:
  assumes "distinct (map fst m)" "mset m = mset m'"
  shows "fingerprint blake3_hex nstr (inp\<lparr>fi_json_body := Some (JObject m)\<rparr>) =
    fingerprint blake3_hex nstr (inp\<lparr>fi_json_body := Some (JObject m')\<rparr>)"
proof -
  have d': "inj_on fst (set m)" using assms(1) by (simp add: distinct_map)
  have "sort_key fst m = sort_key fst m'"
    using assms(2) d' by (rule sort_key_eq_sort_key)
  moreover have "length m = length m'" using assms(2) by (rule mset_eq_length)
  ultimately show ?thesis by (simp add: fingerprint_def fingerprint_input_def Let_def)
qed

theorem fingerprint_field_order_witness:
  "fingerprint (\<lambda>b. b) demo_nstr \<lparr>fi_namespace = ''oa'', fi_endpoint = ''/v1'', fi_body = [],
      fi_json_body = Some (JObject [(''b'', JNull), (''a'', JBool True)]), fi_cache_scope = None\<rparr> =
   fingerprint (\<lambda>b. b) demo_nstr \<lparr>fi_namespace = ''oa'', fi_endpoint = ''/v1'', fi_body = [],
      fi_json_body = Some (JObject [(''a'', JBool True), (''b'', JNull)]), fi_cache_scope = None\<rparr>"
  using fingerprint_field_order [of "[(''b'', JNull), (''a'', JBool True)]" "[(''a'', JBool True), (''b'', JNull)]"
      "\<lambda>b. b" demo_nstr "\<lparr>fi_namespace = ''oa'', fi_endpoint = ''/v1'', fi_body = [],
      fi_json_body = None, fi_cache_scope = None\<rparr>"]
  by simp

text \<open>The separators between namespace, endpoint and scope are not escaped, so two requests for
  different endpoints can share a cache key: a bar in the endpoint of one stands for the separator and the
  scope of the other.\<close>

theorem fingerprint_separator_collision:
  "fingerprint blake3_hex nstr \<lparr>fi_namespace = ns, fi_endpoint = ep @ ''|'' @ sc, fi_body = b,
      fi_json_body = jb, fi_cache_scope = None\<rparr> =
   fingerprint blake3_hex nstr \<lparr>fi_namespace = ns, fi_endpoint = ep, fi_body = b,
      fi_json_body = jb, fi_cache_scope = Some (sc @ ''|'')\<rparr>"
  by (cases jb) (simp_all add: fingerprint_def fingerprint_input_def Let_def)

end
