(* ===== verification/Executor.thy ===== *)
theory Executor
  imports Engine
begin

text \<open>
  Retry and fallback: \<open>gateway-core/src/proxy/retry.rs\<close>, \<open>fallback.rs\<close> and
  \<open>executor.rs\<close>. The upstream world is a parameter \<open>call\<close>: the result and the duration of the
  \<open>n\<close>-th attempt of the chain (counted from 0) for a request. The random jitter is a
  parameter in \<open>[0, 1)\<close>; sleeping between attempts changes no state and is not modelled.
\<close>

named_theorems outcome_simps \<open>equations on attempt outcomes\<close>

section \<open>Attempt outcomes and triggers\<close>

datatype attempt_outcome =
    Success
  | RetryableStatus nat
  | RetryableNetwork
  | NonRetryable nat
  | Timeout

definition is_retryable_status :: "nat \<Rightarrow> bool" where
  "is_retryable_status status \<longleftrightarrow> status \<in> {408, 425, 429, 500, 502, 503, 504}"

definition from_status :: "nat \<Rightarrow> attempt_outcome" where
  "from_status status =
     (if is_retryable_status status then RetryableStatus status
      else if 200 \<le> status \<and> status < 400 then Success
      else NonRetryable status)"

fun from_error :: "gateway_error \<Rightarrow> attempt_outcome" where
  "from_error UpstreamTimeout = Timeout"
| "from_error (Http _) = RetryableNetwork"
| "from_error err = NonRetryable (status_code err)"

fun is_retryable :: "attempt_outcome \<Rightarrow> bool" where
  "is_retryable (RetryableStatus _) = True"
| "is_retryable RetryableNetwork = True"
| "is_retryable Timeout = True"
| "is_retryable _ = False"

definition backoff_cap :: "route_retry_config \<Rightarrow> nat \<Rightarrow> nat" where
  "backoff_cap cfg attempt =
     min (u64_saturating_mul (initial_backoff_ms cfg) (2 ^ min attempt 8)) 10000"

definition backoff_duration :: "f64 \<Rightarrow> route_retry_config \<Rightarrow> nat \<Rightarrow> nat" where
  "backoff_duration rnd cfg attempt =
     f64_as_uint u64_max (f64_mul rnd (f64_of_int (int (backoff_cap cfg attempt))))"

fun trigger_matches :: "attempt_outcome \<Rightarrow> string \<Rightarrow> bool" where
  "trigger_matches (RetryableStatus s) t =
     (if 500 \<le> s \<and> s < 600 then t \<in> {''upstream_5xx'', ''upstream_error''}
      else if s = 429 then t \<in> {''rate_limited'', ''ratelimited''} else False)"
| "trigger_matches (NonRetryable s) t =
     (500 \<le> s \<and> s < 600 \<and> t \<in> {''upstream_5xx'', ''upstream_error''})"
| "trigger_matches Timeout t = (t = ''timeout'')"
| "trigger_matches RetryableNetwork t = (t \<in> {''network'', ''timeout''})"
| "trigger_matches Success t = False"

definition matches_fallback_trigger :: "attempt_outcome \<Rightarrow> string list \<Rightarrow> bool" where
  "matches_fallback_trigger outcome triggers =
     (if triggers = [] then outcome \<noteq> Success
      else \<exists>t \<in> set triggers. trigger_matches outcome (to_ascii_lowercase t))"

fun outcome_label :: "attempt_outcome \<Rightarrow> string" where
  "outcome_label Success = ''success''"
| "outcome_label (RetryableStatus _) = ''retryable_status''"
| "outcome_label RetryableNetwork = ''retryable_network''"
| "outcome_label (NonRetryable _) = ''non_retryable''"
| "outcome_label Timeout = ''timeout''"

section \<open>Provider chains\<close>

record chain_entry =
  ce_provider :: string
  ce_model_override :: "string option"
  ce_trigger :: "string list"

record provider_chain =
  entries :: "chain_entry list"
  retry :: route_retry_config

record attempt_trace =
  tr_provider :: string
  tr_model :: "string option"
  tr_status :: "nat option"
  tr_outcome :: string
  tr_duration_ms :: nat

definition from_target :: "route_target \<Rightarrow> chain_entry" where
  "from_target t = \<lparr>ce_provider = rt_provider t, ce_model_override = rt_model t, ce_trigger = rt_trigger t\<rparr>"

definition from_route :: "route_config \<Rightarrow> provider_chain" where
  "from_route route = \<lparr>entries = from_target (primary route) # map from_target (fallbacks route),
     retry = route_retry route\<rparr>"

section \<open>The executor\<close>

type_synonym attempt_result = "gateway_error + forward_response"
type_synonym upstream = "nat \<Rightarrow> forward_request \<Rightarrow> attempt_result \<times> nat"

record chain_result =
  cr_response :: attempt_result
  cr_attempts :: "attempt_trace list"
  cr_fallback_used :: "string option"

fun outcome_of :: "attempt_result \<Rightarrow> attempt_outcome" where
  "outcome_of (Inr r) = from_status (resp_status r)"
| "outcome_of (Inl e) = from_error e"

definition mk_trace :: "chain_entry \<Rightarrow> attempt_result \<Rightarrow> nat \<Rightarrow> attempt_trace" where
  "mk_trace entry result ms =
     \<lparr>tr_provider = ce_provider entry, tr_model = ce_model_override entry,
      tr_status = (case result of Inr r \<Rightarrow> Some (resp_status r) | Inl _ \<Rightarrow> None),
      tr_outcome = outcome_label (outcome_of result), tr_duration_ms = min ms u64_max\<rparr>"

text \<open>
  The retry loop of one entry. \<open>attempt\<close> counts the attempts made on the entry, \<open>attempts\<close>
  is the trace so far; the result is the last attempt's.
\<close>

function entry_loop ::
  "upstream \<Rightarrow> nat \<Rightarrow> forward_request \<Rightarrow> chain_entry \<Rightarrow> nat \<Rightarrow> attempt_trace list
     \<Rightarrow> attempt_trace list \<times> attempt_result" where
  "entry_loop call maxa template entry attempt attempts =
     (let (result, ms) = call (length attempts) (template\<lparr>fr_provider := ce_provider entry\<rparr>);
          attempts' = attempts @ [mk_trace entry result ms]
      in if \<not> is_retryable (outcome_of result) then (attempts', result)
         else if maxa \<le> attempt + 1 then (attempts', result)
         else entry_loop call maxa template entry (attempt + 1) attempts')"
  by pat_completeness auto
termination
  by (relation "measure (\<lambda>(call, maxa, t, e, attempt, as). maxa - attempt)") auto

declare entry_loop.simps [simp del]

record chain_state =
  last_outcome :: "attempt_outcome option"
  last_error :: "gateway_error option"
  last_response :: "forward_response option"

definition final_response :: "chain_state \<Rightarrow> attempt_result" where
  "final_response st =
     (case last_response st of
        Some r \<Rightarrow> Inr r
      | None \<Rightarrow> (case last_error st of Some e \<Rightarrow> Inl e | None \<Rightarrow> Inl (Internal ''empty provider chain'')))"

definition record_failure :: "attempt_result \<Rightarrow> chain_state \<Rightarrow> chain_state" where
  "record_failure result st =
     (case result of
        Inr resp \<Rightarrow> st\<lparr>last_outcome := Some (outcome_of result), last_response := Some resp\<rparr>
      | Inl e \<Rightarrow> st\<lparr>last_outcome := Some (outcome_of result), last_error := Some e\<rparr>)"

fun chain_loop ::
  "upstream \<Rightarrow> nat \<Rightarrow> forward_request \<Rightarrow> nat \<Rightarrow> chain_entry list \<Rightarrow> attempt_trace list
     \<Rightarrow> string option \<Rightarrow> chain_state \<Rightarrow> chain_result" where
  "chain_loop call maxa template idx [] attempts fb st =
     \<lparr>cr_response = final_response st, cr_attempts = attempts, cr_fallback_used = fb\<rparr>"
| "chain_loop call maxa template idx (entry # es) attempts fb st =
     (if 0 < idx \<and>
         (case last_outcome st of
            None \<Rightarrow> True
          | Some prev \<Rightarrow> \<not> matches_fallback_trigger prev (ce_trigger entry))
      then \<lparr>cr_response = final_response st, cr_attempts = attempts, cr_fallback_used = fb\<rparr>
      else
        (let fb' = (if 0 < idx then Some (ce_provider entry) else fb);
             (attempts', result) = entry_loop call maxa template entry 0 attempts
         in if \<not> is_retryable (outcome_of result)
            then \<lparr>cr_response = result, cr_attempts = attempts', cr_fallback_used = fb'\<rparr>
            else chain_loop call maxa template (idx + 1) es attempts' fb' (record_failure result st)))"

definition execute_chain :: "upstream \<Rightarrow> provider_chain \<Rightarrow> forward_request \<Rightarrow> chain_result" where
  "execute_chain call chain template =
     chain_loop call (max_attempts (retry chain)) template 0 (entries chain) [] None
       \<lparr>last_outcome = None, last_error = None, last_response = None\<rparr>"

text \<open>The upstream of an engine: attempt \<open>n\<close> forwards over the client call \<open>send n\<close>.\<close>

definition engine_upstream ::
  "(string \<Rightarrow> bool) \<Rightarrow> (string \<Rightarrow> string option) \<Rightarrow> proxy_engine \<Rightarrow> (nat \<Rightarrow> http_request \<Rightarrow> send_outcome)
     \<Rightarrow> (nat \<Rightarrow> nat) \<Rightarrow> upstream" where
  "engine_upstream hv hn engine send dur n req = (forward hv hn engine (send n) req, dur n)"

section \<open>Outcomes\<close>

lemma outcome_label_retryable [outcome_simps]:
  "is_retryable oc \<longleftrightarrow> outcome_label oc \<in> {''retryable_status'', ''retryable_network'', ''timeout''}"
  by (cases oc) simp_all

definition trace_retryable :: "attempt_trace \<Rightarrow> bool" where
  "trace_retryable t \<longleftrightarrow> tr_outcome t \<in> {''retryable_status'', ''retryable_network'', ''timeout''}"

text \<open>The outcome that a trace line reports, read back from its label and status.\<close>

definition trace_outcome :: "attempt_trace \<Rightarrow> attempt_outcome" where
  "trace_outcome t =
     (if tr_outcome t = ''success'' then Success
      else if tr_outcome t = ''retryable_status'' then RetryableStatus (unwrap_or (tr_status t) 0)
      else if tr_outcome t = ''retryable_network'' then RetryableNetwork
      else if tr_outcome t = ''timeout'' then Timeout
      else NonRetryable (unwrap_or (tr_status t) 0))"

lemma from_error_not_status [simp]: "from_error e \<noteq> RetryableStatus s" "from_error e \<noteq> Success"
  by (cases e; simp)+

lemma from_status_RetryableStatus: "from_status s = RetryableStatus s' \<Longrightarrow> s' = s"
  by (auto simp: from_status_def split: if_splits)

lemma trace_outcome_mk [simp]:
  assumes "is_retryable (outcome_of r)"
  shows "trace_outcome (mk_trace e r ms) = outcome_of r"
proof (cases r)
  case (Inl err)
  with assms show ?thesis by (cases err) (auto simp: trace_outcome_def mk_trace_def)
next
  case (Inr resp)
  with assms show ?thesis
    by (cases "from_status (resp_status resp)")
      (auto simp: trace_outcome_def mk_trace_def dest: from_status_RetryableStatus
        simp: from_status_def split: if_splits)
qed

lemma trace_retryable_mk [simp]: "trace_retryable (mk_trace e r ms) \<longleftrightarrow> is_retryable (outcome_of r)"
  by (simp add: trace_retryable_def mk_trace_def outcome_label_retryable)

lemma tr_provider_mk [simp]: "tr_provider (mk_trace e r ms) = ce_provider e"
  by (simp add: mk_trace_def)

lemma from_status_Success [outcome_simps]:
  "from_status s = Success \<longleftrightarrow> 200 \<le> s \<and> s < 400"
  by (auto simp: from_status_def is_retryable_status_def)

lemma matches_retryable: "is_retryable oc \<Longrightarrow> matches_fallback_trigger oc []"
  by (cases oc) (simp_all add: matches_fallback_trigger_def)

section \<open>The retry loop\<close>

text \<open>What one run of the retry loop adds to the trace.\<close>

definition entry_run ::
  "upstream \<Rightarrow> nat \<Rightarrow> forward_request \<Rightarrow> chain_entry \<Rightarrow> nat \<Rightarrow> nat \<Rightarrow> attempt_trace list \<Rightarrow> attempt_result \<Rightarrow> bool" where
  "entry_run call maxa template e attempt n ts r \<longleftrightarrow>
     ts \<noteq> [] \<and> length ts \<le> max 1 (maxa - attempt)
     \<and> (\<forall>t \<in> set ts. tr_provider t = ce_provider e)
     \<and> (\<forall>t \<in> set (butlast ts). trace_retryable t)
     \<and> fst (call (n + length ts - 1) (template\<lparr>fr_provider := ce_provider e\<rparr>)) = r
     \<and> (trace_retryable (last ts) \<longleftrightarrow> is_retryable (outcome_of r))
     \<and> (is_retryable (outcome_of r) \<longrightarrow> trace_outcome (last ts) = outcome_of r)
     \<and> (is_retryable (outcome_of r) \<longrightarrow> length ts = max 1 (maxa - attempt))"

lemma entry_run_step:
  assumes "entry_run call maxa template e (Suc attempt) (Suc n) ts r" "Suc attempt < maxa"
    "trace_retryable t" "tr_provider t = ce_provider e"
  shows "entry_run call maxa template e attempt n (t # ts) r"
  using assms by (auto simp: entry_run_def)

lemma entry_loop_run:
  "\<exists>ts. entry_loop call maxa template e attempt as = (as @ ts, r) \<and>
     entry_run call maxa template e attempt (length as) ts r"
  if "snd (entry_loop call maxa template e attempt as) = r"
  using that
proof (induction call maxa template e attempt as rule: entry_loop.induct)
  case (1 call maxa template e attempt as)
  obtain res ms where c: "call (length as) (template\<lparr>fr_provider := ce_provider e\<rparr>) = (res, ms)"
    by (cases "call (length as) (template\<lparr>fr_provider := ce_provider e\<rparr>)")
  let ?t = "mk_trace e res ms"
  show ?case
  proof (cases "is_retryable (outcome_of res) \<and> attempt + 1 < maxa")
    case False
    with c have eq: "entry_loop call maxa template e attempt as = (as @ [?t], res)"
      by (subst entry_loop.simps) (auto simp: Let_def)
    with "1.prems" False c have "entry_run call maxa template e attempt (length as) [?t] r"
      by (auto simp: entry_run_def)
    with eq "1.prems" show ?thesis by auto
  next
    case True
    with c have eq: "entry_loop call maxa template e attempt as =
        entry_loop call maxa template e (attempt + 1) (as @ [?t])"
      by (subst entry_loop.simps) auto
    with "1.IH" [OF c [symmetric] refl] True "1.prems" obtain ts where
      ts: "entry_loop call maxa template e (attempt + 1) (as @ [?t]) = ((as @ [?t]) @ ts, r)"
        "entry_run call maxa template e (attempt + 1) (length (as @ [?t])) ts r" by auto
    then have "entry_run call maxa template e attempt (length as) (?t # ts) r"
      using True by (intro entry_run_step) auto
    with eq ts(1) show ?thesis by auto
  qed
qed

lemma entry_loop_cases:
  obtains ts r where "entry_loop call maxa template e attempt as = (as @ ts, r)"
    "entry_run call maxa template e attempt (length as) ts r"
  using entry_loop_run [OF refl] by blast

section \<open>The chain\<close>

text \<open>
  The shape of a trace: one block of attempts per tried entry, in chain order, each block at most
  \<open>max_attempts\<close> long, and every attempt but the last one retryable.
\<close>

inductive chain_trace :: "nat \<Rightarrow> chain_entry list \<Rightarrow> attempt_trace list \<Rightarrow> bool" for maxa where
  none: "chain_trace maxa es []"
| block: "ts \<noteq> [] \<Longrightarrow> length ts \<le> max 1 maxa \<Longrightarrow> \<forall>t \<in> set ts. tr_provider t = ce_provider e \<Longrightarrow>
    (rest \<noteq> [] \<longrightarrow> trace_retryable (last ts)
       \<and> matches_fallback_trigger (trace_outcome (last ts)) (ce_trigger (hd es))) \<Longrightarrow> \<forall>t \<in> set (butlast ts). trace_retryable t \<Longrightarrow>
    chain_trace maxa es rest \<Longrightarrow> chain_trace maxa (e # es) (ts @ rest)"

inductive_cases chain_trace_NilE: "chain_trace maxa [] ts"

lemma chain_trace_length: "chain_trace maxa es ts \<Longrightarrow> length ts \<le> length es * max 1 maxa"
  by (induction rule: chain_trace.induct) auto

lemma butlast_append_set: "set (butlast (xs @ ys)) \<subseteq> set (butlast xs) \<union> (if ys = [] then {} else {last xs}) \<union> set (butlast ys)"
  if "xs \<noteq> []"
proof -
  have "xs = butlast xs @ [last xs]" using that by simp
  then have "set xs = insert (last xs) (set (butlast xs))" by (metis Un_insert_right list.set(2) set_append sup_bot_right list.set(1))
  then show ?thesis by (auto simp: butlast_append)
qed

lemma chain_trace_butlast: "chain_trace maxa es ts \<Longrightarrow> \<forall>t \<in> set (butlast ts). trace_retryable t"
proof (induction rule: chain_trace.induct)
  case (block ts e rest es)
  then show ?case using butlast_append_set [of ts rest] by (auto split: if_splits)
qed simp

lemma chain_trace_providers:
  "chain_trace maxa es ts \<Longrightarrow> \<forall>t \<in> set ts. tr_provider t \<in> ce_provider ` set es"
  by (induction rule: chain_trace.induct) auto

text \<open>The guard of a fallback entry, and the three ways a step of the chain can go.\<close>

definition skipped :: "nat \<Rightarrow> chain_state \<Rightarrow> chain_entry \<Rightarrow> bool" where
  "skipped idx st e \<longleftrightarrow> 0 < idx \<and>
     (case last_outcome st of
        None \<Rightarrow> True | Some prev \<Rightarrow> \<not> matches_fallback_trigger prev (ce_trigger e))"

lemma chain_loop_skip:
  "skipped idx st e \<Longrightarrow> chain_loop call maxa template idx (e # es) as fb st =
     \<lparr>cr_response = final_response st, cr_attempts = as, cr_fallback_used = fb\<rparr>"
  by (simp add: skipped_def)

lemma chain_loop_return:
  "\<not> skipped idx st e \<Longrightarrow> entry_loop call maxa template e 0 as = (as', r) \<Longrightarrow> \<not> is_retryable (outcome_of r) \<Longrightarrow>
   chain_loop call maxa template idx (e # es) as fb st =
     \<lparr>cr_response = r, cr_attempts = as',
      cr_fallback_used = (if 0 < idx then Some (ce_provider e) else fb)\<rparr>"
  unfolding skipped_def by (subst chain_loop.simps, subst if_not_P, assumption) simp

lemma chain_loop_continue:
  "\<not> skipped idx st e \<Longrightarrow> entry_loop call maxa template e 0 as = (as', r) \<Longrightarrow> is_retryable (outcome_of r) \<Longrightarrow>
   chain_loop call maxa template idx (e # es) as fb st =
     chain_loop call maxa template (idx + 1) es as' (if 0 < idx then Some (ce_provider e) else fb)
       (record_failure r st)"
  unfolding skipped_def by (subst chain_loop.simps, subst if_not_P, assumption) (simp add: Let_def)

lemma not_skippedD: "\<not> skipped idx st e \<Longrightarrow> 0 < idx \<Longrightarrow>
    \<exists>prev. last_outcome st = Some prev \<and> matches_fallback_trigger prev (ce_trigger e)"
  by (auto simp: skipped_def split: option.splits)

lemma last_outcome_record_failure [simp]: "last_outcome (record_failure r st) = Some (outcome_of r)"
  by (simp add: record_failure_def split: sum.splits)

lemma chain_loop_trace:
  "\<exists>ts. cr_attempts (chain_loop call maxa template idx es as fb st) = as @ ts
     \<and> chain_trace maxa es ts \<and> (idx = 0 \<and> es \<noteq> [] \<longrightarrow> ts \<noteq> [])
     \<and> (0 < idx \<and> ts \<noteq> [] \<longrightarrow>
          (\<exists>prev. last_outcome st = Some prev \<and> matches_fallback_trigger prev (ce_trigger (hd es))))"
proof (induction es arbitrary: idx as fb st)
  case Nil
  then show ?case by (auto intro: chain_trace.none)
next
  case (Cons e es)
  obtain ts r where ts: "entry_loop call maxa template e 0 as = (as @ ts, r)"
      "entry_run call maxa template e 0 (length as) ts r"
    by (rule entry_loop_cases)
  consider "skipped idx st e" | "\<not> skipped idx st e" "\<not> is_retryable (outcome_of r)"
    | "\<not> skipped idx st e" "is_retryable (outcome_of r)" by blast
  then show ?case
  proof cases
    case 1
    then have "0 < idx" by (simp add: skipped_def)
    with 1 show ?thesis by (auto simp: chain_loop_skip simp del: chain_loop.simps intro: chain_trace.none)
  next
    case 2
    have "chain_trace maxa (e # es) (ts @ [])"
      using ts(2) by (intro chain_trace.block chain_trace.none) (auto simp: entry_run_def)
    with 2 ts not_skippedD [OF 2(1)] show ?thesis
      by (auto simp: chain_loop_return entry_run_def simp del: chain_loop.simps)
  next
    case 3
    let ?fb = "if 0 < idx then Some (ce_provider e) else fb"
    from Cons.IH [of "idx + 1" "as @ ts" ?fb "record_failure r st"] obtain us where
      us: "cr_attempts (chain_loop call maxa template (idx + 1) es (as @ ts) ?fb (record_failure r st))
             = (as @ ts) @ us" "chain_trace maxa es us"
        "us \<noteq> [] \<longrightarrow> matches_fallback_trigger (outcome_of r) (ce_trigger (hd es))" by auto
    have "chain_trace maxa (e # es) (ts @ us)"
      using ts(2) us(2,3) 3 by (intro chain_trace.block) (auto simp: entry_run_def)
    with 3 ts us(1) not_skippedD [OF 3(1)] show ?thesis
      by (auto simp: chain_loop_continue entry_run_def simp del: chain_loop.simps)
  qed
qed

text \<open>The response and the fallback label that a chain reports.\<close>

lemma chain_loop_result:
  assumes "R = chain_loop call maxa template idx es as fb st"
  shows "(cr_attempts R = as \<and> cr_response R = final_response st \<and> cr_fallback_used R = fb) \<or>
    (\<exists>ts. cr_attempts R = as @ ts \<and> ts \<noteq> []
      \<and> (\<not> trace_retryable (last ts) \<longrightarrow>
           cr_response R = fst (call (length as + length ts - 1)
                                  (template\<lparr>fr_provider := tr_provider (last ts)\<rparr>)))
      \<and> (if 0 < idx then cr_fallback_used R = Some (tr_provider (last ts))
         else cr_fallback_used R = fb \<and> tr_provider (last ts) = ce_provider (hd es)
              \<or> cr_fallback_used R = Some (tr_provider (last ts))
                  \<and> tr_provider (last ts) \<in> ce_provider ` set (tl es)))"
  using assms
proof (induction es arbitrary: idx as fb st)
  case Nil
  then show ?case by simp
next
  case (Cons e es)
  obtain ts r where ts: "entry_loop call maxa template e 0 as = (as @ ts, r)"
      "entry_run call maxa template e 0 (length as) ts r"
    by (rule entry_loop_cases)
  have lst: "tr_provider (last ts) = ce_provider e" "ts \<noteq> []"
    "r = fst (call (length as + length ts - 1) (template\<lparr>fr_provider := ce_provider e\<rparr>))"
    using ts(2) by (auto simp: entry_run_def)
  consider "skipped idx st e" | "\<not> skipped idx st e" "\<not> is_retryable (outcome_of r)"
    | "\<not> skipped idx st e" "is_retryable (outcome_of r)" by blast
  then show ?case
  proof cases
    case 1
    then show ?thesis using Cons.prems by (simp add: chain_loop_skip del: chain_loop.simps)
  next
    case 2
    then show ?thesis using Cons.prems ts(1) lst
      by (simp add: chain_loop_return del: chain_loop.simps)
  next
    case 3
    let ?fb = "if 0 < idx then Some (ce_provider e) else fb"
    have R: "R = chain_loop call maxa template (idx + 1) es (as @ ts) ?fb (record_failure r st)"
      using 3 ts(1) Cons.prems by (simp add: chain_loop_continue del: chain_loop.simps)
    have ret: "trace_retryable (last ts)" using ts(2) 3 by (simp add: entry_run_def)
    from Cons.IH [OF R] show ?thesis
    proof
      assume "cr_attempts R = as @ ts \<and> cr_response R = final_response (record_failure r st)
        \<and> cr_fallback_used R = ?fb"
      with ret lst show ?thesis by auto
    next
      assume "\<exists>us. cr_attempts R = (as @ ts) @ us \<and> us \<noteq> []
        \<and> (\<not> trace_retryable (last us) \<longrightarrow> cr_response R = fst (call (length (as @ ts) + length us - 1)
              (template\<lparr>fr_provider := tr_provider (last us)\<rparr>)))
        \<and> (if 0 < idx + 1 then cr_fallback_used R = Some (tr_provider (last us))
           else cr_fallback_used R = ?fb \<and> tr_provider (last us) = ce_provider (hd es)
              \<or> cr_fallback_used R = Some (tr_provider (last us))
                  \<and> tr_provider (last us) \<in> ce_provider ` set (tl es))"
      then obtain us where us: "cr_attempts R = as @ ts @ us" "us \<noteq> []"
          "\<not> trace_retryable (last us) \<longrightarrow> cr_response R = fst (call (length as + length (ts @ us) - 1)
              (template\<lparr>fr_provider := tr_provider (last us)\<rparr>))"
          "cr_fallback_used R = Some (tr_provider (last us))" by (auto simp: add.assoc)
      have "tr_provider (last us) \<in> ce_provider ` set es"
      proof -
        from R chain_loop_trace [of call maxa template "idx + 1" es "as @ ts" ?fb "record_failure r st"]
        obtain vs where "cr_attempts R = (as @ ts) @ vs" "chain_trace maxa es vs" by blast
        with us(1) have "chain_trace maxa es us" by simp
        then show ?thesis using chain_trace_providers us(2) by simp
      qed
      with us lst show ?thesis by (intro disjI2 exI [of _ "ts @ us"]) auto
    qed
  qed
qed

section \<open>A concrete chain\<close>

definition demo_chain :: provider_chain where
  "demo_chain =
     \<lparr>entries = [\<lparr>ce_provider = ''openai'', ce_model_override = None, ce_trigger = []\<rparr>,
                 \<lparr>ce_provider = ''azure'', ce_model_override = None, ce_trigger = [''rate_limited'']\<rparr>],
      retry = \<lparr>max_attempts = 1, initial_backoff_ms = 100\<rparr>\<rparr>"

definition demo_request :: forward_request where
  "demo_request = \<lparr>fr_provider = ''openai'', fr_path = ''/v1/chat/completions'', fr_query = None,
     fr_method = ''POST'', fr_headers = [], fr_body = Some ''{}''\<rparr>"

definition demo_response :: "nat \<Rightarrow> forward_response" where
  "demo_response status = \<lparr>resp_status = status, resp_headers = [], upstream_ms = 5, ttfb_ms = 5, resp_body = []\<rparr>"

text \<open>The first attempt answers \<open>status\<close>, the later ones answer \<open>rest\<close>.\<close>

definition demo_call :: "nat \<Rightarrow> attempt_result \<Rightarrow> upstream" where
  "demo_call status rest n req = (if n = 0 then (Inr (demo_response status), 5) else (rest, 7))"

lemmas demo_simps = demo_chain_def demo_request_def demo_response_def demo_call_def execute_chain_def
  entry_loop.simps Let_def from_status_def is_retryable_status_def matches_fallback_trigger_def
  to_ascii_lowercase_def ascii_lower_def byte_def mk_trace_def trace_retryable_def record_failure_def
  final_response_def

section \<open>Properties\<close>

text \<open>C7: running a non-empty provider chain always makes at least one attempt, tries the
  entries in chain order without skipping one, makes at most \<open>max_attempts\<close> attempts per entry
  (at least one, even for 0), retries or falls back only after a retryable outcome, and enters a fallback
  entry only when its trigger matches the previous entry's terminal outcome.\<close>

theorem execute_chain_order:
  assumes "entries chain \<noteq> []"
  shows "let as = cr_attempts (execute_chain call chain template); m = max_attempts (retry chain) in
     as \<noteq> [] \<and> chain_trace m (entries chain) as
     \<and> length as \<le> length (entries chain) * max 1 m
     \<and> (\<forall>t \<in> set (butlast as). trace_retryable t)"
proof -
  from chain_loop_trace [of call "max_attempts (retry chain)" template 0 "entries chain" "[]" None
      "\<lparr>last_outcome = None, last_error = None, last_response = None\<rparr>"] assms
  obtain ts where ts: "cr_attempts (execute_chain call chain template) = ts"
      "chain_trace (max_attempts (retry chain)) (entries chain) ts" "ts \<noteq> []"
    by (auto simp: execute_chain_def)
  then show ?thesis
    using chain_trace_length [OF ts(2)] chain_trace_butlast [OF ts(2)] by (auto simp: Let_def)
qed

theorem execute_chain_order_witness:
  "entries demo_chain \<noteq> [] \<and>
   (let as = cr_attempts (execute_chain (demo_call 429 (Inl UpstreamTimeout)) demo_chain demo_request) in
    length as \<le> 2 \<and> chain_trace 1 (entries demo_chain) as \<and> (\<forall>t \<in> set (butlast as). trace_retryable t))"
  using execute_chain_order [of demo_chain "demo_call 429 (Inl UpstreamTimeout)" demo_request]
  by (simp add: demo_chain_def Let_def)

text \<open>C8: when the last attempt of a chain is conclusive (a success or a non-retryable failure), the
  chain answers with exactly the result of that attempt, and the provider it was sent to is the
  primary (no fallback reported) or the fallback that the result names.\<close>

theorem execute_chain_response:
  assumes "entries chain \<noteq> []"
    and "\<not> trace_retryable (last (cr_attempts (execute_chain call chain template)))"
  shows "let R = execute_chain call chain template; as = cr_attempts R; p = tr_provider (last as) in
     cr_response R = fst (call (length as - 1) (template\<lparr>fr_provider := p\<rparr>))
     \<and> (cr_fallback_used R = None \<and> p = ce_provider (hd (entries chain))
        \<or> cr_fallback_used R = Some p \<and> p \<in> ce_provider ` set (tl (entries chain)))"
proof -
  let ?st = "\<lparr>last_outcome = None, last_error = None, last_response = None\<rparr>"
  have ne: "cr_attempts (execute_chain call chain template) \<noteq> []"
    using chain_loop_trace [of call "max_attempts (retry chain)" template 0 "entries chain" "[]" None ?st]
      assms(1) by (auto simp: execute_chain_def)
  with chain_loop_result [OF execute_chain_def [of call chain template]] assms(2)
  show ?thesis by (auto simp: Let_def)
qed

theorem execute_chain_response_witness:
  "let R = execute_chain (demo_call 429 (Inr (demo_response 200))) demo_chain demo_request in
     cr_response R = Inr (demo_response 200) \<and> cr_fallback_used R = Some ''azure''"
  using execute_chain_response [of demo_chain "demo_call 429 (Inr (demo_response 200))" demo_request]
  by (simp add: demo_simps)

text \<open>if the very first attempt ends in a success or in a non-retryable outcome, the chain stops
  there: one attempt, its result, and no fallback, whatever triggers the fallbacks declare.\<close>

theorem first_conclusive_stops:
  assumes "entries chain = e # es"
    and "call 0 (template\<lparr>fr_provider := ce_provider e\<rparr>) = (r, ms)"
    and "\<not> is_retryable (outcome_of r)"
  shows "execute_chain call chain template =
    \<lparr>cr_response = r, cr_attempts = [mk_trace e r ms], cr_fallback_used = None\<rparr>"
proof -
  have "entry_loop call (max_attempts (retry chain)) template e 0 [] = ([mk_trace e r ms], r)"
    using assms(2,3) by (subst entry_loop.simps) (simp add: Let_def)
  moreover have "\<not> skipped 0 st e" for st by (simp add: skipped_def)
  ultimately show ?thesis
    using assms(1,3) by (simp add: execute_chain_def chain_loop_return del: chain_loop.simps)
qed

theorem first_conclusive_stops_witness:
  "cr_response (execute_chain (demo_call 501 (Inl UpstreamTimeout)) demo_chain demo_request) = Inr (demo_response 501)"
  using first_conclusive_stops [of demo_chain
      "\<lparr>ce_provider = ''openai'', ce_model_override = None, ce_trigger = []\<rparr>" _
      "demo_call 501 (Inl UpstreamTimeout)" demo_request "Inr (demo_response 501)" 5]
  by (simp add: demo_chain_def demo_call_def demo_response_def from_status_def is_retryable_status_def)

text \<open>when the last fallback fails without an HTTP response (a timeout or a network error), a
  retryable response that an earlier entry returned is what the chain answers, while the reported
  fallback is the provider that failed.\<close>

theorem fallback_failure_masked:
  assumes "max_attempts (retry chain) \<le> 1" "entries chain = [p, f]"
    and "call 0 (template\<lparr>fr_provider := ce_provider p\<rparr>) = (Inr resp, ms)"
    and "is_retryable (from_status (resp_status resp))"
    and "matches_fallback_trigger (from_status (resp_status resp)) (ce_trigger f)"
    and "call 1 (template\<lparr>fr_provider := ce_provider f\<rparr>) = (Inl e, ms')"
    and "is_retryable (from_error e)"
  shows "let R = execute_chain call chain template in
    cr_response R = Inr resp \<and> cr_fallback_used R = Some (ce_provider f)
    \<and> tr_outcome (last (cr_attempts R)) = outcome_label (from_error e)"
proof -
  let ?m = "max_attempts (retry chain)"
  let ?st = "\<lparr>last_outcome = None, last_error = None, last_response = None\<rparr>"
  have l1: "entry_loop call ?m template p 0 [] = ([mk_trace p (Inr resp) ms], Inr resp)"
    using assms(1,3) by (subst entry_loop.simps) (simp add: Let_def)
  have l2: "entry_loop call ?m template f 0 [mk_trace p (Inr resp) ms] =
      ([mk_trace p (Inr resp) ms, mk_trace f (Inl e) ms'], Inl e)"
    using assms(1,6) by (subst entry_loop.simps) (simp add: Let_def)
  have s1: "\<not> skipped 0 ?st p" by (simp add: skipped_def)
  have s2: "\<not> skipped 1 (record_failure (Inr resp) ?st) f"
    using assms(5) by (simp add: skipped_def)
  have "execute_chain call chain template = chain_loop call ?m template 2 []
      [mk_trace p (Inr resp) ms, mk_trace f (Inl e) ms'] (Some (ce_provider f))
      (record_failure (Inl e) (record_failure (Inr resp) ?st))"
    using assms(2,4,7) l1 l2 s1 s2 chain_loop_continue [OF s1 l1] chain_loop_continue [OF s2 l2]
    by (simp add: execute_chain_def numeral_2_eq_2 del: chain_loop.simps)
  then show ?thesis by (simp add: record_failure_def final_response_def mk_trace_def Let_def)
qed

theorem fallback_failure_masked_witness:
  "let R = execute_chain (demo_call 429 (Inl UpstreamTimeout)) demo_chain demo_request in
    cr_response R = Inr (demo_response 429) \<and> cr_fallback_used R = Some ''azure''
    \<and> tr_outcome (last (cr_attempts R)) = ''timeout''"
  using fallback_failure_masked [of demo_chain
      "\<lparr>ce_provider = ''openai'', ce_model_override = None, ce_trigger = []\<rparr>"
      "\<lparr>ce_provider = ''azure'', ce_model_override = None, ce_trigger = [''rate_limited'']\<rparr>"
      "demo_call 429 (Inl UpstreamTimeout)" demo_request "demo_response 429" 5 UpstreamTimeout 7]
  by (simp add: demo_chain_def demo_call_def demo_response_def from_status_def is_retryable_status_def
      matches_fallback_trigger_def to_ascii_lowercase_def ascii_lower_def byte_def)

text \<open>The backoff before a retry is at most ten seconds and at most
  \<open>initial_backoff_ms\<close> doubled once per earlier attempt (eight times at most), for every random number
  in the unit interval; the 64-bit multiplication saturates instead of wrapping.\<close>

theorem backoff_duration_bound:
  assumes "0 \<le> q" "q < 1"
  shows "backoff_duration (Finite q) cfg attempt \<le> 10000
    \<and> backoff_duration (Finite q) cfg attempt \<le> initial_backoff_ms cfg * 2 ^ min attempt 8"
proof -
  define c where "c = backoff_cap cfg attempt"
  have c: "c \<le> 10000" "c \<le> initial_backoff_ms cfg * 2 ^ min attempt 8"
    by (auto simp: c_def backoff_cap_def u64_saturating_mul_def)
  then have fc: "f64_of_int (int c) = Finite (of_nat c)" "f64_round (of_nat c) = Finite (of_nat c)"
    using f64_of_int_exact [of "int c"] by (simp_all add: f64_of_int_def)
  have "f64_le (f64_round (q * of_nat c)) (f64_round (of_nat c))"
    using assms by (intro f64_round_mono) (auto intro: mult_left_le_one_le)
  then obtain x where x: "f64_round (q * of_nat c) = Finite x \<and> x \<le> of_nat c
      \<or> f64_round (q * of_nat c) = Infinity True"
    using fc by (cases "f64_round (q * of_nat c)") auto
  have fl: "min u64_max (nat \<lfloor>y\<rfloor>) \<le> c" if "y \<le> of_nat c" for y :: rat
  proof -
    have "\<lfloor>y\<rfloor> \<le> int c" using floor_mono [OF that] by simp
    then show ?thesis by linarith
  qed
  have "backoff_duration (Finite q) cfg attempt \<le> c"
    using x fc(1) fl by (auto simp: backoff_duration_def simp flip: c_def)
  with c show ?thesis by linarith
qed

theorem backoff_duration_bound_witness:
  "backoff_duration (Finite (1/2)) \<lparr>max_attempts = 3, initial_backoff_ms = 500\<rparr> 2 \<le> 2000"
  using backoff_duration_bound [of "1/2" "\<lparr>max_attempts = 3, initial_backoff_ms = 500\<rparr>" 2] by simp

end
