(* ===== verification/Rate_Limit.thy ===== *)
theory Rate_Limit
  imports Config Memory_Store
begin

text \<open>
  Request, token and concurrency limits: \<open>gateway-api/src/ratelimit.rs\<close>. A check reads the clock
  once for all its counter operations. A permit is the list of concurrency slots it holds and
  the token reservations to reconcile; dropping it releases the slots.
\<close>

section \<open>Definitions\<close>

definition WINDOW_MS :: nat where "WINDOW_MS = 60000"
definition DEFAULT_TOKEN_PREDEDUCT :: int where "DEFAULT_TOKEN_PREDEDUCT = 1024"

record rate_permit =
  pm_concurrency :: "string list"
  tpm_reservations :: "(string \<times> int) list"

definition drop_permits :: "'c counter_ops \<Rightarrow> string list \<Rightarrow> 'c \<Rightarrow> 'c" where
  "drop_permits ops ks st = fold (\<lambda>k st. release ops st k) ks st"

definition drop_permit :: "'c counter_ops \<Rightarrow> rate_permit \<Rightarrow> 'c \<Rightarrow> 'c" where
  "drop_permit ops p st = drop_permits ops (pm_concurrency p) st"

fun reconcile_loop :: "'c counter_ops \<Rightarrow> int \<Rightarrow> int \<Rightarrow> (string \<times> int) list \<Rightarrow> 'c \<Rightarrow> 'c" where
  "reconcile_loop ops now actual [] st = st"
| "reconcile_loop ops now actual ((k, prededucted) # rs) st =
     (let delta = wrap_i64 (actual - prededucted) in
      if delta = 0 then reconcile_loop ops now actual rs st
      else reconcile_loop ops now actual rs (fst (incr_window ops st now k WINDOW_MS delta)))"

text \<open>\<open>reconcile_tokens\<close> consumes the permit, so its slots are released at the end.\<close>

definition reconcile_tokens :: "'c counter_ops \<Rightarrow> rate_permit \<Rightarrow> int \<Rightarrow> int \<Rightarrow> 'c \<Rightarrow> 'c" where
  "reconcile_tokens ops p actual_tokens now st =
     drop_permit ops p (reconcile_loop ops now actual_tokens (tpm_reservations p) st)"

definition limit_scope :: "limit_config \<Rightarrow> string \<Rightarrow> string \<Rightarrow> string option" where
  "limit_scope limit key_id project_id =
     (let kind = lt_kind (lc_target limit); pattern = unwrap_or (lt_id (lc_target limit)) ''*'' in
      if kind = ''key''
      then (if pattern \<noteq> ''*'' \<and> pattern \<noteq> key_id then None else Some (''key:'' @ key_id))
      else if kind = ''project''
      then (if pattern \<noteq> ''*'' \<and> pattern \<noteq> project_id then None else Some (''project:'' @ project_id))
      else if kind = ''global'' then Some ''global''
      else None)"

definition check_rpm :: "'c counter_ops \<Rightarrow> int \<Rightarrow> string \<Rightarrow> nat option \<Rightarrow> 'c \<Rightarrow> 'c \<times> (api_error + unit)" where
  "check_rpm ops now scope cap st =
     (case cap of
        None \<Rightarrow> (st, Inr ())
      | Some m \<Rightarrow>
          (case incr_window ops st now (''rpm:'' @ scope) WINDOW_MS 1 of
             (st1, Inl e) \<Rightarrow> (st1, Inl (ApiStorage e))
           | (st1, Inr count) \<Rightarrow>
               if m < i64_as_u64 count then (st1, Inl (Gateway RateLimited)) else (st1, Inr ())))"

definition check_tpm ::
  "'c counter_ops \<Rightarrow> int \<Rightarrow> string \<Rightarrow> nat option \<Rightarrow> 'c \<Rightarrow> 'c \<times> (api_error + (string \<times> int) list)" where
  "check_tpm ops now scope cap st =
     (case cap of
        None \<Rightarrow> (st, Inr [])
      | Some m \<Rightarrow>
          (let tpm_key = ''tpm:'' @ scope in
           case incr_window ops st now tpm_key WINDOW_MS DEFAULT_TOKEN_PREDEDUCT of
             (st1, Inl e) \<Rightarrow> (st1, Inl (ApiStorage e))
           | (st1, Inr count) \<Rightarrow>
               if m < i64_as_u64 count
               then (fst (incr_window ops st1 now tpm_key WINDOW_MS (- DEFAULT_TOKEN_PREDEDUCT)),
                     Inl (Gateway RateLimited))
               else (st1, Inr [(tpm_key, DEFAULT_TOKEN_PREDEDUCT)])))"

definition check_concurrency ::
  "'c counter_ops \<Rightarrow> string \<Rightarrow> nat option \<Rightarrow> 'c \<Rightarrow> 'c \<times> (api_error + string list)" where
  "check_concurrency ops scope conc st =
     (case conc of
        None \<Rightarrow> (st, Inr [])
      | Some m \<Rightarrow>
          (case try_acquire_concurrency ops st (''conc:'' @ scope) m of
             (st1, Inl e) \<Rightarrow> (st1, Inl (ApiStorage e))
           | (st1, Inr (Some p)) \<Rightarrow> (st1, Inr [p])
           | (st1, Inr None) \<Rightarrow> (st1, Inl (Gateway RateLimited))))"

text \<open>One limit: the three checks in order, the first failure ends the request.\<close>

definition check_limit ::
  "'c counter_ops \<Rightarrow> int \<Rightarrow> limit_config \<Rightarrow> string \<Rightarrow> 'c \<Rightarrow> 'c \<times> (api_error + string list \<times> (string \<times> int) list)" where
  "check_limit ops now limit scope st =
     (case check_rpm ops now scope (rpm limit) st of
        (st1, Inl e) \<Rightarrow> (st1, Inl e)
      | (st1, Inr _) \<Rightarrow>
          (case check_tpm ops now scope (tpm limit) st1 of
             (st2, Inl e) \<Rightarrow> (st2, Inl e)
           | (st2, Inr tpms) \<Rightarrow>
               (case check_concurrency ops scope (concurrency limit) st2 of
                  (st3, Inl e) \<Rightarrow> (st3, Inl e)
                | (st3, Inr ps) \<Rightarrow> (st3, Inr (ps, tpms)))))"

text \<open>On an early return the slots taken so far are dropped.\<close>

fun check_loop ::
  "'c counter_ops \<Rightarrow> int \<Rightarrow> string \<Rightarrow> string \<Rightarrow> limit_config list \<Rightarrow> string list \<Rightarrow> (string \<times> int) list \<Rightarrow> 'c
     \<Rightarrow> 'c \<times> (api_error + rate_permit)" where
  "check_loop ops now key_id project_id [] permits tpms st =
     (st, Inr \<lparr>pm_concurrency = permits, tpm_reservations = tpms\<rparr>)"
| "check_loop ops now key_id project_id (limit # lims) permits tpms st =
     (case limit_scope limit key_id project_id of
        None \<Rightarrow> check_loop ops now key_id project_id lims permits tpms st
      | Some scope \<Rightarrow>
          (case check_limit ops now limit scope st of
             (st1, Inl e) \<Rightarrow> (drop_permits ops permits st1, Inl e)
           | (st1, Inr (ps, ts)) \<Rightarrow>
               check_loop ops now key_id project_id lims (permits @ ps) (tpms @ ts) st1))"

definition check_limits ::
  "'c counter_ops \<Rightarrow> limit_config list \<Rightarrow> string \<Rightarrow> string \<Rightarrow> int \<Rightarrow> 'c \<Rightarrow> 'c \<times> (api_error + rate_permit)" where
  "check_limits ops lims key_id project_id now st = check_loop ops now key_id project_id lims [] [] st"

section \<open>The limiter as a state machine\<close>

text \<open>
  Requests arrive, are admitted or refused, and an admitted request ends: its tokens are
  reconciled, or its permit is dropped on an error path. The state is the counters and the permits
  that are held.
\<close>

inductive limiter_step ::
  "'c counter_ops \<Rightarrow> limit_config list \<Rightarrow> 'c \<times> rate_permit list \<Rightarrow> 'c \<times> rate_permit list \<Rightarrow> bool"
  for ops lims where
  admit: "check_limits ops lims key_id project_id now st = (st', Inr p) \<Longrightarrow>
    limiter_step ops lims (st, ps) (st', p # ps)"
| refuse: "check_limits ops lims key_id project_id now st = (st', Inl e) \<Longrightarrow>
    limiter_step ops lims (st, ps) (st', ps)"
| finish: "p \<in> set ps \<Longrightarrow>
    limiter_step ops lims (st, ps) (reconcile_tokens ops p actual now st, remove1 p ps)"
| abandon: "p \<in> set ps \<Longrightarrow> limiter_step ops lims (st, ps) (drop_permit ops p st, remove1 p ps)"

inductive limiter_reach ::
  "'c counter_ops \<Rightarrow> limit_config list \<Rightarrow> 'c \<Rightarrow> 'c \<times> rate_permit list \<Rightarrow> bool"
  for ops lims st0 where
  init: "limiter_reach ops lims st0 (st0, [])"
| step: "limiter_reach ops lims st0 s \<Longrightarrow> limiter_step ops lims s t \<Longrightarrow> limiter_reach ops lims st0 t"

text \<open>The number of slots of a key that the held permits account for.\<close>

definition slots :: "rate_permit list \<Rightarrow> string \<Rightarrow> nat" where
  "slots ps k = (\<Sum>p\<leftarrow>ps. count_list (pm_concurrency p) k)"

lemma slots_Cons [simp]: "slots (p # ps) k = count_list (pm_concurrency p) k + slots ps k"
  by (simp add: slots_def)

lemma slots_Nil [simp]: "slots [] k = 0"
  by (simp add: slots_def)

lemma slots_remove1: "p \<in> set ps \<Longrightarrow> slots ps k = count_list (pm_concurrency p) k + slots (remove1 p ps) k"
  by (induction ps) auto

text \<open>The largest concurrency that some configured limit allows on a slot key.\<close>

definition conc_bounded :: "limit_config list \<Rightarrow> (string \<Rightarrow> nat) \<Rightarrow> bool" where
  "conc_bounded lims bound \<longleftrightarrow>
     (\<forall>l \<in> set lims. \<forall>key_id project_id scope m.
        limit_scope l key_id project_id = Some scope \<and> concurrency l = Some m \<longrightarrow> m \<le> bound (''conc:'' @ scope))"

lemma conc_bounded_tl: "conc_bounded (l # ls) bound \<Longrightarrow> conc_bounded ls bound"
  unfolding conc_bounded_def by (meson list.set_intros(2))

section \<open>Limits over any counter store\<close>

context counter_contract
begin

lemma in_use_drop_permits: "in_use (drop_permits ops ks st) k = in_use st k - count_list ks k"
  unfolding drop_permits_def by (induction ks arbitrary: st) (auto simp: release_result)

lemma in_use_incr_window: "in_use (fst (incr_window ops st now k w n)) = in_use st"
  using incr_window_other [of st now k w n] by (metis prod.collapse)

lemma in_use_reconcile_loop: "in_use (reconcile_loop ops now actual rs st) = in_use st"
  by (induction rs arbitrary: st) (auto simp: Let_def in_use_incr_window)

lemma in_use_reconcile: "in_use (reconcile_tokens ops p actual now st) k = in_use st k - count_list (pm_concurrency p) k"
  by (simp add: reconcile_tokens_def drop_permit_def in_use_drop_permits in_use_reconcile_loop)

lemma check_rpm_in_use: "check_rpm ops now scope m st = (st', r) \<Longrightarrow> in_use st' = in_use st"
  by (auto simp: check_rpm_def dest!: incr_window_other split: option.splits prod.splits sum.splits if_splits)

lemma check_tpm_in_use: "check_tpm ops now scope m st = (st', r) \<Longrightarrow> in_use st' = in_use st"
  by (auto simp: check_tpm_def Let_def in_use_incr_window dest!: incr_window_other
      split: option.splits prod.splits sum.splits if_splits)

lemma check_concurrency_in_use:
  assumes "check_concurrency ops scope m st = (st', r)"
  shows "case r of
      Inl e \<Rightarrow> in_use st' = in_use st
    | Inr ps \<Rightarrow> (\<forall>k. in_use st' k = in_use st k + count_list ps k)
        \<and> (\<forall>k \<in> set ps. \<exists>c. m = Some c \<and> k = ''conc:'' @ scope \<and> in_use st' k \<le> c)"
proof (cases m)
  case None
  with assms show ?thesis by (auto simp: check_concurrency_def)
next
  case (Some c)
  obtain st1 a where a: "try_acquire_concurrency ops st (''conc:'' @ scope) c = (st1, a)" by fastforce
  show ?thesis
  proof (cases a)
    case (Inl e)
    with a acquire_error [of st "''conc:'' @ scope" c st1 e] Some assms show ?thesis
      by (auto simp: check_concurrency_def)
  next
    case (Inr q)
    with a have "try_acquire_concurrency ops st (''conc:'' @ scope) c = (st1, Inr q)" by simp
    from acquire_result [OF this] Some assms a Inr show ?thesis
      by (auto simp: check_concurrency_def split: if_splits)
  qed
qed

lemma check_limit_in_use:
  assumes "check_limit ops now limit scope st = (st', r)"
  shows "case r of
      Inl e \<Rightarrow> in_use st' = in_use st
    | Inr (ps, ts) \<Rightarrow> (\<forall>k. in_use st' k = in_use st k + count_list ps k)
        \<and> (\<forall>k \<in> set ps. \<exists>c. concurrency limit = Some c \<and> k = ''conc:'' @ scope \<and> in_use st' k \<le> c)"
proof -
  obtain st1 r1 where 1: "check_rpm ops now scope (rpm limit) st = (st1, r1)" by fastforce
  obtain st2 r2 where 2: "check_tpm ops now scope (tpm limit) st1 = (st2, r2)" by fastforce
  obtain st3 r3 where 3: "check_concurrency ops scope (concurrency limit) st2 = (st3, r3)" by fastforce
  note u = check_rpm_in_use [OF 1] check_tpm_in_use [OF 2] check_concurrency_in_use [OF 3]
  show ?thesis
    using assms u 1 2 3 by (cases r1; cases r2; cases r3) (auto simp: check_limit_def)
qed

text \<open>A check either keeps every slot it was given and the ones its permit lists, or gives all of
  them back.\<close>

lemma check_loop_in_use:
  assumes "check_loop ops now key_id project_id lims permits tpms st = (st', r)"
    and "\<And>k. count_list permits k \<le> in_use st k"
  shows "case r of
      Inl e \<Rightarrow> (\<forall>k. in_use st' k = in_use st k - count_list permits k)
    | Inr p \<Rightarrow> (\<forall>k. in_use st' k + count_list permits k = in_use st k + count_list (pm_concurrency p) k)"
  using assms
proof (induction lims arbitrary: permits tpms st)
  case Nil
  then show ?case by auto
next
  case (Cons l ls)
  show ?case
  proof (cases "limit_scope l key_id project_id")
    case None
    with Cons show ?thesis by simp
  next
    case (Some scope)
    obtain st1 r1 where c: "check_limit ops now l scope st = (st1, r1)" by fastforce
    note u = check_limit_in_use [OF c]
    show ?thesis
    proof (cases r1)
      case (Inl e)
      with Cons.prems Some c u show ?thesis by (auto simp: in_use_drop_permits)
    next
      case (Inr pt)
      obtain ps ts where pt: "pt = (ps, ts)" by (cases pt)
      have le: "count_list (permits @ ps) k \<le> in_use st1 k" for k
        using u Inr pt Cons.prems(2) [of k] by (simp add: count_list_append)
      from Cons.IH [OF _ le, of "tpms @ ts"] Cons.prems(1) Some c Inr pt
      have "case r of
          Inl e \<Rightarrow> (\<forall>k. in_use st' k = in_use st1 k - count_list (permits @ ps) k)
        | Inr p \<Rightarrow> (\<forall>k. in_use st' k + count_list (permits @ ps) k = in_use st1 k + count_list (pm_concurrency p) k)"
        by simp
      with u Inr pt show ?thesis by (auto simp: count_list_append split: sum.splits)
    qed
  qed
qed

lemma check_loop_bounded:
  assumes "check_loop ops now key_id project_id lims permits tpms st = (st', r)"
    and "conc_bounded lims bound" "\<And>k. in_use st k \<le> bound k"
  shows "in_use st' k \<le> bound k"
  using assms
proof (induction lims arbitrary: permits tpms st)
  case Nil
  then show ?case by auto
next
  case (Cons l ls)
  have bl: "conc_bounded ls bound" using Cons.prems(2) by (rule conc_bounded_tl)
  show ?case
  proof (cases "limit_scope l key_id project_id")
    case None
    with Cons bl show ?thesis by simp
  next
    case (Some scope)
    obtain st1 r1 where c: "check_limit ops now l scope st = (st1, r1)" by fastforce
    note u = check_limit_in_use [OF c]
    show ?thesis
    proof (cases r1)
      case (Inl e)
      with Cons.prems(1) Some c u have "in_use st' k = in_use st k - count_list permits k"
        by (auto simp: in_use_drop_permits)
      with Cons.prems(3) [of k] show ?thesis by simp
    next
      case (Inr pt)
      obtain ps ts where pt: "pt = (ps, ts)" by (cases pt)
      have "in_use st1 j \<le> bound j" for j
      proof (cases "j \<in> set ps")
        case True
        with u Inr pt obtain m where "concurrency l = Some m" "j = ''conc:'' @ scope" "in_use st1 j \<le> m" by auto
        with Cons.prems(2) Some show ?thesis by (fastforce simp: conc_bounded_def)
      next
        case False
        with u Inr pt Cons.prems(3) [of j] show ?thesis by simp
      qed
      with Cons.IH [OF _ bl, of "permits @ ps" "tpms @ ts" st1] Cons.prems(1) Some c Inr pt
      show ?thesis by simp
    qed
  qed
qed

lemma limiter_invariant:
  assumes "limiter_reach ops lims st0 s" "\<And>k. in_use st0 k = 0" "conc_bounded lims bound"
  shows "(\<forall>k. in_use (fst s) k = slots (snd s) k) \<and> (\<forall>k. in_use (fst s) k \<le> bound k)"
  using assms(1)
proof (induction rule: limiter_reach.induct)
  case init
  then show ?case using assms(2) by simp
next
  case (step s t)
  from step.hyps(2) show ?case
  proof (cases rule: limiter_step.cases)
    case (admit key_id project_id now st st' p ps)
    from admit(3) have c: "check_loop ops now key_id project_id lims [] [] st = (st', Inr p)"
      by (simp add: check_limits_def)
    from check_loop_in_use [OF c] check_loop_bounded [OF c assms(3)] step.IH admit(1,2) show ?thesis by auto
  next
    case (refuse key_id project_id now st st' e ps)
    from refuse(3) have c: "check_loop ops now key_id project_id lims [] [] st = (st', Inl e)"
      by (simp add: check_limits_def)
    from check_loop_in_use [OF c] step.IH refuse(1,2) show ?thesis by auto
  next
    case (finish p ps st actual now)
    have "in_use (fst t) k = slots (snd t) k \<and> in_use (fst t) k \<le> bound k" for k
      using slots_remove1 [OF finish(3), of k] step.IH finish(1,2) spec [OF conjunct2 [OF step.IH], of k]
      by (simp add: in_use_reconcile)
    then show ?thesis by blast
  next
    case (abandon p ps st)
    have "in_use (fst t) k = slots (snd t) k \<and> in_use (fst t) k \<le> bound k" for k
      using slots_remove1 [OF abandon(3), of k] step.IH abandon(1,2) spec [OF conjunct2 [OF step.IH], of k]
      by (simp add: drop_permit_def in_use_drop_permits)
    then show ?thesis by blast
  qed
qed

end

section \<open>The request window\<close>

text \<open>The answers of a sequence of checks at the given times.\<close>

fun run_checks ::
  "'c counter_ops \<Rightarrow> limit_config list \<Rightarrow> string \<Rightarrow> string \<Rightarrow> int list \<Rightarrow> 'c \<Rightarrow> (api_error + rate_permit) list" where
  "run_checks ops lims key_id project_id [] st = []"
| "run_checks ops lims key_id project_id (now # ts) st =
     (let (st', r) = check_limits ops lims key_id project_id now st
      in r # run_checks ops lims key_id project_id ts st')"

lemma mem_window_incr:
  "bucket_of t w = bucket_of now w \<Longrightarrow>
     mem_window (fst (mem_incr_window st now k w n)) t k w = wrap_i64 (mem_window st now k w + n)"
  by (simp add: mem_incr_window_def mem_window_def Let_def)

lemma mem_window_bucket: "bucket_of t w = bucket_of now w \<Longrightarrow> mem_window st t k w = mem_window st now k w"
  by (simp add: mem_window_def)

definition rpm_limit :: "limit_config \<Rightarrow> nat \<Rightarrow> bool" where
  "rpm_limit l m \<longleftrightarrow> rpm l = Some m \<and> tpm l = None \<and> concurrency l = None"

lemma check_rpm_limit:
  assumes "rpm_limit l m" "limit_scope l key_id project_id = Some scope"
  shows "check_limits mem_counter_ops [l] key_id project_id now st =
    (fst (mem_incr_window st now (''rpm:'' @ scope) WINDOW_MS 1),
     if m < i64_as_u64 (wrap_i64 (mem_window st now (''rpm:'' @ scope) WINDOW_MS + 1)) then Inl (Gateway RateLimited)
     else Inr \<lparr>pm_concurrency = [], tpm_reservations = []\<rparr>)"
  using assms
  by (simp add: check_limits_def rpm_limit_def check_limit_def check_rpm_def check_tpm_def check_concurrency_def
      drop_permits_def mem_counter_ops_def mem_incr_window_def mem_window_def Let_def)

lemma run_checks_rpm:
  assumes "rpm_limit l m" "limit_scope l key_id project_id = Some scope"
    and "\<forall>t \<in> set ts. bucket_of t WINDOW_MS = b"
    and "\<And>t. bucket_of t WINDOW_MS = b \<Longrightarrow> mem_window st t (''rpm:'' @ scope) WINDOW_MS = int n"
    and "int (n + length ts) \<le> i64_max"
  shows "map (\<lambda>r. case r of Inr _ \<Rightarrow> True | Inl _ \<Rightarrow> False) (run_checks mem_counter_ops [l] key_id project_id ts st) =
    map (\<lambda>i. n + i < m) [0..<length ts]"
  using assms(3-5)
proof (induction ts arbitrary: st n)
  case (Cons now ts)
  let ?k = "''rpm:'' @ scope"
  let ?st = "fst (mem_incr_window st now ?k WINDOW_MS 1)"
  have w: "mem_window st now ?k WINDOW_MS = int n" using Cons.prems(1,2) by simp
  have i64: "in_i64 (int n + 1)" using Cons.prems(3) by (simp add: in_i64_def)
  have nxt: "mem_window ?st t ?k WINDOW_MS = int (Suc n)" if "bucket_of t WINDOW_MS = b" for t
    using that Cons.prems(1) w i64 mem_window_incr [of t WINDOW_MS now st ?k 1] by simp
  have ih: "map (\<lambda>r. case r of Inr _ \<Rightarrow> True | Inl _ \<Rightarrow> False)
      (run_checks mem_counter_ops [l] key_id project_id ts ?st) = map (\<lambda>i. Suc n + i < m) [0..<length ts]"
    using Cons.prems by (intro Cons.IH nxt) simp_all
  have now: "i64_as_u64 (wrap_i64 (int n + 1)) = Suc n"
    using i64 by (simp add: i64_as_u64_nonneg nat_add_distrib)
  show ?case
    using ih now w check_rpm_limit [OF assms(1,2), of now st]
    by (simp add: upt_conv_Cons map_Suc_upt [symmetric] del: upt_Suc)
qed simp

section \<open>Properties\<close>

text \<open>C31: concurrency limits hold in every interleaving of arriving, finishing and failing requests: the
  slots in use are exactly those that the permits being held account for, so none leaks and none
  is freed twice, and they never exceed the largest configured limit that applies to the slot.\<close>

theorem concurrency_never_exceeded:
  assumes "limiter_reach mem_counter_ops lims mem_counter_new (st, ps)" "conc_bounded lims bound"
  shows "mem_in_use st k = slots ps k \<and> mem_in_use st k \<le> bound k"
proof -
  have "mem_in_use mem_counter_new k = 0" for k by (simp add: mem_in_use_def mem_counter_new_def)
  from mem_counter.limiter_invariant [OF assms(1) this assms(2)] show ?thesis unfolding fst_conv snd_conv by blast
qed

definition demo_conc_limit :: limit_config where
  "demo_conc_limit = \<lparr>lc_target = \<lparr>lt_kind = ''global'', lt_id = None, lt_key = None\<rparr>,
     rpm = None, tpm = None, concurrency = Some 1\<rparr>"

theorem concurrency_never_exceeded_witness:
  "\<exists>st p. limiter_reach mem_counter_ops [demo_conc_limit] mem_counter_new (st, [p])
     \<and> mem_in_use st ''conc:global'' = 1"
proof -
  let ?p = "\<lparr>pm_concurrency = [''conc:global''], tpm_reservations = []\<rparr>"
  obtain st where c: "check_limits mem_counter_ops [demo_conc_limit] ''k'' ''p'' 0 mem_counter_new = (st, Inr ?p)"
    by (simp add: check_limits_def demo_conc_limit_def limit_scope_def check_limit_def check_rpm_def check_tpm_def
        check_concurrency_def mem_counter_ops_def mem_try_acquire_concurrency_def mem_counter_new_def Let_def)
  then have r: "limiter_reach mem_counter_ops [demo_conc_limit] mem_counter_new (st, [?p])"
    by (rule limiter_reach.step [OF limiter_reach.init limiter_step.admit])
  have "conc_bounded [demo_conc_limit] (\<lambda>_. 1)"
    by (auto simp: conc_bounded_def demo_conc_limit_def)
  from concurrency_never_exceeded [OF r this, of "''conc:global''"] r show ?thesis by (auto simp: slots_def)
qed

text \<open>C32: a request limit admits exactly its quota: of any sequence of requests that fall in one window of a fresh
  counter, the first \<open>rpm\<close> are admitted and all others are refused.\<close>

theorem rpm_quota_exact:
  assumes "rpm_limit l m" "limit_scope l key_id project_id = Some scope"
    and "\<forall>t \<in> set ts. bucket_of t WINDOW_MS = b" "int (length ts) \<le> i64_max"
  shows "map (\<lambda>r. case r of Inr _ \<Rightarrow> True | Inl _ \<Rightarrow> False)
      (run_checks mem_counter_ops [l] key_id project_id ts mem_counter_new) = map (\<lambda>i. i < m) [0..<length ts]"
  using run_checks_rpm [OF assms(1,2,3), of mem_counter_new 0] assms(4)
  by (simp add: mem_window_def mem_counter_new_def)

theorem rpm_quota_exact_witness:
  "map (\<lambda>r. case r of Inr _ \<Rightarrow> True | Inl _ \<Rightarrow> False)
      (run_checks mem_counter_ops [demo_conc_limit\<lparr>rpm := Some 2, concurrency := None\<rparr>] ''k'' ''p'' [0, 10, 59999]
        mem_counter_new) = [True, True, False]"
  using rpm_quota_exact [of "demo_conc_limit\<lparr>rpm := Some 2, concurrency := None\<rparr>" 2 "''k''" "''p''" "''global''"
      "[0, 10, 59999]" 0]
  by (simp add: rpm_limit_def demo_conc_limit_def limit_scope_def bucket_of_def WINDOW_MS_def i64_as_u64_def
      upt_rec)

text \<open>A token counter that is below minus the pre-deduction locks its scope out: the count that the check
  compares is negative, its cast to \<open>u64\<close> exceeds every limit below \<open>2\<^sup>6\<^sup>3\<close>, the request is
  refused, and because the pre-deduction is rolled back the counter stays where it was.\<close>

theorem negative_tpm_locks_out:
  assumes "limit_scope l key_id project_id = Some scope" "rpm l = None" "tpm l = Some m" "m < 9223372036854775808"
    and "mem_window st now (''tpm:'' @ scope) WINDOW_MS = w" "in_i64 w" "w < - DEFAULT_TOKEN_PREDEDUCT"
  shows "\<exists>st'. check_limits mem_counter_ops [l] key_id project_id now st = (st', Inl (Gateway RateLimited))
    \<and> mem_window st' now (''tpm:'' @ scope) WINDOW_MS = w"
proof -
  have w1: "in_i64 (w + DEFAULT_TOKEN_PREDEDUCT)" "w + DEFAULT_TOKEN_PREDEDUCT < 0"
    using assms(6,7) by (auto simp: in_i64_def DEFAULT_TOKEN_PREDEDUCT_def)
  then have big: "m < i64_as_u64 (w + DEFAULT_TOKEN_PREDEDUCT)"
    using i64_as_u64_neg_big [OF w1(2,1)] assms(4) by linarith
  let ?st = "fst (mem_incr_window st now (''tpm:'' @ scope) WINDOW_MS DEFAULT_TOKEN_PREDEDUCT)"
  let ?st' = "fst (mem_incr_window ?st now (''tpm:'' @ scope) WINDOW_MS (- DEFAULT_TOKEN_PREDEDUCT))"
  have "check_limits mem_counter_ops [l] key_id project_id now st = (?st', Inl (Gateway RateLimited))"
    using assms(1-3,5) w1 big
    by (simp add: check_limits_def check_limit_def check_rpm_def check_tpm_def drop_permits_def mem_counter_ops_def
        mem_incr_window_def mem_window_def Let_def)
  moreover have "mem_window ?st' now (''tpm:'' @ scope) WINDOW_MS = w"
    using assms(5,6) w1 by (simp add: mem_window_incr)
  ultimately show ?thesis by blast
qed

theorem negative_tpm_locks_out_witness:
  "let l = demo_conc_limit\<lparr>tpm := Some 100000, concurrency := None\<rparr>;
       admit = (\<lambda>st. fst (check_limits mem_counter_ops [l] ''k'' ''p'' 0 st));
       permit = \<lparr>pm_concurrency = [], tpm_reservations = [(''tpm:global'', 1024)]\<rparr>;
       st = reconcile_tokens mem_counter_ops permit 0 60000
              (reconcile_tokens mem_counter_ops permit 0 60000 (admit (admit mem_counter_new)))
   in snd (check_limits mem_counter_ops [l] ''k'' ''p'' 60001 st) = Inl (Gateway RateLimited)"
proof -
  let ?l = "demo_conc_limit\<lparr>tpm := Some 100000, concurrency := None\<rparr>"
  let ?admit = "\<lambda>st. fst (check_limits mem_counter_ops [?l] ''k'' ''p'' 0 st)"
  let ?permit = "\<lparr>pm_concurrency = [], tpm_reservations = [(''tpm:global'', 1024)]\<rparr>"
  let ?st = "reconcile_tokens mem_counter_ops ?permit 0 60000
      (reconcile_tokens mem_counter_ops ?permit 0 60000 (?admit (?admit mem_counter_new)))"
  have w: "mem_window ?st 60001 (''tpm:'' @ ''global'') WINDOW_MS = -2048"
    by (simp add: check_limits_def demo_conc_limit_def limit_scope_def check_limit_def check_rpm_def check_tpm_def
        check_concurrency_def drop_permits_def drop_permit_def reconcile_tokens_def mem_counter_ops_def mem_incr_window_def
        mem_window_def mem_counter_new_def Let_def bucket_of_def WINDOW_MS_def i64_as_u64_def wrap_i64_def
        DEFAULT_TOKEN_PREDEDUCT_def hm_get_def hm_insert_def)
  have "limit_scope ?l ''k'' ''p'' = Some ''global''" by (simp add: limit_scope_def demo_conc_limit_def)
  from negative_tpm_locks_out [OF this _ _ _ w, of 100000] show ?thesis
    by (auto simp: demo_conc_limit_def in_i64_def DEFAULT_TOKEN_PREDEDUCT_def)
qed

end
