(* ===== verification/Tokens.thy ===== *)
theory Tokens
  imports Json
begin

text \<open>
  Token usage and response ids read from an upstream body: \<open>gateway-api/src/tokens.rs\<close>. A body is
  one JSON document or a stream of \<open>data:\<close> lines. \<open>parse\<close> is serde\_json's parser
  (\<^const>\<open>None\<close> on a syntax error).
\<close>

section \<open>Definitions\<close>

record usage_counts =
  uc_prompt :: "int option"
  uc_completion :: "int option"
  uc_cached :: "int option"
  uc_total :: "int option"

definition usage_default :: usage_counts where
  "usage_default = \<lparr>uc_prompt = None, uc_completion = None, uc_cached = None, uc_total = None\<rparr>"

definition total_tokens :: "usage_counts \<Rightarrow> int option" where
  "total_tokens u =
     (case uc_total u of
        Some t \<Rightarrow> Some t
      | None \<Rightarrow> (case (uc_prompt u, uc_completion u) of
                  (Some p, Some c) \<Rightarrow> Some (wrap_i64 (p + c))
                | _ \<Rightarrow> None))"

definition is_trim_byte :: "char \<Rightarrow> bool" where
  "is_trim_byte c \<longleftrightarrow> byte c = 32 \<or> byte c = 9 \<or> byte c = 13"

definition trim_ascii :: "bytes \<Rightarrow> bytes" where
  "trim_ascii s = rev (dropWhile is_trim_byte (rev (dropWhile is_trim_byte s)))"

definition usage_object :: "json \<Rightarrow> json option" where
  "usage_object v =
     map_option JObject
       (or_else (Option.bind (json_get v ''usage'') as_object)
          (Option.bind (Option.bind (json_get v ''response'') (\<lambda>r. json_get r ''usage'')) as_object))"

definition sub_i64 :: "json \<Rightarrow> string \<Rightarrow> int option" where
  "sub_i64 d k = Option.bind (json_get d k) as_i64"

definition from_value :: "json \<Rightarrow> usage_counts" where
  "from_value v =
     (case usage_object v of
        None \<Rightarrow> usage_default
      | Some usage \<Rightarrow>
          \<lparr>uc_prompt = Option.bind (or_else (json_get usage ''prompt_tokens'') (json_get usage ''input_tokens'')) as_i64,
           uc_completion =
             Option.bind (or_else (json_get usage ''completion_tokens'') (json_get usage ''output_tokens'')) as_i64,
           uc_cached =
             or_else
               (or_else
                 (Option.bind (json_get usage ''prompt_tokens_details'') (\<lambda>d. sub_i64 d ''cached_tokens''))
                 (Option.bind (json_get usage ''input_tokens_details'') (\<lambda>d. sub_i64 d ''cached_tokens'')))
               (sub_i64 usage ''cache_read_input_tokens''),
           uc_total = sub_i64 usage ''total_tokens''\<rparr>)"

text \<open>The payload of one line of an event stream, if it is an event with a JSON payload.\<close>

definition line_event :: "(bytes \<Rightarrow> json option) \<Rightarrow> bytes \<Rightarrow> json option" where
  "line_event parse line =
     (case strip_prefix (trim_ascii line) ''data: '' of
        None \<Rightarrow> None
      | Some payload \<Rightarrow> if payload = ''[DONE]'' then None else parse payload)"

definition merge_usage :: "usage_counts \<Rightarrow> usage_counts \<Rightarrow> usage_counts" where
  "merge_usage usage u =
     \<lparr>uc_prompt = or_else (uc_prompt u) (uc_prompt usage),
      uc_completion = or_else (uc_completion u) (uc_completion usage),
      uc_cached = or_else (uc_cached u) (uc_cached usage),
      uc_total = or_else (uc_total u) (uc_total usage)\<rparr>"

fun usage_loop :: "(bytes \<Rightarrow> json option) \<Rightarrow> bytes list \<Rightarrow> usage_counts \<Rightarrow> usage_counts" where
  "usage_loop parse [] usage = usage"
| "usage_loop parse (line # lns) usage =
     (case line_event parse line of
        None \<Rightarrow> usage_loop parse lns usage
      | Some v \<Rightarrow> usage_loop parse lns (merge_usage usage (from_value v)))"

definition newline :: char where "newline = CHR 0x0A"

definition extract_token_usage :: "(bytes \<Rightarrow> json option) \<Rightarrow> bytes \<Rightarrow> usage_counts" where
  "extract_token_usage parse body =
     (if body = [] then usage_default
      else (case parse body of
              Some v \<Rightarrow> from_value v
            | None \<Rightarrow> usage_loop parse (split_on newline body) usage_default))"

definition non_empty_id :: "json \<Rightarrow> string option" where
  "non_empty_id v = Option.bind (as_str v) (\<lambda>s. if s = [] then None else Some s)"

definition id_from_value :: "json \<Rightarrow> string option" where
  "id_from_value v =
     or_else (Option.bind (json_get v ''id'') non_empty_id)
       (Option.bind (Option.bind (json_get v ''response'') (\<lambda>r. json_get r ''id'')) non_empty_id)"

fun id_loop :: "(bytes \<Rightarrow> json option) \<Rightarrow> bytes list \<Rightarrow> string option" where
  "id_loop parse [] = None"
| "id_loop parse (line # lns) =
     (case line_event parse line of
        None \<Rightarrow> id_loop parse lns
      | Some v \<Rightarrow> (case id_from_value v of Some i \<Rightarrow> Some i | None \<Rightarrow> id_loop parse lns))"

definition extract_response_id :: "(bytes \<Rightarrow> json option) \<Rightarrow> bytes \<Rightarrow> string option" where
  "extract_response_id parse body =
     (if body = [] then None
      else (case parse body of
              Some v \<Rightarrow> id_from_value v
            | None \<Rightarrow> id_loop parse (split_on newline body)))"

section \<open>Reference definitions\<close>

text \<open>The events of a stream in order, and the last of a list of optional values.\<close>

definition stream_events :: "(bytes \<Rightarrow> json option) \<Rightarrow> bytes \<Rightarrow> json list" where
  "stream_events parse body = List.map_filter (line_event parse) (split_on newline body)"

definition last_some :: "'a option list \<Rightarrow> 'a option" where
  "last_some xs = (let ys = filter (\<lambda>x. x \<noteq> None) xs in if ys = [] then None else last ys)"

lemma last_some_Cons: "last_some (x # xs) = or_else (last_some xs) x"
proof (cases "filter (\<lambda>x. x \<noteq> None) xs = []")
  case True
  then show ?thesis by (simp add: last_some_def Let_def)
next
  case False
  then have "last (filter (\<lambda>x. x \<noteq> None) xs) \<in> set (filter (\<lambda>x. x \<noteq> None) xs)" by (rule last_in_set)
  then obtain y where "last (filter (\<lambda>x. x \<noteq> None) xs) = Some y" by auto
  with False show ?thesis by (auto simp: last_some_def Let_def)
qed

lemma last_some_Nil [simp]: "last_some [] = None"
  by (simp add: last_some_def)

lemma or_else_assoc: "or_else (or_else x y) z = or_else x (or_else y z)"
  by (cases x) simp_all

lemma usage_loop_last:
  "usage_loop parse lns u =
     (let us = map from_value (List.map_filter (line_event parse) lns) in
      \<lparr>uc_prompt = or_else (last_some (map uc_prompt us)) (uc_prompt u),
       uc_completion = or_else (last_some (map uc_completion us)) (uc_completion u),
       uc_cached = or_else (last_some (map uc_cached us)) (uc_cached u),
       uc_total = or_else (last_some (map uc_total us)) (uc_total u)\<rparr>)"
  by (induction parse lns u rule: usage_loop.induct)
    (auto simp: map_filter_simps Let_def last_some_Cons merge_usage_def or_else_assoc split: option.split)

lemma id_loop_first:
  "id_loop parse lns = (case List.map_filter id_from_value (List.map_filter (line_event parse) lns) of
      [] \<Rightarrow> None | i # _ \<Rightarrow> Some i)"
  by (induction parse lns rule: id_loop.induct) (auto simp: map_filter_simps split: option.split)

section \<open>Properties\<close>

text \<open>for a streamed body the reported usage is, field by field, the value of the last event that carries the
  field (no event, no value), and the response id is the first non-empty id of the stream; lines that are not
  events, the end marker and events that do not parse contribute nothing.\<close>

theorem stream_usage_spec:
  assumes "body \<noteq> []" "parse body = None"
  shows "let us = map from_value (stream_events parse body); u = extract_token_usage parse body in
      uc_prompt u = last_some (map uc_prompt us) \<and> uc_completion u = last_some (map uc_completion us)
      \<and> uc_cached u = last_some (map uc_cached us) \<and> uc_total u = last_some (map uc_total us)
      \<and> extract_response_id parse body =
          (case List.map_filter id_from_value (stream_events parse body) of [] \<Rightarrow> None | i # _ \<Rightarrow> Some i)"
proof -
  have d: "or_else x None = x" for x :: "'b option" by (cases x) simp_all
  show ?thesis using assms
    by (simp add: extract_token_usage_def extract_response_id_def usage_loop_last id_loop_first stream_events_def
        Let_def usage_default_def d)
qed

definition demo_parse :: "bytes \<Rightarrow> json option" where
  "demo_parse b =
     (if b = ''1'' then Some (JObject [(''id'', JString ''x''), (''usage'', JObject [(''prompt_tokens'', JNumber (PosInt 11))])])
      else if b = ''2'' then Some (JObject [(''usage'', JObject [(''prompt_tokens'', JNumber (PosInt 12))])])
      else None)"

theorem stream_usage_spec_witness:
  "let body = ''data: 1'' @ [newline] @ ''event: y'' @ [newline] @ ''data: 2'' in
   uc_prompt (extract_token_usage demo_parse body) = Some 12 \<and> extract_response_id demo_parse body = Some ''x''"
proof -
  let ?body = "''data: 1'' @ [newline] @ ''event: y'' @ [newline] @ ''data: 2''"
  have "demo_parse ?body = None" by (simp add: demo_parse_def newline_def)
  moreover have "stream_events demo_parse ?body =
      [JObject [(''id'', JString ''x''), (''usage'', JObject [(''prompt_tokens'', JNumber (PosInt 11))])],
       JObject [(''usage'', JObject [(''prompt_tokens'', JNumber (PosInt 12))])]]"
    by (simp add: stream_events_def newline_def line_event_def trim_ascii_def is_trim_byte_def byte_def
        strip_prefix_def demo_parse_def map_filter_simps)
  ultimately show ?thesis
    using stream_usage_spec [of ?body demo_parse]
    by (simp add: Let_def from_value_def usage_object_def last_some_Cons id_from_value_def non_empty_id_def
        map_filter_simps)
qed

text \<open>every token count read from a body whose JSON values are well-formed is a 64-bit integer, and so is the
  total, which wraps when prompt and completion overflow it.\<close>

theorem usage_in_range:
  assumes "json_wf v"
  shows "\<forall>x \<in> {uc_prompt (from_value v), uc_completion (from_value v), uc_cached (from_value v),
      uc_total (from_value v), total_tokens (from_value v)}. \<forall>i. x = Some i \<longrightarrow> in_i64 i"
proof -
  have get: "json_wf w" if "json_wf u" "json_get u k = Some w" for u w k
    using that by (cases u) (auto dest!: map_of_SomeD)
  have sub: "in_i64 i" if "json_wf u" "sub_i64 u k = Some i" for u k i
    using that get as_i64_in_range by (fastforce simp: sub_i64_def split: bind_splits)
  have obj: "json_wf u" if "usage_object v = Some u" for u
  proof -
    from that obtain w m where "u = JObject m" "as_object w = Some m"
        "json_get v ''usage'' = Some w \<or> (\<exists>r. json_get v ''response'' = Some r \<and> json_get r ''usage'' = Some w)"
      by (auto simp: usage_object_def or_else_def split: option.splits bind_splits)
    moreover from this have "json_wf w" using get [OF assms] get by blast
    moreover have "w = JObject m" using calculation(2) by (cases w) simp_all
    ultimately show ?thesis by simp
  qed
  show ?thesis
  proof (cases "usage_object v")
    case None
    then show ?thesis by (simp add: from_value_def usage_default_def total_tokens_def)
  next
    case (Some u)
    have wf: "json_wf u" by (rule obj [OF Some])
    have num: "in_i64 i" if "Option.bind (or_else (json_get u k) (json_get u k')) as_i64 = Some i" for k k' i
      using that get [OF wf] as_i64_in_range by (auto simp: or_else_def split: option.splits bind_splits)
    have two: "in_i64 i" if "json_get u k = Some d" "sub_i64 d k' = Some i" for k d k' i
      using sub [OF get [OF wf that(1)] that(2)] .
    have "in_i64 i" if "uc_cached (from_value v) = Some i" for i
      using that Some sub [OF wf] two
      by (auto simp: from_value_def or_else_def split: option.splits bind_splits)
    moreover have "in_i64 i" if "uc_total (from_value v) = Some i" for i
      using that Some sub [OF wf] by (simp add: from_value_def)
    moreover from this have "in_i64 i" if "total_tokens (from_value v) = Some i" for i
      using that by (auto simp: total_tokens_def split: option.splits)
    ultimately show ?thesis using Some num by (auto simp: from_value_def)
  qed
qed

theorem usage_in_range_witness:
  "total_tokens (from_value (JObject [(''usage'', JObject [(''input_tokens'', JNumber (PosInt 9223372036854775807)),
     (''output_tokens'', JNumber (PosInt 1))])])) = Some (-9223372036854775808)
   \<and> in_i64 (-9223372036854775808)"
  using usage_in_range [of "JObject [(''usage'', JObject [(''input_tokens'', JNumber (PosInt 9223372036854775807)),
     (''output_tokens'', JNumber (PosInt 1))])]"]
  by (simp add: from_value_def usage_object_def total_tokens_def sub_i64_def wrap_i64_def)

end
