(* ===== verification/Proxy_Handler.thy ===== *)
theory Proxy_Handler
  imports Request_Log Fingerprint Executor Auth Rate_Limit Budget Tokens Pricing
begin

text \<open>
  The proxy endpoint, \<open>gateway-api/src/routes/proxy.rs\<close>: the handler from the request's bytes to the
  response, and the task it spawns to pump the upstream body to the client, write the cache, settle the
  rate limit and the budgets, and log.

  The handler runs to a \<open>proxy_outcome\<close>: an error, a replayed response, or a response head
  whose body is produced by a \<open>stream_task\<close>. The task is a value; \<open>run_task\<close> runs it on the state of
  the stores at the time it runs, with the number of items the client still takes. Libraries the
  handler calls are the fields of \<open>externals\<close>; every reading of a clock is an argument.
\<close>

section \<open>State and inputs\<close>

record externals =
  ex_to_str :: "string \<Rightarrow> string option"
  ex_hv :: "string \<Rightarrow> bool"
  ex_hv_bytes :: "string \<Rightarrow> bool"
  ex_hn :: "string \<Rightarrow> string option"
  ex_parse :: "bytes \<Rightarrow> json option"
  ex_chunks :: "json \<Rightarrow> bytes list"
  ex_nstr :: "jnumber \<Rightarrow> string"
  ex_blake3_hex :: "bytes \<Rightarrow> string"
  ex_codec :: codec
  ex_mday :: "int \<Rightarrow> int"
  ex_dbg :: "string option \<Rightarrow> string"

text \<open>The handles of \<open>AppState\<close> that the endpoint uses.\<close>

record ('l, 'k, 'c) app_state =
  as_config :: app_config
  as_engine :: proxy_engine
  as_pricing :: pricing_catalog
  as_logs :: "'l log_ops"
  as_kv :: "'k kv_ops"
  as_counter :: "'c counter_ops"

text \<open>What those handles share and mutate; \<open>st_fired\<close> collects the threshold events.\<close>

record ('l, 'k, 'c) stores =
  st_logs :: 'l
  st_kv :: 'k
  st_counter :: 'c
  st_notified :: notified
  st_fired :: "fired list"

record proxy_request =
  rq_id :: string
  rq_principal :: gateway_key_principal
  rq_namespace :: string
  rq_tail :: string
  rq_remote_ip :: string
  rq_headers :: header_map
  rq_method :: string
  rq_body :: "string + bytes"

text \<open>Clock readings of the handler and of the task, in milliseconds.\<close>

record clocks =
  ck_log :: int
  ck_budget :: int
  ck_limits :: int
  ck_get :: int
  ck_elapsed :: int
  ck_forward :: int
  ck_replay :: int

record task_clocks =
  tc_finished :: int
  tc_put :: int
  tc_reconcile :: int
  tc_cost :: int
  tc_elapsed :: int

record response_head =
  rh_status :: nat
  rh_headers :: header_map

record stream_task =
  tk_body :: body_stream
  tk_status :: nat
  tk_upstream_ms :: int
  tk_ttfb_ms :: int
  tk_log :: log_builder
  tk_permit :: rate_permit
  tk_cache_should_write :: bool
  tk_cache_ttl :: "nat option"
  tk_cache_key :: "string option"
  tk_headers :: header_map
  tk_upstream_provider :: string
  tk_project_id :: string
  tk_key_id :: string

text \<open>\<open>Streaming None\<close>: the handler panicked after it had spawned the task.\<close>

datatype proxy_outcome =
    Failed api_error
  | Panicked
  | Replied response_head "bytes list"
  | Streaming "response_head option" stream_task

section \<open>Routing and headers\<close>

definition MAX_CACHEABLE_BODY_BYTES :: nat where "MAX_CACHEABLE_BODY_BYTES = 20971520"

definition route_matches :: "route_config \<Rightarrow> string \<Rightarrow> string option \<Rightarrow> bool" where
  "route_matches route url_namespace model =
     (case rm_namespace (route_match route) of
        None \<Rightarrow> False
      | Some expected_ns \<Rightarrow>
          expected_ns = url_namespace
          \<and> (case rm_model_prefix (route_match route) of
               None \<Rightarrow> True
             | Some pfx \<Rightarrow> (case model of Some m \<Rightarrow> starts_with m pfx | None \<Rightarrow> False)))"

definition find_route :: "app_config \<Rightarrow> string \<Rightarrow> string option \<Rightarrow> route_config option" where
  "find_route config url_namespace model = find (\<lambda>r. route_matches r url_namespace model) (routes config)"

definition cache_key_needed :: "cache_policy option \<Rightarrow> bool \<Rightarrow> bool" where
  "cache_key_needed policy body_is_cacheable_shape \<longleftrightarrow>
     body_is_cacheable_shape \<and> (case policy of Some p \<Rightarrow> cp_directive p \<noteq> CdBypass | None \<Rightarrow> False)"

text \<open>A slice of the key that ends inside a character panics: \<^const>\<open>None\<close>.\<close>

definition insert_cache_headers ::
  "externals \<Rightarrow> cache_status \<Rightarrow> string option \<Rightarrow> nat option \<Rightarrow> header_map \<Rightarrow> header_map option" where
  "insert_cache_headers ex status key age_s h =
     (let h1 = hdr_insert_if (ex_hv ex) ''x-gateway-cache-status'' (as_header status) h in
      Option.bind
        (case key of
           None \<Rightarrow> Some h1
         | Some k \<Rightarrow> map_option (\<lambda>v. hdr_insert_if (ex_hv ex) ''x-gateway-cache-key'' v h1)
             (str_slice_to k (min (length k) 48)))
        (\<lambda>h2. Some (case age_s of
           None \<Rightarrow> h2
         | Some age \<Rightarrow> hdr_insert_if (ex_hv ex) ''x-gateway-cache-age'' (show_nat age) h2)))"

definition length_header :: "string \<Rightarrow> bool" where
  "length_header k \<longleftrightarrow> eq_ignore_ascii_case k ''content-length'' \<or> eq_ignore_ascii_case k ''transfer-encoding''"

text \<open>A header the builder cannot take makes \<open>body\<close> fail: then an empty response with status 200.\<close>

definition build_cached_response ::
  "externals \<Rightarrow> int \<Rightarrow> cached_response \<Rightarrow> cache_status \<Rightarrow> string \<Rightarrow> (response_head \<times> bytes list) option" where
  "build_cached_response ex now cached status key =
     (let kept = filter (\<lambda>(k, v). \<not> length_header k) (cd_headers cached);
          ok = (\<forall>(k, v) \<in> set kept. ex_hn ex k \<noteq> None \<and> ex_hv_bytes ex v);
          h = (if ok then map (\<lambda>(k, v). (the (ex_hn ex k), v)) kept else []);
          code = (if ok then (if valid_status (cd_status cached) then cd_status cached else 200) else 200);
          age = wrap_i64 (now - cd_finished_at_ms cached)
      in map_option (\<lambda>h'. (\<lparr>rh_status = code, rh_headers = h'\<rparr>, if ok then cd_chunks cached else []))
           (insert_cache_headers ex status (Some key) (Some (nat (max age 0) div 1000)) h))"

definition non_empty :: "string option \<Rightarrow> string option" where
  "non_empty s = Option.bind s (\<lambda>x. if x = [] then None else Some x)"

definition extract_client_ip :: "externals \<Rightarrow> header_map \<Rightarrow> string \<Rightarrow> string option" where
  "extract_client_ip ex headers remote_ip =
     (case non_empty (map_option (\<lambda>v. trim (hd (split_on (CHR '','') v))) (hdr_str (ex_to_str ex) headers ''x-forwarded-for'')) of
        Some forwarded \<Rightarrow> Some forwarded
      | None \<Rightarrow>
          (case non_empty (map_option trim (hdr_str (ex_to_str ex) headers ''x-real-ip'')) of
             Some real_ip \<Rightarrow> Some real_ip
           | None \<Rightarrow> Some remote_ip))"

definition read_body :: "string + bytes \<Rightarrow> api_error + bytes" where
  "read_body body = (case body of Inl e \<Rightarrow> Inl (ApiBadRequest (''failed to read body: '' @ e)) | Inr b \<Rightarrow> Inr b)"

definition is_success :: "nat \<Rightarrow> bool" where
  "is_success status \<longleftrightarrow> 200 \<le> status \<and> status < 300"

text \<open>\<open>serde_json::to_value\<close> of the attempt trace: objects with sorted keys.\<close>

definition opt_json :: "('a \<Rightarrow> json) \<Rightarrow> 'a option \<Rightarrow> json" where
  "opt_json f x = (case x of None \<Rightarrow> JNull | Some v \<Rightarrow> f v)"

definition attempt_json :: "attempt_trace \<Rightarrow> json" where
  "attempt_json t = JObject
     [(''duration_ms'', JNumber (PosInt (tr_duration_ms t))),
      (''model'', opt_json JString (tr_model t)),
      (''outcome'', JString (tr_outcome t)),
      (''provider'', JString (tr_provider t)),
      (''status'', opt_json (\<lambda>s. JNumber (PosInt s)) (tr_status t))]"

section \<open>The handler\<close>

definition upstream_path :: "string \<Rightarrow> string" where
  "upstream_path tail = ''/'' @ trim_start_matches (CHR ''/'') tail"

text \<open>The log record as it is when the request has been read.\<close>

definition initial_log :: "externals \<Rightarrow> int \<Rightarrow> proxy_request \<Rightarrow> bytes \<Rightarrow> log_builder" where
  "initial_log ex now req body_bytes =
     (let request_json = ex_parse ex body_bytes in
      set_client (extract_client_ip ex (rq_headers req) (rq_remote_ip req)) (hdr_str (ex_to_str ex) (rq_headers req) ''user-agent'')
       (set_model (extract_model request_json)
        (set_request_body (request_body_for_log (ex_chunks ex) body_bytes request_json)
         (set_gateway_key (Some (gp_key_id (rq_principal req)))
          (log_new now (rq_id req) (gp_project_id (rq_principal req)) (Some (rq_namespace req))
             (Some (upstream_path (rq_tail req))))))))"

definition log_submit :: "('l, 'k, 'c) app_state \<Rightarrow> log_builder \<Rightarrow> ('l, 'k, 'c) stores \<Rightarrow> ('l, 'k, 'c) stores" where
  "log_submit app l s = s\<lparr>st_logs := submit (as_logs app) l (st_logs s)\<rparr>"

definition release_permit :: "('l, 'k, 'c) app_state \<Rightarrow> rate_permit \<Rightarrow> ('l, 'k, 'c) stores \<Rightarrow> ('l, 'k, 'c) stores" where
  "release_permit app p s = s\<lparr>st_counter := drop_permit (as_counter app) p (st_counter s)\<rparr>"

definition request_policy :: "externals \<Rightarrow> route_config \<Rightarrow> header_map \<Rightarrow> cache_policy option" where
  "request_policy ex route headers =
     from_headers (ex_to_str ex) headers (cache_enabled (route_cache route)) (cache_ttl (route_cache route))
       (allow_nondeterministic (route_cache route))"

definition cacheable_shape :: "externals \<Rightarrow> cache_policy option \<Rightarrow> bytes \<Rightarrow> bool" where
  "cacheable_shape ex policy body_bytes =
     (case policy of Some p \<Rightarrow> body_is_cacheable p (ex_parse ex body_bytes) | None \<Rightarrow> False)"

definition request_cache_key :: "externals \<Rightarrow> proxy_request \<Rightarrow> cache_policy option \<Rightarrow> bytes \<Rightarrow> string option" where
  "request_cache_key ex req policy body_bytes =
     (if cache_key_needed policy (cacheable_shape ex policy body_bytes)
      then (let fp = fingerprint (ex_blake3_hex ex) (ex_nstr ex)
                       \<lparr>fi_namespace = rq_namespace req, fi_endpoint = upstream_path (rq_tail req),
                        fi_body = body_bytes, fi_json_body = ex_parse ex body_bytes,
                        fi_cache_scope = Option.bind policy cp_cache_scope\<rparr>
            in Some (''resp:'' @ rq_namespace req @ '':'' @ fp))
      else None)"

text \<open>The cache lookup. A store error or a blob that does not decode is a miss. The \<open>expect\<close> on the
  key is the outer \<^const>\<open>None\<close>.\<close>

definition cache_lookup ::
  "externals \<Rightarrow> ('l, 'k, 'c) app_state \<Rightarrow> int \<Rightarrow> cache_policy option \<Rightarrow> bool \<Rightarrow> string option \<Rightarrow> ('l, 'k, 'c) stores
     \<Rightarrow> (('l, 'k, 'c) stores \<times> cache_status \<times> cached_response option) option" where
  "cache_lookup ex app now policy shape key s =
     (case policy of
        None \<Rightarrow> Some (s, CsDisabled, None)
      | Some p \<Rightarrow>
          if \<not> shape then Some (s, CsDisabled, None)
          else if cp_directive p = CdBypass then Some (s, CsBypass, None)
          else if cp_directive p = CdRefresh then Some (s, CsRefresh, None)
          else (case key of
                  None \<Rightarrow> None
                | Some k \<Rightarrow>
                    (let (kv, r) = kv_get (as_kv app) (st_kv s) now k; s1 = s\<lparr>st_kv := kv\<rparr> in
                     case r of
                       Inr (Some blob) \<Rightarrow>
                         (case cached_decode (ex_codec ex) blob of
                            Inr cached \<Rightarrow> Some (s1, CsHit, Some cached)
                          | Inl _ \<Rightarrow> Some (s1, CsMiss, None))
                     | Inr None \<Rightarrow> Some (s1, CsMiss, None)
                     | Inl _ \<Rightarrow> Some (s1, CsMiss, None))))"

definition priced_usage :: "usage_counts \<Rightarrow> token_usage" where
  "priced_usage u = \<lparr>tu_prompt = unwrap_or (uc_prompt u) 0, tu_completion = unwrap_or (uc_completion u) 0,
     tu_cached = unwrap_or (uc_cached u) 0\<rparr>"

definition set_usage :: "usage_counts \<Rightarrow> log_builder \<Rightarrow> log_builder" where
  "set_usage u = set_token_usage (uc_prompt u) (uc_completion u) (uc_cached u) (total_tokens u)"

text \<open>The log of a cache hit: no cost, and what the upstream call would have cost.\<close>

definition hit_log ::
  "externals \<Rightarrow> pricing_catalog \<Rightarrow> int \<Rightarrow> string \<Rightarrow> cached_response \<Rightarrow> string option \<Rightarrow> log_builder \<Rightarrow> log_builder" where
  "hit_log ex pricing elapsed primary_provider cached preview l =
     (let usage = extract_token_usage (ex_parse ex) (concat (cd_chunks cached));
          l1 = set_usage usage (set_cached True (set_response_body preview
                 (set_timing elapsed 0 0 (set_status ''success'' (Some (int (cd_status cached))) l))));
          would_have = Option.bind (lr_model l1) (\<lambda>model.
            map_option cb_cost_usd
              (compute_cost pricing (unwrap_or (cd_served_by cached) primary_provider) model (priced_usage usage)));
          l2 = set_cost (Some f64_0) would_have l1
      in case cd_served_by cached of
           None \<Rightarrow> l2
         | Some p \<Rightarrow> merge_metadata ''attempts''
             (JArray [JObject [(''outcome'', JString ''cache_hit''), (''provider'', JString p)]]) l2)"

definition replay_cached ::
  "externals \<Rightarrow> ('l, 'k, 'c) app_state \<Rightarrow> clocks \<Rightarrow> string \<Rightarrow> cached_response \<Rightarrow> cache_status \<Rightarrow> string option \<Rightarrow> rate_permit
     \<Rightarrow> log_builder \<Rightarrow> ('l, 'k, 'c) stores \<Rightarrow> ('l, 'k, 'c) stores \<times> proxy_outcome" where
  "replay_cached ex app ck primary_provider cached status key permit l s =
     (case cached_body_preview cached of
        None \<Rightarrow> (release_permit app permit s, Panicked)
      | Some preview \<Rightarrow>
          (let s1 = log_submit app (hit_log ex (as_pricing app) (ck_elapsed ck) primary_provider cached preview l) s in
           case Option.bind key (build_cached_response ex (ck_replay ck) cached status) of
             None \<Rightarrow> (release_permit app permit s1, Panicked)
           | Some (hd', body) \<Rightarrow> (release_permit app permit s1, Replied hd' body)))"

text \<open>The log after the provider chain has run.\<close>

definition chain_log :: "chain_result \<Rightarrow> log_builder \<Rightarrow> log_builder" where
  "chain_log result l =
     (let l1 = set_retry (int (length (cr_attempts result) - 1))
                 (merge_metadata ''attempts'' (JArray (map attempt_json (cr_attempts result))) l)
      in case cr_fallback_used result of Some fb \<Rightarrow> set_fallback (Some fb) l1 | None \<Rightarrow> l1)"

definition forward_template :: "proxy_request \<Rightarrow> bytes \<Rightarrow> forward_request" where
  "forward_template req body_bytes =
     \<lparr>fr_provider = rq_namespace req, fr_path = upstream_path (rq_tail req), fr_query = None, fr_method = rq_method req,
      fr_headers = rq_headers req, fr_body = (if body_bytes = [] then None else Some body_bytes)\<rparr>"

definition forward_upstream ::
  "externals \<Rightarrow> ('l, 'k, 'c) app_state \<Rightarrow> upstream \<Rightarrow> clocks \<Rightarrow> proxy_request \<Rightarrow> bytes \<Rightarrow> route_config
     \<Rightarrow> cache_policy option \<Rightarrow> bool \<Rightarrow> cache_status \<Rightarrow> string option \<Rightarrow> rate_permit \<Rightarrow> log_builder
     \<Rightarrow> ('l, 'k, 'c) stores \<Rightarrow> ('l, 'k, 'c) stores \<times> proxy_outcome" where
  "forward_upstream ex app call ck req body_bytes route policy shape status key permit l s =
     (let result = execute_chain call (from_route route) (forward_template req body_bytes);
          l1 = chain_log result l
      in case cr_response result of
           Inl e \<Rightarrow>
             (release_permit app permit
                (log_submit app
                   (set_error (gateway_error_display (ex_dbg ex) e)
                     (set_timing (ck_elapsed ck) (ck_forward ck) 0
                       (set_status (classification e) (Some (int (status_code e))) l1))) s),
              Failed (Gateway e))
         | Inr r \<Rightarrow>
             (s, Streaming
                (map_option (\<lambda>h. \<lparr>rh_status = resp_status r, rh_headers = h\<rparr>)
                   (insert_cache_headers ex status key None (resp_headers r)))
                \<lparr>tk_body = resp_body r, tk_status = resp_status r, tk_upstream_ms = wrap_i64 (int (upstream_ms r)),
                 tk_ttfb_ms = wrap_i64 (int (ttfb_ms r)), tk_log = l1, tk_permit = permit,
                 tk_cache_should_write = ((status = CsMiss \<or> status = CsRefresh) \<and> is_success (resp_status r)
                                          \<and> shape \<and> policy \<noteq> None),
                 tk_cache_ttl = map_option cp_ttl policy, tk_cache_key = key, tk_headers = resp_headers r,
                 tk_upstream_provider = unwrap_or (cr_fallback_used result) (rt_provider (primary route)),
                 tk_project_id = gp_project_id (rq_principal req), tk_key_id = gp_key_id (rq_principal req)\<rparr>))"

text \<open>The part after admission: routing, cache, upstream.\<close>

definition serve_admitted ::
  "externals \<Rightarrow> ('l, 'k, 'c) app_state \<Rightarrow> upstream \<Rightarrow> clocks \<Rightarrow> proxy_request \<Rightarrow> bytes \<Rightarrow> log_builder \<Rightarrow> rate_permit
     \<Rightarrow> ('l, 'k, 'c) stores \<Rightarrow> ('l, 'k, 'c) stores \<times> proxy_outcome" where
  "serve_admitted ex app call ck req body_bytes l permit s =
     (case find_route (as_config app) (rq_namespace req) (lr_model l) of
        None \<Rightarrow>
          (release_permit app permit
             (log_submit app
                (set_error (''no route for namespace '' @ quoted (rq_namespace req))
                  (set_timing (ck_elapsed ck) 0 0 (set_status ''gateway_error'' (Some 404) l))) s),
           Failed (Gateway (NoRoute (rq_namespace req))))
      | Some route \<Rightarrow>
          (let policy = request_policy ex route (rq_headers req);
               shape = cacheable_shape ex policy body_bytes;
               key = request_cache_key ex req policy body_bytes
           in case cache_lookup ex app (ck_get ck) policy shape key s of
                None \<Rightarrow> (release_permit app permit s, Panicked)
              | Some (s1, status, Some cached) \<Rightarrow>
                  replay_cached ex app ck (rt_provider (primary route)) cached status key permit l s1
              | Some (s1, status, None) \<Rightarrow>
                  if map_option cp_directive policy = Some CdOnlyIfCached
                  then (release_permit app permit
                          (log_submit app
                             (set_error ''cache miss with X-Gateway-Cache: only''
                               (set_timing (ck_elapsed ck) 0 0 (set_status ''gateway_error'' (Some 504) l))) s1),
                        Failed (Gateway UpstreamTimeout))
                  else forward_upstream ex app call ck req body_bytes route policy shape status key permit l s1))"

definition proxy_inner ::
  "externals \<Rightarrow> ('l, 'k, 'c) app_state \<Rightarrow> upstream \<Rightarrow> clocks \<Rightarrow> proxy_request
     \<Rightarrow> ('l, 'k, 'c) stores \<Rightarrow> ('l, 'k, 'c) stores \<times> proxy_outcome" where
  "proxy_inner ex app call ck req s =
     (case read_body (rq_body req) of
        Inl e \<Rightarrow> (s, Failed e)
      | Inr body_bytes \<Rightarrow>
          (let l = initial_log ex (ck_log ck) req body_bytes;
               key_id = gp_key_id (rq_principal req);
               project_id = gp_project_id (rq_principal req)
           in if check_block (ex_mday ex) (as_counter app) (as_config app) (ck_budget ck) project_id key_id (st_counter s)
              then (log_submit app
                      (set_error ''budget_exceeded''
                        (set_timing (ck_elapsed ck) 0 0 (set_status ''gateway_error'' (Some 429) l))) s,
                    Failed (Gateway RateLimited))
              else (case check_limits (as_counter app) (limits (as_config app)) key_id project_id (ck_limits ck) (st_counter s) of
                      (c, Inl e) \<Rightarrow>
                        (log_submit app (set_timing (ck_elapsed ck) 0 0 (set_status ''rate_limited'' (Some 429) l))
                           (s\<lparr>st_counter := c\<rparr>), Failed e)
                    | (c, Inr permit) \<Rightarrow>
                        serve_admitted ex app call ck req body_bytes l permit (s\<lparr>st_counter := c\<rparr>))))"

text \<open>What the client is sent at once: the head of the response with the request id, and the body
  when it does not come from the task. A panicking handler sends nothing.\<close>

datatype client_response =
    Whole response_head "json + bytes list"
  | Head response_head
  | Aborted

definition with_request_id :: "externals \<Rightarrow> string \<Rightarrow> response_head \<Rightarrow> response_head" where
  "with_request_id ex request_id h =
     h\<lparr>rh_headers := hdr_insert_if (ex_hv ex) ''x-gateway-request-id'' request_id (rh_headers h)\<rparr>"

definition error_head :: "externals \<Rightarrow> api_error \<Rightarrow> response_head" where
  "error_head ex e = \<lparr>rh_status = fst (into_response (ex_dbg ex) e), rh_headers = [(''content-type'', ''application/json'')]\<rparr>"

fun respond :: "externals \<Rightarrow> string \<Rightarrow> proxy_outcome \<Rightarrow> client_response" where
  "respond ex rid (Failed e) = Whole (with_request_id ex rid (error_head ex e)) (Inl (snd (into_response (ex_dbg ex) e)))"
| "respond ex rid Panicked = Aborted"
| "respond ex rid (Replied h body) = Whole (with_request_id ex rid h) (Inr body)"
| "respond ex rid (Streaming None t) = Aborted"
| "respond ex rid (Streaming (Some h) t) = Head (with_request_id ex rid h)"

definition proxy_handler ::
  "externals \<Rightarrow> ('l, 'k, 'c) app_state \<Rightarrow> upstream \<Rightarrow> clocks \<Rightarrow> proxy_request
     \<Rightarrow> ('l, 'k, 'c) stores \<Rightarrow> ('l, 'k, 'c) stores \<times> client_response \<times> proxy_outcome" where
  "proxy_handler ex app call ck req s =
     (let (s1, out) = proxy_inner ex app call ck req s in (s1, respond ex (rq_id req) out, out))"

section \<open>The streaming task\<close>

record stream_state =
  ss_capture :: bytes
  ss_truncated :: bool
  ss_cache_chunks :: "bytes list"
  ss_cache_total :: nat
  ss_cache_oversize :: bool
  ss_send_err :: bool
  ss_accept :: nat
  ss_sent :: body_stream

text \<open>\<open>tx.send\<close>: \<open>ss_accept\<close> more items are taken before the client goes away.\<close>

definition tx_send :: "string + bytes \<Rightarrow> stream_state \<Rightarrow> stream_state" where
  "tx_send item st =
     (if ss_send_err st then st
      else if ss_accept st = 0 then st\<lparr>ss_send_err := True\<rparr>
      else st\<lparr>ss_accept := ss_accept st - 1, ss_sent := ss_sent st @ [item]\<rparr>)"

definition capture_chunk :: "bytes \<Rightarrow> stream_state \<Rightarrow> stream_state" where
  "capture_chunk chunk st =
     (if length (ss_capture st) < MAX_LOG_BODY_BYTES
      then (let remaining = MAX_LOG_BODY_BYTES - length (ss_capture st);
                tk = min remaining (length chunk);
                st1 = st\<lparr>ss_capture := ss_capture st @ take tk chunk\<rparr>
            in if tk < length chunk then st1\<lparr>ss_truncated := True\<rparr> else st1)
      else if chunk \<noteq> [] then st\<lparr>ss_truncated := True\<rparr>
      else st)"

definition cache_chunk :: "bool \<Rightarrow> bytes \<Rightarrow> stream_state \<Rightarrow> stream_state" where
  "cache_chunk should_write chunk st =
     (if should_write \<and> \<not> ss_cache_oversize st
      then (let tot = u64_saturating_add (ss_cache_total st) (length chunk); st1 = st\<lparr>ss_cache_total := tot\<rparr>
            in if MAX_CACHEABLE_BODY_BYTES < tot then st1\<lparr>ss_cache_oversize := True, ss_cache_chunks := []\<rparr>
               else st1\<lparr>ss_cache_chunks := ss_cache_chunks st @ [chunk]\<rparr>)
      else st)"

text \<open>The pump: the flag says whether the stream ended without an error.\<close>

fun pump :: "bool \<Rightarrow> body_stream \<Rightarrow> stream_state \<Rightarrow> stream_state \<times> bool" where
  "pump should_write [] st = (st, True)"
| "pump should_write (Inr chunk # rest) st =
     pump should_write rest (tx_send (Inr chunk) (cache_chunk should_write chunk (capture_chunk chunk st)))"
| "pump should_write (Inl e # rest) st = (tx_send (Inl e) st, False)"

definition stream_init :: "nat \<Rightarrow> stream_state" where
  "stream_init accept = \<lparr>ss_capture = [], ss_truncated = False, ss_cache_chunks = [], ss_cache_total = 0,
     ss_cache_oversize = False, ss_send_err = False, ss_accept = accept, ss_sent = []\<rparr>"

definition header_pairs :: "externals \<Rightarrow> header_map \<Rightarrow> (string \<times> string) list" where
  "header_pairs ex h = List.map_filter (\<lambda>(k, v). map_option (\<lambda>s. (k, s)) (ex_to_str ex v)) h"

text \<open>The write-back: nothing for an oversize body or one that does not encode. A panicking put is
  \<^const>\<open>None\<close>.\<close>

definition cache_write ::
  "externals \<Rightarrow> ('l, 'k, 'c) app_state \<Rightarrow> task_clocks \<Rightarrow> stream_task \<Rightarrow> stream_state \<Rightarrow> 'k \<Rightarrow> 'k option" where
  "cache_write ex app tc t st kv =
     (if tk_cache_should_write t \<and> \<not> ss_cache_oversize st
      then (case cached_encode (ex_codec ex)
                   \<lparr>cd_status = tk_status t, cd_headers = header_pairs ex (tk_headers t),
                    cd_chunks = ss_cache_chunks st, cd_finished_at_ms = tc_finished tc,
                    cd_served_by = Some (tk_upstream_provider t)\<rparr> of
              Inl _ \<Rightarrow> Some kv
            | Inr blob \<Rightarrow>
                (case (tk_cache_ttl t, tk_cache_key t) of
                   (Some ttl, Some key) \<Rightarrow> map_option fst (kv_put (as_kv app) kv (tc_put tc) key blob ttl)
                 | _ \<Rightarrow> Some kv))
      else Some kv)"

definition task_cost :: "('l, 'k, 'c) app_state \<Rightarrow> stream_task \<Rightarrow> usage_counts \<Rightarrow> f64 option" where
  "task_cost app t usage =
     (if is_success (tk_status t)
      then Option.bind (lr_model (tk_log t)) (\<lambda>model.
             map_option cb_cost_usd (compute_cost (as_pricing app) (tk_upstream_provider t) model (priced_usage usage)))
      else None)"

definition charge ::
  "externals \<Rightarrow> ('l, 'k, 'c) app_state \<Rightarrow> task_clocks \<Rightarrow> stream_task \<Rightarrow> f64 option \<Rightarrow> ('l, 'k, 'c) stores \<Rightarrow> ('l, 'k, 'c) stores" where
  "charge ex app tc t cost s =
     (case cost of
        None \<Rightarrow> s
      | Some c \<Rightarrow>
          (let ((cnt, ns), out) = record_cost (ex_mday ex) (as_counter app) (as_config app) (tc_cost tc)
                 (tk_project_id t) (tk_key_id t) c (st_counter s, st_notified s)
           in s\<lparr>st_counter := cnt, st_notified := ns, st_fired := st_fired s @ out\<rparr>))"

definition with_response_id :: "externals \<Rightarrow> bytes \<Rightarrow> log_builder \<Rightarrow> log_builder" where
  "with_response_id ex capture l =
     (case extract_response_id (ex_parse ex) capture of Some rid \<Rightarrow> set_id rid l | None \<Rightarrow> l)"

definition error_log :: "externals \<Rightarrow> task_clocks \<Rightarrow> stream_task \<Rightarrow> stream_state \<Rightarrow> log_builder" where
  "error_log ex tc t st =
     set_response_body (captured_body_to_string (ss_capture st) (ss_truncated st))
       (set_timing (tc_elapsed tc) (tk_upstream_ms t) (tk_ttfb_ms t)
         (set_status ''upstream_error'' (Some (int (tk_status t)))
           (with_response_id ex (ss_capture st) (tk_log t))))"

definition final_log ::
  "externals \<Rightarrow> task_clocks \<Rightarrow> stream_task \<Rightarrow> stream_state \<Rightarrow> usage_counts \<Rightarrow> f64 option \<Rightarrow> log_builder" where
  "final_log ex tc t st usage cost =
     set_response_body (captured_body_to_string (ss_capture st) (ss_truncated st))
       (set_cost cost cost (set_usage usage
         (set_timing (tc_elapsed tc) (tk_upstream_ms t) (tk_ttfb_ms t)
           (set_status (if is_success (tk_status t) then ''success'' else ''upstream_error'') (Some (int (tk_status t)))
             (with_response_id ex (ss_capture st) (tk_log t))))))"

text \<open>The whole task: the new state and what the client received.\<close>

definition run_task ::
  "externals \<Rightarrow> ('l, 'k, 'c) app_state \<Rightarrow> task_clocks \<Rightarrow> nat \<Rightarrow> stream_task \<Rightarrow> ('l, 'k, 'c) stores
     \<Rightarrow> ('l, 'k, 'c) stores \<times> body_stream" where
  "run_task ex app tc accept t s =
     (let (st, complete) = pump (tk_cache_should_write t) (tk_body t) (stream_init accept) in
      if \<not> complete
      then (release_permit app (tk_permit t) (log_submit app (error_log ex tc t st) s), ss_sent st)
      else (case cache_write ex app tc t st (st_kv s) of
              None \<Rightarrow> (release_permit app (tk_permit t) s, ss_sent st)
            | Some kv \<Rightarrow>
                (let usage = extract_token_usage (ex_parse ex) (ss_capture st);
                     s1 = s\<lparr>st_kv := kv\<rparr>;
                     s2 = s1\<lparr>st_counter := reconcile_tokens (as_counter app) (tk_permit t)
                               (unwrap_or (total_tokens usage) 0) (tc_reconcile tc) (st_counter s1)\<rparr>;
                     cost = task_cost app t usage;
                     s3 = charge ex app tc t cost s2
                 in (log_submit app (final_log ex tc t st usage cost) s3, ss_sent st))))"

end
