(* ===== verification/Proxy_Stream.thy ===== *)
theory Proxy_Stream
  imports Proxy_Handler Memory_Store
begin

text \<open>
  What the streaming task of the proxy does with an upstream body: what the client receives, what is
  captured for the log, what goes into the cache, and what the task leaves of permits and logs.
\<close>

section \<open>Bodies\<close>

text \<open>The chunks before the first transport error, and the items up to and including it.\<close>

fun ok_prefix :: "body_stream \<Rightarrow> bytes list" where
  "ok_prefix (Inr c # items') = c # ok_prefix items'"
| "ok_prefix _ = []"

fun pumped :: "body_stream \<Rightarrow> body_stream" where
  "pumped [] = []"
| "pumped (Inr c # items') = Inr c # pumped items'"
| "pumped (Inl e # items') = [Inl e]"

fun all_ok :: "body_stream \<Rightarrow> bool" where
  "all_ok [] = True"
| "all_ok (Inr c # items') = all_ok items'"
| "all_ok (Inl e # items') = False"

lemma pumped_all_ok: "all_ok b \<Longrightarrow> pumped b = b \<and> b = map Inr (ok_prefix b)"
  by (induction b rule: all_ok.induct) simp_all

section \<open>The pump\<close>

definition captured :: "bytes list \<Rightarrow> stream_state \<Rightarrow> bool" where
  "captured cs st \<longleftrightarrow> ss_capture st = take MAX_LOG_BODY_BYTES (concat cs)
     \<and> (ss_truncated st \<longleftrightarrow> MAX_LOG_BODY_BYTES < length (concat cs))"

definition collected :: "bool \<Rightarrow> bytes list \<Rightarrow> stream_state \<Rightarrow> bool" where
  "collected w cs st \<longleftrightarrow> w \<longrightarrow>
     (ss_cache_oversize st \<longleftrightarrow> MAX_CACHEABLE_BODY_BYTES < length (concat cs))
     \<and> (\<not> ss_cache_oversize st \<longrightarrow> ss_cache_chunks st = cs \<and> ss_cache_total st = length (concat cs))"

definition delivered :: "nat \<Rightarrow> body_stream \<Rightarrow> stream_state \<Rightarrow> bool" where
  "delivered n items' st \<longleftrightarrow> ss_sent st = take n items' \<and> (ss_send_err st \<longleftrightarrow> n < length items')
     \<and> (\<not> ss_send_err st \<longrightarrow> ss_accept st = n - length items')"

lemma capture_chunk_captured: "captured cs st \<Longrightarrow> captured (cs @ [c]) (capture_chunk c st)"
  by (auto simp: captured_def capture_chunk_def Let_def min_def not_less le_diff_conv)

lemma cache_chunk_collected: "collected w cs st \<Longrightarrow> collected w (cs @ [c]) (cache_chunk w c st)"
  by (auto simp: collected_def cache_chunk_def Let_def u64_saturating_add_def MAX_CACHEABLE_BODY_BYTES_def min_def)

lemma tx_send_delivered: "delivered n items' st \<Longrightarrow> delivered n (items' @ [i]) (tx_send i st)"
  by (auto simp: delivered_def tx_send_def take_Cons')

lemma pump_frame:
  "captured cs (tx_send i st) = captured cs st" "collected w cs (tx_send i st) = collected w cs st"
  "captured cs (cache_chunk w' c st) = captured cs st" "delivered n items' (cache_chunk w' c st) = delivered n items' st"
  "collected w cs (capture_chunk c st) = collected w cs st" "delivered n items' (capture_chunk c st) = delivered n items' st"
  by (simp_all add: captured_def collected_def delivered_def tx_send_def cache_chunk_def capture_chunk_def Let_def)

lemma pump_spec:
  "captured cs st \<Longrightarrow> collected w cs st \<Longrightarrow> delivered n items' st \<Longrightarrow> pump w b st = (st', ok) \<Longrightarrow>
   captured (cs @ ok_prefix b) st' \<and> collected w (cs @ ok_prefix b) st' \<and> delivered n (items' @ pumped b) st'
   \<and> (ok \<longleftrightarrow> all_ok b)"
proof (induction w b st arbitrary: cs items' rule: pump.induct)
  case (2 w chunk rest st)
  from 2(1) [of "cs @ [chunk]" "items' @ [Inr chunk]"] 2(2-) show ?case
    by (simp add: pump_frame capture_chunk_captured cache_chunk_collected tx_send_delivered)
next
  case (3 w e rest st)
  then show ?case by (auto simp: pump_frame tx_send_delivered)
qed simp

lemma pump_init:
  assumes "pump w b (stream_init n) = (st, ok)"
  shows "captured (ok_prefix b) st" "collected w (ok_prefix b) st" "delivered n (pumped b) st" "ok \<longleftrightarrow> all_ok b"
proof -
  have "captured [] (stream_init n)" "collected w [] (stream_init n)" "delivered n [] (stream_init n)"
    by (simp_all add: captured_def collected_def delivered_def stream_init_def MAX_CACHEABLE_BODY_BYTES_def)
  from pump_spec [OF this assms]
  show "captured (ok_prefix b) st" "collected w (ok_prefix b) st" "delivered n (pumped b) st" "ok \<longleftrightarrow> all_ok b"
    by simp_all
qed

section \<open>The task\<close>

text \<open>What the task does to the stores after its pump ended in \<open>st\<close>.\<close>

definition settled ::
  "externals \<Rightarrow> ('l, 'k, 'c) app_state \<Rightarrow> task_clocks \<Rightarrow> stream_task \<Rightarrow> stream_state \<Rightarrow> usage_counts
     \<Rightarrow> ('l, 'k, 'c) stores \<Rightarrow> ('l, 'k, 'c) stores" where
  "settled ex app tc t st usage s =
     log_submit app (final_log ex tc t st usage (task_cost app t usage))
       (charge ex app tc t (task_cost app t usage)
         (s\<lparr>st_counter := reconcile_tokens (as_counter app) (tk_permit t)
              (unwrap_or (total_tokens usage) 0) (tc_reconcile tc) (st_counter s)\<rparr>))"

definition task_end ::
  "externals \<Rightarrow> ('l, 'k, 'c) app_state \<Rightarrow> task_clocks \<Rightarrow> stream_task \<Rightarrow> stream_state
     \<Rightarrow> ('l, 'k, 'c) stores \<Rightarrow> ('l, 'k, 'c) stores" where
  "task_end ex app tc t st s =
     (if \<not> all_ok (tk_body t) then release_permit app (tk_permit t) (log_submit app (error_log ex tc t st) s)
      else (case cache_write ex app tc t st (st_kv s) of
              None \<Rightarrow> release_permit app (tk_permit t) s
            | Some kv \<Rightarrow> settled ex app tc t st (extract_token_usage (ex_parse ex) (ss_capture st)) (s\<lparr>st_kv := kv\<rparr>)))"

lemma run_task_ends:
  obtains st where "captured (ok_prefix (tk_body t)) st" "collected (tk_cache_should_write t) (ok_prefix (tk_body t)) st"
    "run_task ex app tc accept t s = (task_end ex app tc t st s, take accept (pumped (tk_body t)))"
proof -
  obtain st ok where p: "pump (tk_cache_should_write t) (tk_body t) (stream_init accept) = (st, ok)" by fastforce
  note i = pump_init [OF p]
  have "run_task ex app tc accept t s = (task_end ex app tc t st s, take accept (pumped (tk_body t)))"
    using i(3,4) by (simp add: run_task_def p Let_def task_end_def settled_def delivered_def split: option.splits)
  with i(1,2) that show thesis by blast
qed

lemma store_frame [simp]:
  "st_kv (log_submit app l s) = st_kv s" "st_kv (release_permit app pm s) = st_kv s"
  "st_logs (release_permit app pm s) = st_logs s" "st_counter (log_submit app l s) = st_counter s"
  "st_logs (log_submit app l s) = submit (as_logs app) l (st_logs s)"
  "st_counter (release_permit app pm s) = drop_permit (as_counter app) pm (st_counter s)"
  "st_notified (log_submit app l s) = st_notified s" "st_notified (release_permit app pm s) = st_notified s"
  by (simp_all add: log_submit_def release_permit_def)

lemma charge_frame [simp]:
  "st_kv (charge ex app tc t cost s) = st_kv s" "st_logs (charge ex app tc t cost s) = st_logs s"
  by (simp_all add: charge_def case_prod_unfold Let_def split: option.splits)

text \<open>C6: Whatever the task also does with a body (capture, cache, account), the client receives the
  upstream's items unchanged and in order, up to and including a transport error, as many as it takes
  before it goes away.\<close>

theorem client_receives_stream: "snd (run_task ex app tc accept t s) = take accept (pumped (tk_body t))"
  by (rule run_task_ends [of t ex app tc accept s]) simp

text \<open>The response that a task stores.\<close>

definition task_payload :: "externals \<Rightarrow> task_clocks \<Rightarrow> stream_task \<Rightarrow> cached_response" where
  "task_payload ex tc t = \<lparr>cd_status = tk_status t, cd_headers = header_pairs ex (tk_headers t),
     cd_chunks = ok_prefix (tk_body t), cd_finished_at_ms = tc_finished tc,
     cd_served_by = Some (tk_upstream_provider t)\<rparr>"

definition stores_response :: "stream_task \<Rightarrow> bool" where
  "stores_response t \<longleftrightarrow> tk_cache_should_write t \<and> all_ok (tk_body t)
     \<and> length (concat (ok_prefix (tk_body t))) \<le> MAX_CACHEABLE_BODY_BYTES"

lemma cache_write_payload:
  assumes "collected (tk_cache_should_write t) (ok_prefix (tk_body t)) st" "all_ok (tk_body t)"
  shows "cache_write ex app tc t st kv =
    (if stores_response t
     then (case cached_encode (ex_codec ex) (task_payload ex tc t) of
             Inl _ \<Rightarrow> Some kv
           | Inr blob \<Rightarrow>
               (case (tk_cache_ttl t, tk_cache_key t) of
                  (Some ttl, Some key) \<Rightarrow> map_option fst (kv_put (as_kv app) kv (tc_put tc) key blob ttl)
                | _ \<Rightarrow> Some kv))
     else Some kv)"
  using assms
  by (cases "tk_cache_should_write t \<and> \<not> ss_cache_oversize st")
    (auto simp: cache_write_def collected_def stores_response_def task_payload_def not_less)

text \<open>C3: The cache changes in one way only: a response that the policy allows to be stored, that was
  read to its end without an error and is not larger than 20 MB is put, whole, under the request's key
  with the policy's time to live. An interrupted, oversize or ineligible response leaves the cache as it
  was, also when the client has gone away.\<close>

theorem cache_written_exactly:
  "st_kv (fst (run_task ex app tc accept t s)) =
     (case (cached_encode (ex_codec ex) (task_payload ex tc t), tk_cache_ttl t, tk_cache_key t) of
        (Inr blob, Some ttl, Some key) \<Rightarrow>
          if stores_response t
          then (case kv_put (as_kv app) (st_kv s) (tc_put tc) key blob ttl of Some (kv, _) \<Rightarrow> kv | None \<Rightarrow> st_kv s)
          else st_kv s
      | _ \<Rightarrow> st_kv s)"
proof -
  obtain st where st: "collected (tk_cache_should_write t) (ok_prefix (tk_body t)) st"
    "run_task ex app tc accept t s = (task_end ex app tc t st s, take accept (pumped (tk_body t)))"
    by (rule run_task_ends [of t ex app tc accept s])
  show ?thesis
  proof (cases "all_ok (tk_body t)")
    case False
    then have "\<not> stores_response t" by (simp add: stores_response_def)
    with False st(2) show ?thesis by (auto simp: task_end_def split: sum.splits option.splits)
  next
    case True
    with st(2) show ?thesis
      by (auto simp: task_end_def settled_def cache_write_payload [OF st(1) True] split: sum.splits option.splits)
  qed
qed

text \<open>The record a task logs, written from the task's inputs: \<open>usage\<close> and the logged body come from the
  first 64 KiB of what was received.\<close>

definition task_capture :: "stream_task \<Rightarrow> bytes" where
  "task_capture t = take MAX_LOG_BODY_BYTES (concat (ok_prefix (tk_body t)))"

definition task_record_ok :: "externals \<Rightarrow> ('l, 'k, 'c) app_state \<Rightarrow> stream_task \<Rightarrow> request_log_record \<Rightarrow> bool" where
  "task_record_ok ex app t r \<longleftrightarrow>
     (let usage = extract_token_usage (ex_parse ex) (task_capture t) in
      lr_project_id r = lr_project_id (tk_log t) \<and> lr_gateway_key_id r = lr_gateway_key_id (tk_log t)
      \<and> lr_id r = unwrap_or (extract_response_id (ex_parse ex) (task_capture t)) (lr_id (tk_log t))
      \<and> lr_http_status r = Some (int (tk_status t))
      \<and> lr_response_body r = captured_body_to_string (task_capture t)
           (MAX_LOG_BODY_BYTES < length (concat (ok_prefix (tk_body t))))
      \<and> lr_status r = (if all_ok (tk_body t) \<and> is_success (tk_status t) then ''success'' else ''upstream_error'')
      \<and> (all_ok (tk_body t) \<longrightarrow> lr_prompt_tokens r = uc_prompt usage \<and> lr_completion_tokens r = uc_completion usage
           \<and> lr_total_tokens r = total_tokens usage \<and> lr_cost_usd r = task_cost app t usage))"

lemma log_setters [simp]:
  "lr_project_id (set_id i l) = lr_project_id l" "lr_gateway_key_id (set_id i l) = lr_gateway_key_id l"
  "lr_id (set_id i l) = i"
  by (simp_all add: set_id_def)

lemma with_response_id_simps [simp]:
  "lr_project_id (with_response_id ex c l) = lr_project_id l"
  "lr_gateway_key_id (with_response_id ex c l) = lr_gateway_key_id l"
  "lr_id (with_response_id ex c l) = unwrap_or (extract_response_id (ex_parse ex) c) (lr_id l)"
  by (simp_all add: with_response_id_def unwrap_or_def split: option.splits)

lemmas log_simps = set_status_def set_timing_def set_response_body_def set_usage_def set_token_usage_def set_cost_def

text \<open>C38: A task that does not panic in the cache write logs exactly one record, and that record tells
  what happened: the provider's response id, the status, the clipped body; for a stream read to its
  end also the token usage found in the first 64 KiB and the cost computed from it.\<close>

theorem task_logs_once:
  assumes "\<And>kv k v ttl. tk_cache_ttl t = Some ttl \<Longrightarrow> kv_put (as_kv app) kv (tc_put tc) k v ttl \<noteq> None"
  shows "\<exists>r. st_logs (fst (run_task ex app tc accept t s)) = submit (as_logs app) r (st_logs s) \<and> task_record_ok ex app t r"
proof -
  obtain st where st: "captured (ok_prefix (tk_body t)) st"
    "collected (tk_cache_should_write t) (ok_prefix (tk_body t)) st"
    "run_task ex app tc accept t s = (task_end ex app tc t st s, take accept (pumped (tk_body t)))"
    by (rule run_task_ends [of t ex app tc accept s])
  have c: "ss_capture st = task_capture t" "ss_truncated st \<longleftrightarrow> MAX_LOG_BODY_BYTES < length (concat (ok_prefix (tk_body t)))"
    using st(1) by (simp_all add: captured_def task_capture_def)
  show ?thesis
  proof (cases "all_ok (tk_body t)")
    case False
    have "task_record_ok ex app t (error_log ex tc t st)"
      using False c by (simp add: task_record_ok_def error_log_def log_simps Let_def)
    with False st(3) show ?thesis by (auto simp: task_end_def)
  next
    case True
    have "cache_write ex app tc t st (st_kv s) \<noteq> None"
      using assms by (auto simp: cache_write_def split: sum.splits option.splits)
    then obtain kv where kv: "cache_write ex app tc t st (st_kv s) = Some kv" by auto
    let ?u = "extract_token_usage (ex_parse ex) (ss_capture st)"
    have "task_record_ok ex app t (final_log ex tc t st ?u (task_cost app t ?u))"
      using True c by (simp add: task_record_ok_def final_log_def log_simps Let_def)
    with True st(3) kv show ?thesis by (auto simp: task_end_def settled_def)
  qed
qed

definition demo_externals :: externals where
  "demo_externals =
     \<lparr>ex_to_str = Some, ex_hv = (\<lambda>_. True), ex_hv_bytes = (\<lambda>_. True), ex_hn = Some,
      ex_parse = (\<lambda>b. if b = ''{}'' then Some (JObject []) else None), ex_chunks = (\<lambda>_. [''{}'']), ex_nstr = (\<lambda>_. ''0''),
      ex_blake3_hex = (\<lambda>_. ''f''),
      ex_codec = \<lparr>bincode_encode = (\<lambda>r. if r = \<lparr>cd_status = 200, cd_headers = [], cd_chunks = [''hi''],
                      cd_finished_at_ms = 0, cd_served_by = Some ''p''\<rparr> then Inr ''x'' else Inl ''other''),
                  bincode_decode = (\<lambda>b. if b = ''x'' then Inr \<lparr>cd_status = 200, cd_headers = [], cd_chunks = [''hi''],
                      cd_finished_at_ms = 0, cd_served_by = Some ''p''\<rparr> else Inl ''bad''),
                  zstd_encode = Inr, zstd_decode = Inr\<rparr>,
      ex_mday = (\<lambda>_. 1), ex_dbg = (\<lambda>_. [])\<rparr>"

definition demo_route :: route_config where
  "demo_route = \<lparr>route_match = \<lparr>rm_namespace = Some ''ns'', rm_model_prefix = None\<rparr>,
     primary = \<lparr>rt_provider = ''p'', rt_model = None, rt_trigger = []\<rparr>,
     route_cache = \<lparr>cache_enabled = True, cache_ttl = 60, allow_nondeterministic = True\<rparr>,
     route_retry = route_retry_config_default, fallbacks = []\<rparr>"

definition demo_app :: "(mem_logs, mem_kv, mem_counter) app_state" where
  "demo_app = \<lparr>as_config = demo_budget_config\<lparr>routes := [demo_route], budgets := []\<rparr>, as_engine = [],
     as_pricing = catalog_default, as_logs = mem_log_ops, as_kv = mem_kv_ops, as_counter = mem_counter_ops\<rparr>"

definition demo_task_log :: log_builder where
  "demo_task_log = log_new 0 ''rid'' ''default'' (Some ''ns'') (Some ''/v1'')"

definition demo_task :: stream_task where
  "demo_task = \<lparr>tk_body = [Inr ''hi''], tk_status = 200, tk_upstream_ms = 5, tk_ttfb_ms = 5, tk_log = demo_task_log,
     tk_permit = \<lparr>pm_concurrency = [], tpm_reservations = []\<rparr>, tk_cache_should_write = True, tk_cache_ttl = Some 60,
     tk_cache_key = Some ''resp:ns:f'', tk_headers = [], tk_upstream_provider = ''p'', tk_project_id = ''default'',
     tk_key_id = ''k1''\<rparr>"

definition demo_task_clocks :: task_clocks where
  "demo_task_clocks = \<lparr>tc_finished = 0, tc_put = 0, tc_reconcile = 0, tc_cost = 0, tc_elapsed = 0\<rparr>"

theorem task_logs_once_witness:
  "\<forall>s. \<exists>r. st_logs (fst (run_task demo_externals demo_app demo_task_clocks 1 demo_task s))
      = submit mem_log_ops r (st_logs s) \<and> task_record_ok demo_externals demo_app demo_task r"
proof
  fix s
  show "\<exists>r. st_logs (fst (run_task demo_externals demo_app demo_task_clocks 1 demo_task s))
      = submit mem_log_ops r (st_logs s) \<and> task_record_ok demo_externals demo_app demo_task r"
    using task_logs_once [of demo_task demo_app demo_task_clocks demo_externals 1 s]
    by (auto simp: demo_app_def demo_task_def demo_task_clocks_def mem_kv_ops_def mem_kv_put_def instant_add_def)
qed

section \<open>Permits\<close>

context counter_contract
begin

lemma record_loop_in_use: "in_use (fst (fst (record_loop mday ops now cost bs s out))) = in_use (fst s)"
proof (induction bs arbitrary: s out)
  case (Cons b bs)
  show ?case
    by (simp add: case_prod_unfold Let_def Cons.IH
        incr_budget_other [of "fst s" "bc_name b" "period_start_for mday now (bc_period b)" cost, OF prod.collapse [symmetric]])
qed simp

lemma charge_in_use:
  assumes "as_counter app = ops"
  shows "in_use (st_counter (charge ex app tc t cost s)) = in_use (st_counter s)"
  using assms record_loop_in_use
  by (simp add: charge_def record_cost_def case_prod_unfold Let_def split: option.splits)

lemma run_task_in_use:
  assumes "as_counter app = ops"
  shows "in_use (st_counter (fst (run_task ex app tc accept t s))) k
    = in_use (st_counter s) k - count_list (pm_concurrency (tk_permit t)) k"
proof -
  obtain st where "run_task ex app tc accept t s = (task_end ex app tc t st s, take accept (pumped (tk_body t)))"
    by (rule run_task_ends [of t ex app tc accept s])
  with assms show ?thesis
    by (simp add: task_end_def settled_def charge_in_use in_use_reconcile drop_permit_def in_use_drop_permits
        split: option.splits)
qed

end

end
