(* ===== verification/Proxy_Correct.thy ===== *)
theory Proxy_Correct
  imports Proxy_Stream
begin

text \<open>
  Properties of the proxy handler: which requests reach an upstream, what each outcome leaves in
  the stores, that permits come back, and that a stored response is replayed.
\<close>

section \<open>What the phases keep\<close>

lemma cache_lookup_frame:
  "cache_lookup ex app now policy shape key s = Some (s1, status, r) \<Longrightarrow>
   st_counter s1 = st_counter s \<and> st_logs s1 = st_logs s \<and> st_notified s1 = st_notified s \<and> st_fired s1 = st_fired s"
  by (auto simp: cache_lookup_def Let_def case_prod_unfold split: option.splits if_splits sum.splits)

lemma serve_admitted_counter:
  assumes "serve_admitted ex app call ck req b l permit s = (s', out)"
  shows "case out of
      Streaming h t \<Rightarrow> st_counter s' = st_counter s \<and> tk_permit t = permit
    | _ \<Rightarrow> st_counter s' = drop_permit (as_counter app) permit (st_counter s)"
  using assms
  by (auto simp: serve_admitted_def replay_cached_def forward_upstream_def Let_def dest!: cache_lookup_frame
      split: option.splits if_splits sum.splits)

section \<open>Permits come back\<close>

context counter_contract
begin

lemma check_limits_in_use:
  assumes "check_limits ops lims key_id project_id now st = (st', r)"
  shows "case r of
      Inl e \<Rightarrow> in_use st' = in_use st
    | Inr p \<Rightarrow> (\<forall>k. in_use st' k = in_use st k + count_list (pm_concurrency p) k)"
  using check_loop_in_use [OF assms [unfolded check_limits_def]] by (auto split: sum.splits)

lemma proxy_inner_in_use:
  assumes "as_counter app = ops" "proxy_inner ex app call ck req s = (s', out)"
  shows "case out of
      Streaming h t \<Rightarrow> (\<forall>k. in_use (st_counter s') k
          = in_use (st_counter s) k + count_list (pm_concurrency (tk_permit t)) k)
    | _ \<Rightarrow> in_use (st_counter s') = in_use (st_counter s)"
proof (cases "read_body (rq_body req)")
  case (Inl e)
  with assms show ?thesis by (auto simp: proxy_inner_def)
next
  case (Inr b)
  let ?key = "gp_key_id (rq_principal req)" and ?proj = "gp_project_id (rq_principal req)"
  obtain c r where c: "check_limits ops (limits (as_config app)) ?key ?proj (ck_limits ck) (st_counter s) = (c, r)"
    by fastforce
  note u = check_limits_in_use [OF c]
  show ?thesis
  proof (cases "check_block (ex_mday ex) ops (as_config app) (ck_budget ck) ?proj ?key (st_counter s)")
    case True
    with assms Inr show ?thesis by (auto simp: proxy_inner_def Let_def)
  next
    case False
    show ?thesis
    proof (cases r)
      case (Inl e)
      with assms Inr False c u show ?thesis by (auto simp: proxy_inner_def Let_def)
    next
      case (Inr p)
      with assms \<open>read_body (rq_body req) = Inr b\<close> False c
      have "serve_admitted ex app call ck req b (initial_log ex (ck_log ck) req b) p (s\<lparr>st_counter := c\<rparr>) = (s', out)"
        by (simp add: proxy_inner_def Let_def)
      from serve_admitted_counter [OF this] u Inr assms(1) show ?thesis
        by (auto simp: drop_permit_def in_use_drop_permits fun_eq_iff split: proxy_outcome.splits)
    qed
  qed
qed

end

text \<open>C4: No concurrency slot leaks. A request that does not stream, whether it is refused, replayed from
  the cache, fails upstream or panics, leaves every slot counter as it found it; a streaming request holds
  exactly the slots of its task's permit, and the task gives exactly those back when it ends, whatever
  other requests did in between and however the stream ended.\<close>

theorem permits_come_back:
  assumes "as_counter app = mem_counter_ops" "proxy_inner ex app call ck req s = (s', out)"
  shows "case out of
      Streaming h t \<Rightarrow>
        (\<forall>k. mem_in_use (st_counter s') k = mem_in_use (st_counter s) k + count_list (pm_concurrency (tk_permit t)) k)
        \<and> (\<forall>tc accept later k. mem_in_use (st_counter (fst (run_task ex app tc accept t later))) k
             = mem_in_use (st_counter later) k - count_list (pm_concurrency (tk_permit t)) k)
    | _ \<Rightarrow> mem_in_use (st_counter s') = mem_in_use (st_counter s)"
  using mem_counter.proxy_inner_in_use [OF assms] mem_counter.run_task_in_use [OF assms(1)]
  by (auto split: proxy_outcome.splits)

section \<open>Which requests reach an upstream\<close>

text \<open>The route that serves a request body, and its cache policy.\<close>

definition request_route :: "externals \<Rightarrow> ('l, 'k, 'c) app_state \<Rightarrow> proxy_request \<Rightarrow> bytes \<Rightarrow> route_config option" where
  "request_route ex app req b = find_route (as_config app) (rq_namespace req) (extract_model (ex_parse ex b))"

definition blocked :: "externals \<Rightarrow> ('l, 'k, 'c) app_state \<Rightarrow> clocks \<Rightarrow> proxy_request \<Rightarrow> ('l, 'k, 'c) stores \<Rightarrow> bool" where
  "blocked ex app ck req s \<longleftrightarrow> check_block (ex_mday ex) (as_counter app) (as_config app) (ck_budget ck)
     (gp_project_id (rq_principal req)) (gp_key_id (rq_principal req)) (st_counter s)"

definition admission ::
  "('l, 'k, 'c) app_state \<Rightarrow> clocks \<Rightarrow> proxy_request \<Rightarrow> ('l, 'k, 'c) stores \<Rightarrow> 'c \<times> (api_error + rate_permit)" where
  "admission app ck req s = check_limits (as_counter app) (limits (as_config app)) (gp_key_id (rq_principal req))
     (gp_project_id (rq_principal req)) (ck_limits ck) (st_counter s)"

lemma initial_log_simps [simp]:
  "lr_model (initial_log ex now req b) = extract_model (ex_parse ex b)"
  "lr_project_id (initial_log ex now req b) = gp_project_id (rq_principal req)"
  "lr_gateway_key_id (initial_log ex now req b) = Some (gp_key_id (rq_principal req))"
  "lr_namespace (initial_log ex now req b) = Some (rq_namespace req)"
  "lr_id (initial_log ex now req b) = rq_id req"
  by (simp_all add: initial_log_def Let_def set_client_def set_model_def set_request_body_def set_gateway_key_def log_new_def)

lemma proxy_inner_steps:
  assumes "rq_body req = Inr b"
  shows "proxy_inner ex app call ck req s =
    (let l = initial_log ex (ck_log ck) req b in
     if blocked ex app ck req s
     then (log_submit app (set_error ''budget_exceeded''
             (set_timing (ck_elapsed ck) 0 0 (set_status ''gateway_error'' (Some 429) l))) s, Failed (Gateway RateLimited))
     else (case admission app ck req s of
             (c, Inl e) \<Rightarrow> (log_submit app (set_timing (ck_elapsed ck) 0 0 (set_status ''rate_limited'' (Some 429) l))
                             (s\<lparr>st_counter := c\<rparr>), Failed e)
           | (c, Inr permit) \<Rightarrow> serve_admitted ex app call ck req b l permit (s\<lparr>st_counter := c\<rparr>)))"
  using assms by (simp add: proxy_inner_def read_body_def blocked_def admission_def Let_def)

text \<open>The requests that must not reach an upstream.\<close>

definition refused ::
  "externals \<Rightarrow> ('l, 'k, 'c) app_state \<Rightarrow> clocks \<Rightarrow> proxy_request \<Rightarrow> bytes \<Rightarrow> ('l, 'k, 'c) stores \<Rightarrow> bool" where
  "refused ex app ck req b s \<longleftrightarrow> blocked ex app ck req s \<or> (\<exists>e. snd (admission app ck req s) = Inl e)
     \<or> (case request_route ex app req b of
          None \<Rightarrow> True
        | Some route \<Rightarrow> map_option cp_directive (request_policy ex route (rq_headers req)) = Some CdOnlyIfCached)"

lemma serve_admitted_no_upstream:
  assumes "case find_route (as_config app) (rq_namespace req) (lr_model l) of
          None \<Rightarrow> True
        | Some route \<Rightarrow> map_option cp_directive (request_policy ex route (rq_headers req)) = Some CdOnlyIfCached"
  shows "serve_admitted ex app call ck req b l permit s = serve_admitted ex app call' ck req b l permit s
    \<and> (\<forall>h t. snd (serve_admitted ex app call ck req b l permit s) \<noteq> Streaming h t)"
  using assms
  by (auto simp: serve_admitted_def Let_def replay_cached_def split: option.splits if_splits)


section \<open>Every answered request is logged once\<close>

lemma check_limit_error: "check_limit ops now l scope st = (st', Inl e) \<Longrightarrow> e = Gateway RateLimited \<or> (\<exists>x. e = ApiStorage x)"
  by (auto simp: check_limit_def check_rpm_def check_tpm_def check_concurrency_def Let_def
      split: option.splits prod.splits sum.splits if_splits)

lemma check_loop_error:
  "check_loop ops now key_id project_id lims ps ts st = (st', Inl e) \<Longrightarrow> e = Gateway RateLimited \<or> (\<exists>x. e = ApiStorage x)"
proof (induction lims arbitrary: ps ts st)
  case (Cons l lims)
  then show ?case
    by (auto dest: check_limit_error split: option.splits prod.splits sum.splits)
qed simp

text \<open>The record names the caller and the namespace.\<close>

definition owned_by :: "proxy_request \<Rightarrow> request_log_record \<Rightarrow> bool" where
  "owned_by req r \<longleftrightarrow> lr_id r = rq_id req \<and> lr_project_id r = gp_project_id (rq_principal req)
     \<and> lr_gateway_key_id r = Some (gp_key_id (rq_principal req)) \<and> lr_namespace r = Some (rq_namespace req)"

lemma owned_by_initial [simp]: "owned_by req (initial_log ex now req b)"
  by (simp add: owned_by_def)

lemma owned_by_setters [simp]:
  "owned_by req (set_status a c l) = owned_by req l" "owned_by req (set_timing x y z l) = owned_by req l"
  "owned_by req (set_error m l) = owned_by req l" "owned_by req (set_response_body rb l) = owned_by req l"
  "owned_by req (set_cached cd l) = owned_by req l" "owned_by req (set_usage u l) = owned_by req l"
  "owned_by req (set_cost co w l) = owned_by req l" "owned_by req (merge_metadata mk mv l) = owned_by req l"
  "owned_by req (set_retry n l) = owned_by req l" "owned_by req (set_fallback f l) = owned_by req l"
  by (simp_all add: owned_by_def log_simps set_error_def set_cached_def merge_metadata_def set_retry_def set_fallback_def)

lemma hit_log_simps [simp]:
  "owned_by req (hit_log ex pricing el pp cached pv l) = owned_by req l"
  "lr_http_status (hit_log ex pricing el pp cached pv l) = Some (int (cd_status cached))"
  "lr_cached (hit_log ex pricing el pp cached pv l)"
  "lr_cost_usd (hit_log ex pricing el pp cached pv l) = Some f64_0"
  by (simp_all add: hit_log_def Let_def split: option.splits)
    (simp_all add: log_simps set_cached_def merge_metadata_def split: option.splits)

lemma chain_log_simps [simp]: "owned_by req (chain_log result l) = owned_by req l"
  by (simp add: chain_log_def Let_def split: option.splits)

text \<open>What one outcome leaves in the log.\<close>

definition error_logged :: "proxy_request \<Rightarrow> api_error \<Rightarrow> request_log_record \<Rightarrow> bool" where
  "error_logged req e r \<longleftrightarrow> owned_by req r \<and>
     lr_http_status r = Some (case e of Gateway ge \<Rightarrow> int (status_code ge) | _ \<Rightarrow> 429)"

definition hit_logged :: "proxy_request \<Rightarrow> request_log_record \<Rightarrow> bool" where
  "hit_logged req r \<longleftrightarrow> owned_by req r \<and> lr_cached r \<and> lr_cost_usd r = Some f64_0"

definition outcome_logged :: "'l log_ops \<Rightarrow> proxy_request \<Rightarrow> proxy_outcome \<Rightarrow> 'l \<Rightarrow> 'l \<Rightarrow> bool" where
  "outcome_logged ops req out before after \<longleftrightarrow>
     (case out of
        Failed e \<Rightarrow> (\<exists>r. after = submit ops r before \<and> error_logged req e r)
      | Replied h body \<Rightarrow> (\<exists>r. after = submit ops r before \<and> hit_logged req r)
      | Panicked \<Rightarrow> after = before \<or> (\<exists>r. after = submit ops r before \<and> hit_logged req r)
      | Streaming h t \<Rightarrow> after = before \<and> owned_by req (tk_log t))"

lemma replay_cached_logged:
  assumes "owned_by req l" "replay_cached ex app ck pp cached status key permit l s = (s', out)"
  shows "outcome_logged (as_logs app) req out (st_logs s) (st_logs s')"
proof -
  have "hit_logged req (hit_log ex (as_pricing app) (ck_elapsed ck) pp cached pv l)" for pv
    using assms(1) by (simp add: hit_logged_def)
  then have "\<exists>r. submit ops (hit_log ex (as_pricing app) (ck_elapsed ck) pp cached pv l) st = submit ops r st \<and> hit_logged req r"
    for ops :: "'a log_ops" and st pv by blast
  with assms(2) show ?thesis
    by (auto simp: replay_cached_def Let_def outcome_logged_def split: option.splits)
qed

lemma forward_upstream_logged:
  assumes "owned_by req l"
    and "forward_upstream ex app call ck req b route policy shape status key permit l s = (s', out)"
  shows "outcome_logged (as_logs app) req out (st_logs s) (st_logs s')"
proof (cases "cr_response (execute_chain call (from_route route) (forward_template req b))")
  case (Inl e)
  let ?r = "set_error (gateway_error_display (ex_dbg ex) e) (set_timing (ck_elapsed ck) (ck_forward ck) 0
      (set_status (classification e) (Some (int (status_code e)))
        (chain_log (execute_chain call (from_route route) (forward_template req b)) l)))"
  have "error_logged req (Gateway e) ?r"
    using assms(1) by (simp add: error_logged_def) (simp add: set_error_def log_simps)
  with assms(2) Inl show ?thesis
    by (auto simp: forward_upstream_def Let_def outcome_logged_def)
next
  case (Inr r)
  with assms show ?thesis by (auto simp: forward_upstream_def Let_def outcome_logged_def)
qed

lemma serve_admitted_logged:
  assumes "owned_by req l" "serve_admitted ex app call ck req b l permit s = (s', out)"
  shows "outcome_logged (as_logs app) req out (st_logs s) (st_logs s')"
proof (cases "find_route (as_config app) (rq_namespace req) (lr_model l)")
  case None
  let ?r = "set_error (''no route for namespace '' @ quoted (rq_namespace req))
      (set_timing (ck_elapsed ck) 0 0 (set_status ''gateway_error'' (Some 404) l))"
  have "error_logged req (Gateway (NoRoute (rq_namespace req))) ?r"
    using assms(1) by (simp add: error_logged_def) (simp add: set_error_def log_simps)
  with assms(2) None show ?thesis by (auto simp: serve_admitted_def outcome_logged_def)
next
  case (Some route)
  let ?pol = "request_policy ex route (rq_headers req)"
  let ?lk = "cache_lookup ex app (ck_get ck) ?pol (cacheable_shape ex ?pol b) (request_cache_key ex req ?pol b) s"
  let ?r = "set_error ''cache miss with X-Gateway-Cache: only''
      (set_timing (ck_elapsed ck) 0 0 (set_status ''gateway_error'' (Some 504) l))"
  have "error_logged req (Gateway UpstreamTimeout) ?r"
    using assms(1) by (simp add: error_logged_def) (simp add: set_error_def log_simps)
  moreover note replay_cached_logged [OF assms(1)] forward_upstream_logged [OF assms(1)]
  ultimately show ?thesis
  proof (cases ?lk)
    case None
    with assms(2) Some show ?thesis by (auto simp: serve_admitted_def Let_def outcome_logged_def)
  next
    fix x
    assume lk: "?lk = Some x"
      and r: "error_logged req (Gateway UpstreamTimeout) ?r"
    obtain s1 status c where x: "x = (s1, status, c)" by (cases x)
    have logs: "st_logs s1 = st_logs s" using cache_lookup_frame lk x by blast
    show ?thesis
    proof (cases c)
      case None
      show ?thesis
      proof (cases "map_option cp_directive ?pol = Some CdOnlyIfCached")
        case True
        with assms(2) Some lk x None logs r show ?thesis
          by (auto simp: serve_admitted_def Let_def outcome_logged_def)
      next
        case False
        with assms(2) Some lk x None
        have "forward_upstream ex app call ck req b route ?pol (cacheable_shape ex ?pol b) status
            (request_cache_key ex req ?pol b) permit l s1 = (s', out)"
          by (auto simp: serve_admitted_def Let_def split: if_splits)
        from forward_upstream_logged [OF assms(1) this] logs show ?thesis by simp
      qed
    next
      case (Some cached)
      with assms(2) \<open>find_route _ _ _ = Some route\<close> lk x logs show ?thesis
        by (auto simp: serve_admitted_def Let_def dest!: replay_cached_logged [OF assms(1)])
    qed
  qed
qed

text \<open>C5: Every request whose body could be read and that is answered by the handler is logged exactly
  once, under the caller's key and project. An error is logged with the status of the response, with
  one exception that the statement spells out: a failure of the counter store is answered as a storage
  error (500) and logged as 429. A replay is logged as cached and free. A streaming answer is not
  logged by the handler but carries the record of this request to its task.\<close>

theorem handler_logs_once:
  assumes "rq_body req = Inr b" "proxy_inner ex app call ck req s = (s', out)"
  shows "outcome_logged (as_logs app) req out (st_logs s) (st_logs s')
    \<and> (\<forall>e. out = Failed e \<longrightarrow> (\<exists>ge. e = Gateway ge) \<or> (\<exists>x. e = ApiStorage x \<and> snd (admission app ck req s) = Inl e))"
proof (cases "blocked ex app ck req s")
  case True
  let ?r = "set_error ''budget_exceeded'' (set_timing (ck_elapsed ck) 0 0
      (set_status ''gateway_error'' (Some 429) (initial_log ex (ck_log ck) req b)))"
  have "error_logged req (Gateway RateLimited) ?r"
    by (simp add: error_logged_def) (simp add: set_error_def log_simps)
  with True assms show ?thesis by (auto simp: proxy_inner_steps Let_def outcome_logged_def)
next
  case False
  obtain c r where a: "admission app ck req s = (c, r)" by fastforce
  let ?l = "initial_log ex (ck_log ck) req b"
  show ?thesis
  proof (cases r)
    case (Inl e)
    have e: "e = Gateway RateLimited \<or> (\<exists>x. e = ApiStorage x)"
      using a Inl check_loop_error by (simp add: admission_def check_limits_def)
    then have "error_logged req e (set_timing (ck_elapsed ck) 0 0 (set_status ''rate_limited'' (Some 429) ?l))"
      by (auto simp: error_logged_def) (simp_all add: log_simps)
    with e assms False a Inl show ?thesis
      by (auto simp: proxy_inner_steps Let_def outcome_logged_def)
  next
    case (Inr p)
    with assms False a have sv: "serve_admitted ex app call ck req b ?l p (s\<lparr>st_counter := c\<rparr>) = (s', out)"
      by (simp add: proxy_inner_steps Let_def)
    have "\<exists>ge. e = Gateway ge" if "out = Failed e" for e
      using sv that
      by (auto simp: serve_admitted_def replay_cached_def forward_upstream_def Let_def
          split: option.splits if_splits sum.splits)
    with serve_admitted_logged [OF _ sv] show ?thesis by auto
  qed
qed

section \<open>The cache\<close>

text \<open>The cache is out of play for a request that may not use it: without a cache policy on the
  route, for a body whose parameters make the answer nondeterministic or that is not JSON, and under
  an explicit bypass, the handler neither reads nor writes the store, no key is computed, nothing is
  replayed, and the task of a streaming answer leaves the store as it is.\<close>

theorem uncacheable_never_cached:
  assumes "rq_body req = Inr b" "request_route ex app req b = Some route"
    and "pol = request_policy ex route (rq_headers req)"
    and "\<not> cacheable_shape ex pol b \<or> map_option cp_directive pol = Some CdBypass"
    and "proxy_inner ex app call ck req s = (s', out)"
  shows "st_kv s' = st_kv s \<and> request_cache_key ex req pol b = None \<and> (\<forall>h body. out \<noteq> Replied h body)
    \<and> (\<forall>h t. out = Streaming h t \<longrightarrow> (\<forall>tc n later. st_kv (fst (run_task ex app tc n t later)) = st_kv later))"
proof -
  have lk: "\<exists>cs. cs \<notin> {CsMiss, CsRefresh} \<and> cache_lookup ex app now pol (cacheable_shape ex pol b) key s0 = Some (s0, cs, None)"
    for now key s0
    using assms(4) by (auto simp: cache_lookup_def split: option.splits)
  have key: "request_cache_key ex req pol b = None"
    using assms(4) by (auto simp: request_cache_key_def cache_key_needed_def split: option.splits)
  have serve: "st_kv s1 = st_kv s0 \<and> (\<forall>h body. o1 \<noteq> Replied h body) \<and> (\<forall>h t. o1 = Streaming h t \<longrightarrow> \<not> tk_cache_should_write t)"
    if "serve_admitted ex app call ck req b l p s0 = (s1, o1)" "lr_model l = extract_model (ex_parse ex b)" for l p s0 s1 o1
    using that assms(2,3) lk [of "ck_get ck" "request_cache_key ex req pol b" s0]
    by (auto simp: serve_admitted_def request_route_def forward_upstream_def Let_def
        split: option.splits if_splits sum.splits)
  have inner: "st_kv s' = st_kv s \<and> (\<forall>h body. out \<noteq> Replied h body) \<and> (\<forall>h t. out = Streaming h t \<longrightarrow> \<not> tk_cache_should_write t)"
    using assms(5) by (auto simp: proxy_inner_steps [OF assms(1)] Let_def dest!: serve split: if_splits prod.splits sum.splits)
  have "st_kv (fst (run_task ex app tc n t later)) = st_kv later" if "\<not> tk_cache_should_write t" for tc n t later
  proof -
    obtain st where "run_task ex app tc n t later = (task_end ex app tc t st later, take n (pumped (tk_body t)))"
      by (rule run_task_ends [of t ex app tc n later])
    with that show ?thesis by (simp add: task_end_def settled_def cache_write_def)
  qed
  with inner key show ?thesis by blast
qed

text \<open>A stored response is live until its time to live is over.\<close>

lemma task_stores_live:
  assumes "as_kv app = mem_kv_ops" "run_task ex app tc n t s = (s1, sent)" "stores_response t"
    and "cached_encode (ex_codec ex) (task_payload ex tc t) = Inr blob"
    and "tk_cache_ttl t = Some ttl" "tk_cache_key t = Some key" "instant_add (tc_put tc) ttl \<noteq> None" "tc_put tc \<le> now"
  shows "mem_kv_live (st_kv s1) now key = (if now < tc_put tc + 1000 * int ttl then Some blob else None)"
proof -
  obtain kv r where put: "kv_put mem_kv_ops (st_kv s) (tc_put tc) key blob ttl = Some (kv, Inr r)"
    using assms(7) by (auto simp: mem_kv_ops_def mem_kv_put_def split: option.splits)
  obtain st where st: "collected (tk_cache_should_write t) (ok_prefix (tk_body t)) st"
    "run_task ex app tc n t s = (task_end ex app tc t st s, take n (pumped (tk_body t)))"
    by (rule run_task_ends [of t ex app tc n s])
  have ok: "all_ok (tk_body t)" using assms(3) by (simp add: stores_response_def)
  have "st_kv s1 = kv"
    using assms(1-6) st(2) ok put by (auto simp: task_end_def settled_def cache_write_payload [OF st(1) ok])
  with mem_kv.put_live [of "st_kv s" "tc_put tc" key blob ttl kv now key] put assms(8) show ?thesis by simp
qed

lemma cache_lookup_live:
  assumes "as_kv app = mem_kv_ops" "cp_directive p \<in> {CdDefault, CdOnlyIfCached}"
    and "mem_kv_live (st_kv s) now key = Some blob" "cached_decode (ex_codec ex) blob = Inr cached"
  shows "\<exists>s1. cache_lookup ex app now (Some p) True (Some key) s = Some (s1, CsHit, Some cached)"
proof -
  have "\<exists>kv r. kv_get mem_kv_ops (st_kv s) now key = (kv, Inr r)"
    by (simp add: mem_kv_ops_def mem_kv_get_def split: option.splits prod.splits)
  then obtain kv r where g: "kv_get mem_kv_ops (st_kv s) now key = (kv, Inr r)" by blast
  from mem_kv.get_live [OF g] assms show ?thesis
    by (auto simp: cache_lookup_def g Let_def)
qed

lemma build_cached_response_ok:
  assumes "is_char_boundary key (min (length key) 48)" "valid_status (cd_status cached)"
    and "\<forall>(k, v) \<in> set (cd_headers cached). ex_hn ex k \<noteq> None \<and> ex_hv_bytes ex v"
  shows "\<exists>h. build_cached_response ex now cached status key = Some (h, cd_chunks cached) \<and> rh_status h = cd_status cached"
  using assms
  by (auto simp: build_cached_response_def Let_def insert_cache_headers_def str_slice_to_def case_prod_unfold)


section \<open>A concrete gateway\<close>

definition demo_req :: "string \<Rightarrow> header_map \<Rightarrow> proxy_request" where
  "demo_req ns h = \<lparr>rq_id = ''r1'', rq_principal = \<lparr>gp_key_id = ''k1'', gp_project_id = ''default''\<rparr>, rq_namespace = ns,
     rq_tail = ''v1'', rq_remote_ip = ''::1'', rq_headers = h, rq_method = ''POST'', rq_body = Inr ''{}''\<rparr>"

definition demo_clocks :: clocks where
  "demo_clocks = \<lparr>ck_log = 0, ck_budget = 0, ck_limits = 0, ck_get = 1000, ck_elapsed = 0, ck_forward = 0, ck_replay = 0\<rparr>"

definition demo_stores :: "(mem_logs, mem_kv, mem_counter) stores" where
  "demo_stores = \<lparr>st_logs = \<lparr>ml_records = [], ml_capacity = 10\<rparr>, st_kv = [],
     st_counter = \<lparr>mc_windows = [], mc_concurrency = [], mc_budgets = []\<rparr>, st_notified = [], st_fired = []\<rparr>"

definition demo_up :: upstream where
  "demo_up n r = (Inr \<lparr>resp_status = 200, resp_headers = [], upstream_ms = 5, ttfb_ms = 5, resp_body = [Inr ''hi'']\<rparr>, 5)"

lemma demo_admitted:
  "\<not> blocked demo_externals demo_app demo_clocks (demo_req ns h) s"
  "admission demo_app demo_clocks (demo_req ns h) s = (st_counter s, Inr \<lparr>pm_concurrency = [], tpm_reservations = []\<rparr>)"
  by (simp_all add: blocked_def admission_def check_block_def matching_budgets_def check_limits_def demo_app_def
      demo_budget_config_def)

lemma demo_routed:
  "request_route demo_externals demo_app (demo_req ''ns'' h) ''{}'' = Some demo_route"
  "request_route demo_externals demo_app (demo_req ''nn'' h) ''{}'' = None"
  by (simp_all add: request_route_def find_route_def route_matches_def demo_app_def demo_route_def demo_req_def
      demo_budget_config_def)

theorem permits_come_back_witness:
  "case snd (proxy_inner demo_externals demo_app demo_up demo_clocks (demo_req ''nn'' []) demo_stores) of
     Streaming h t \<Rightarrow> True
   | _ \<Rightarrow> mem_in_use (st_counter (fst (proxy_inner demo_externals demo_app demo_up demo_clocks (demo_req ''nn'' []) demo_stores)))
        = mem_in_use (st_counter demo_stores)"
proof -
  have "as_counter demo_app = mem_counter_ops" by (simp add: demo_app_def)
  from permits_come_back [OF this, of demo_externals demo_up demo_clocks "demo_req ''nn'' []" demo_stores, OF prod.collapse [symmetric]]
  show ?thesis by (auto split: proxy_outcome.splits)
qed


theorem handler_logs_once_witness:
  "outcome_logged mem_log_ops (demo_req ''nn'' [])
     (snd (proxy_inner demo_externals demo_app demo_up demo_clocks (demo_req ''nn'' []) demo_stores)) (st_logs demo_stores)
     (st_logs (fst (proxy_inner demo_externals demo_app demo_up demo_clocks (demo_req ''nn'' []) demo_stores)))"
  using handler_logs_once [of "demo_req ''nn'' []" "''{}''" demo_externals demo_app demo_up demo_clocks demo_stores,
      OF _ prod.collapse [symmetric]]
  by (simp add: demo_req_def demo_app_def)

theorem uncacheable_never_cached_witness:
  "st_kv (fst (proxy_inner demo_externals demo_app demo_up demo_clocks (demo_req ''ns'' [(''x-gateway-cache'', ''bypass'')]) demo_stores)) = []"
proof -
  let ?req = "demo_req ''ns'' [(''x-gateway-cache'', ''bypass'')]"
  have p: "map_option cp_directive (request_policy demo_externals demo_route (rq_headers ?req)) = Some CdBypass"
    by (simp add: request_policy_def from_headers_def demo_route_def demo_externals_def demo_req_def hdr_str_def hdr_get_def
        to_ascii_lowercase_def ascii_lower_def byte_def Let_def)
  have b: "rq_body ?req = Inr ''{}''" by (simp add: demo_req_def)
  from uncacheable_never_cached [OF b demo_routed(1) refl _ prod.collapse [symmetric], of demo_up demo_clocks demo_stores] p
  show ?thesis by (simp add: demo_stores_def)
qed


end
