(* ===== verification/Server.thy ===== *)
theory Server
  imports Startup Log_Views Proxy_Correct
begin

text \<open>
  The router of the gateway and the call of its endpoints: \<open>gateway-api/src/server.rs\<close>, the extractors in the signatures of the
  handlers, \<open>routes/health.rs\<close>, \<open>routes/metrics.rs\<close> and \<open>metrics.rs\<close>. \<open>build_router\<close> is the table of paths, methods and
  handlers; \<open>serve_request\<close> runs one request on the state that all handlers share. Finding the registered path
  that a request matches, which methods a filter accepts, and decoding bodies, queries and path segments is \<open>axum\<close>:
  fields of \<open>extractors\<close>. The extractors of a handler run in the order of its arguments, so the principal comes
  before everything that is decoded from the request.
\<close>

section \<open>The route table\<close>

datatype method_filter = OnGet | OnPost | OnPut | OnDelete | OnAny

datatype admin_endpoint =
    EpMe | EpCreateAdmin | EpListAdmins | EpCreateKey | EpListKeys | EpRevokeKey | EpListLogs | EpGetLog | EpGetRoutes
  | EpAggregateCost | EpListPricing | EpUpsertPricing | EpRecomputeCosts | EpDeletePricing | EpListBudgets

datatype endpoint =
    RedirectToUi | UiPage | Healthz | Readyz | MetricsText | ProxyCall | Login | Admin admin_endpoint

type_synonym route_table = "(string \<times> method_filter \<times> endpoint) list"

definition admin_routes :: route_table where
  "admin_routes =
     [(''/auth/login'', OnPost, Login),
      (''/auth/me'', OnGet, Admin EpMe),
      (''/admins'', OnPost, Admin EpCreateAdmin),
      (''/admins'', OnGet, Admin EpListAdmins),
      (''/keys'', OnPost, Admin EpCreateKey),
      (''/keys'', OnGet, Admin EpListKeys),
      (''/keys/:id'', OnDelete, Admin EpRevokeKey),
      (''/logs'', OnGet, Admin EpListLogs),
      (''/logs/:id'', OnGet, Admin EpGetLog),
      (''/routes'', OnGet, Admin EpGetRoutes),
      (''/cost'', OnGet, Admin EpAggregateCost),
      (''/pricing'', OnGet, Admin EpListPricing),
      (''/pricing'', OnPut, Admin EpUpsertPricing),
      (''/pricing/recompute'', OnPost, Admin EpRecomputeCosts),
      (''/pricing/:provider/:model'', OnDelete, Admin EpDeletePricing),
      (''/budgets'', OnGet, Admin EpListBudgets)]"

definition nest :: "string \<Rightarrow> route_table \<Rightarrow> route_table" where
  "nest at_path = map (\<lambda>(p, m, ep). (at_path @ p, m, ep))"

definition build_router :: route_table where
  "build_router =
     [(''/'', OnGet, RedirectToUi),
      (''/ui/'', OnGet, UiPage),
      (''/ui/*rest'', OnGet, UiPage),
      (''/healthz'', OnGet, Healthz),
      (''/readyz'', OnGet, Readyz),
      (''/metrics'', OnGet, MetricsText),
      (''/v1/:namespace/*tail'', OnAny, ProxyCall)]
     @ nest ''/admin'' admin_routes"

section \<open>Requests, extractors and the shared state\<close>

record wire_request =
  wr_method :: string
  wr_path :: string
  wr_headers :: header_map
  wr_remote_ip :: string
  wr_body :: "string + bytes"

text \<open>A failing extractor answers by itself with an error status.\<close>

record extractors =
  xt_route :: "string list \<Rightarrow> string \<Rightarrow> (string \<times> string list) option"
  xt_accepts :: "method_filter \<Rightarrow> string \<Rightarrow> bool"
  xt_path1 :: "string list \<Rightarrow> nat + string"
  xt_path2 :: "string list \<Rightarrow> nat + string \<times> string"
  xt_credentials :: "wire_request \<Rightarrow> nat + string \<times> string"
  xt_create_key :: "wire_request \<Rightarrow> nat + create_key_request"
  xt_project :: "wire_request \<Rightarrow> nat + string option"
  xt_logs :: "wire_request \<Rightarrow> nat + list_logs_query"
  xt_cost :: "wire_request \<Rightarrow> nat + string option \<times> timestamp option \<times> timestamp option \<times> string option"
  xt_price :: "wire_request \<Rightarrow> nat + pricing_row"
  xt_window :: "wire_request \<Rightarrow> nat + timestamp option \<times> timestamp option"

record crypto =
  cy_keyed_hash :: keyed_hash_fn
  cy_jwt_encode :: "bytes \<Rightarrow> admin_token_claims \<Rightarrow> string + string"
  cy_jwt_decode :: "bytes \<Rightarrow> int \<Rightarrow> string \<Rightarrow> admin_token_claims option"
  cy_argon2 :: "string \<Rightarrow> string \<Rightarrow> string + string"
  cy_argon2_verify :: "string \<Rightarrow> string \<Rightarrow> argon_result"

text \<open>An installed Prometheus recorder, by its identity. The exporter is a library: \<open>dw_install\<close> is the result of installing a new
  recorder at that moment, \<open>dw_render\<close> the text of a recorder.\<close>

type_synonym recorder = nat

text \<open>What one request draws from its surroundings: random text, fresh ids, clock readings, the upstream, the exporter.\<close>

record draws =
  dw_rnd :: string
  dw_salt :: string
  dw_uuid :: string
  dw_ms :: int
  dw_s :: int
  dw_iat :: int
  dw_clocks :: clocks
  dw_upstream :: upstream
  dw_install :: "recorder option"
  dw_render :: "recorder \<Rightarrow> string"

text \<open>\<open>AppState\<close>: the handles made at the start, and the stores.\<close>

record ('m, 'l, 'k, 'c) gateway_app =
  ga_handles :: app_handles
  ga_metadata :: "'m metadata_ops"
  ga_logs :: "'l log_ops"
  ga_kv :: "'k kv_ops"
  ga_counter :: "'c counter_ops"

record ('m, 'l, 'k, 'c) server_state =
  sv_meta :: 'm
  sv_pricing :: pricing_catalog
  sv_stores :: "('l, 'k, 'c) stores"
  sv_recorder :: "recorder option"

datatype admin_reply =
    LoginReply login_response
  | MeReply me_response
  | AdminReply "string \<times> string"
  | AdminsReply "admin_user_summary list"
  | KeyReply create_key_response
  | KeysReply "key_summary list"
  | LogsReply logs_response
  | ConfigReply app_config
  | CostReply aggregate_result
  | PricingReply "pricing_item list"
  | BudgetsReply "budget_usage list"
  | RecomputeReply recompute_report
  | JsonReply json

datatype answer =
    NotRouted
  | WrongMethod
  | Rejected nat
  | Refused api_error
  | Reply admin_reply
  | Redirected string
  | Page
  | Status nat json
  | MetricsPage "(nat \<times> string \<times> string) option"
  | Proxied client_response proxy_outcome

section \<open>Calling an endpoint\<close>

definition proxy_app :: "('m, 'l, 'k, 'c) gateway_app \<Rightarrow> pricing_catalog \<Rightarrow> ('l, 'k, 'c) app_state" where
  "proxy_app app pricing =
     \<lparr>as_config = ah_config (ga_handles app), as_engine = ah_engine (ga_handles app), as_pricing = pricing,
      as_logs = ga_logs app, as_kv = ga_kv app, as_counter = ga_counter app\<rparr>"

definition extracted :: "nat + 'a \<Rightarrow> ('a \<Rightarrow> 's \<times> answer) \<Rightarrow> 's \<Rightarrow> 's \<times> answer" where
  "extracted x f s = (case x of Inl code \<Rightarrow> (s, Rejected code) | Inr v \<Rightarrow> f v)"

definition answer_of :: "('a \<Rightarrow> admin_reply) \<Rightarrow> api_error + 'a \<Rightarrow> answer" where
  "answer_of f r = (case r of Inl e \<Rightarrow> Refused e | Inr v \<Rightarrow> Reply (f v))"

definition with_meta :: "('a \<Rightarrow> admin_reply) \<Rightarrow> ('m, 'l, 'k, 'c) server_state \<Rightarrow> 'm \<times> (api_error + 'a) \<Rightarrow> ('m, 'l, 'k, 'c) server_state \<times> answer" where
  "with_meta f s r = (s\<lparr>sv_meta := fst r\<rparr>, answer_of f (snd r))"

definition with_prices ::
  "('m, 'l, 'k, 'c) server_state \<Rightarrow> ('m \<times> pricing_catalog) \<times> (api_error + json) \<Rightarrow> ('m, 'l, 'k, 'c) server_state \<times> answer" where
  "with_prices s r = (s\<lparr>sv_meta := fst (fst r), sv_pricing := snd (fst r)\<rparr>, answer_of JsonReply (snd r))"

text \<open>An optional body that cannot be decoded counts as absent: then the sweep has no bounds.\<close>

definition window_of :: "nat + timestamp option \<times> timestamp option \<Rightarrow> timestamp option \<times> timestamp option" where
  "window_of x = (case x of Inl _ \<Rightarrow> (None, None) | Inr w \<Rightarrow> w)"

fun call_admin ::
  "externals \<Rightarrow> crypto \<Rightarrow> extractors \<Rightarrow> ('m, 'l, 'k, 'c) gateway_app \<Rightarrow> draws \<Rightarrow> admin_endpoint \<Rightarrow> admin_principal \<Rightarrow> string list
     \<Rightarrow> wire_request \<Rightarrow> ('m, 'l, 'k, 'c) server_state \<Rightarrow> ('m, 'l, 'k, 'c) server_state \<times> answer" where
  "call_admin ex cy xt app dw EpMe p ps req s = (s, Reply (MeReply (admin_me p)))"
| "call_admin ex cy xt app dw EpCreateAdmin p ps req s =
     extracted (xt_credentials xt req) (\<lambda>(username, password).
       with_meta AdminReply s (admin_create_admin (cy_argon2 cy) (dw_salt dw) (dw_uuid dw) (dw_ms dw) (ga_metadata app) username password (sv_meta s))) s"
| "call_admin ex cy xt app dw EpListAdmins p ps req s = (s, answer_of AdminsReply (admin_list_admins (ga_metadata app) (sv_meta s)))"
| "call_admin ex cy xt app dw EpCreateKey p ps req s =
     extracted (xt_create_key xt req) (\<lambda>body.
       with_meta KeyReply s (admin_create_key (cy_keyed_hash cy) (dw_rnd dw) (dw_uuid dw) (dw_ms dw) (ga_metadata app)
         (ah_master_key (ga_handles app)) (ah_default_project_id (ga_handles app)) body (sv_meta s))) s"
| "call_admin ex cy xt app dw EpListKeys p ps req s =
     extracted (xt_project xt req) (\<lambda>project_id.
       (s, answer_of KeysReply (admin_list_keys (ga_metadata app) (ah_default_project_id (ga_handles app)) project_id (sv_meta s)))) s"
| "call_admin ex cy xt app dw EpRevokeKey p ps req s =
     extracted (xt_path1 xt ps) (\<lambda>ident. with_meta JsonReply s (admin_revoke_key (ga_metadata app) (dw_ms dw) ident (sv_meta s))) s"
| "call_admin ex cy xt app dw EpListLogs p ps req s =
     extracted (xt_logs xt req) (\<lambda>q.
       (s, answer_of LogsReply (admin_list_logs (ex_parse ex) (ga_logs app) (ah_default_project_id (ga_handles app)) q (st_logs (sv_stores s))))) s"
| "call_admin ex cy xt app dw EpGetLog p ps req s =
     extracted (xt_path1 xt ps) (\<lambda>ident. (s, answer_of JsonReply (admin_get_log (ga_logs app) ident (st_logs (sv_stores s))))) s"
| "call_admin ex cy xt app dw EpGetRoutes p ps req s = (s, Reply (ConfigReply (admin_get_routes (ah_config (ga_handles app)))))"
| "call_admin ex cy xt app dw EpAggregateCost p ps req s =
     extracted (xt_cost xt req) (\<lambda>(project_id, from, until, group_by).
       (s, answer_of CostReply (admin_aggregate_cost (ga_logs app) (ah_default_project_id (ga_handles app)) project_id from until group_by
              (st_logs (sv_stores s))))) s"
| "call_admin ex cy xt app dw EpListPricing p ps req s =
     (s, answer_of PricingReply (admin_list_pricing (ga_metadata app) (ah_pricing_base (ga_handles app)) (sv_meta s)))"
| "call_admin ex cy xt app dw EpUpsertPricing p ps req s =
     extracted (xt_price xt req) (\<lambda>body.
       with_prices s (admin_upsert_pricing (ga_metadata app) (ah_pricing_base (ga_handles app)) body (sv_meta s, sv_pricing s))) s"
| "call_admin ex cy xt app dw EpRecomputeCosts p ps req s =
     (let (from, until) = window_of (xt_window xt req);
          (l, r) = admin_recompute_costs (ga_logs app) (sv_pricing s) from until (st_logs (sv_stores s))
      in (s\<lparr>sv_stores := (sv_stores s)\<lparr>st_logs := l\<rparr>\<rparr>, answer_of RecomputeReply r))"
| "call_admin ex cy xt app dw EpDeletePricing p ps req s =
     extracted (xt_path2 xt ps) (\<lambda>(provider, model).
       with_prices s (admin_delete_pricing (ga_metadata app) (ah_pricing_base (ga_handles app)) provider model (sv_meta s, sv_pricing s))) s"
| "call_admin ex cy xt app dw EpListBudgets p ps req s =
     extracted (xt_project xt req) (\<lambda>project_id.
       (s, Reply (BudgetsReply (admin_list_budgets (ex_mday ex) (ga_counter app) (ah_config (ga_handles app)) (dw_ms dw) project_id
              (st_counter (sv_stores s)))))) s"

definition healthz :: "nat \<times> json" where
  "healthz = (200, JObject [(''status'', JString ''ok'')])"

text \<open>The global cell is set by the first call; \<^const>\<open>None\<close> as the handle is the panic of \<open>expect\<close>.\<close>

definition install_prometheus :: "recorder option \<Rightarrow> recorder option \<Rightarrow> recorder option \<times> recorder option" where
  "install_prometheus fresh cell = (case cell of Some h \<Rightarrow> (cell, Some h) | None \<Rightarrow> (fresh, fresh))"

definition metrics_handler ::
  "recorder option \<Rightarrow> (recorder \<Rightarrow> string) \<Rightarrow> recorder option \<Rightarrow> recorder option \<times> (nat \<times> string \<times> string) option" where
  "metrics_handler fresh render cell =
     (let (cell', h) = install_prometheus fresh cell
      in (cell', map_option (\<lambda>h. (200, ''text/plain; version=0.0.4; charset=utf-8'', render h)) h))"

fun call_endpoint ::
  "externals \<Rightarrow> crypto \<Rightarrow> extractors \<Rightarrow> ('m, 'l, 'k, 'c) gateway_app \<Rightarrow> draws \<Rightarrow> endpoint \<Rightarrow> string list
     \<Rightarrow> wire_request \<Rightarrow> ('m, 'l, 'k, 'c) server_state \<Rightarrow> ('m, 'l, 'k, 'c) server_state \<times> answer" where
  "call_endpoint ex cy xt app dw RedirectToUi ps req s = (s, Redirected ''/ui/'')"
| "call_endpoint ex cy xt app dw UiPage ps req s = (s, Page)"
| "call_endpoint ex cy xt app dw Healthz ps req s = (s, case healthz of (code, body) \<Rightarrow> Status code body)"
| "call_endpoint ex cy xt app dw Readyz ps req s = (s, case readyz (ga_metadata app) (sv_meta s) of (code, body) \<Rightarrow> Status code body)"
| "call_endpoint ex cy xt app dw MetricsText ps req s =
     (let (cell, r) = metrics_handler (dw_install dw) (dw_render dw) (sv_recorder s) in (s\<lparr>sv_recorder := cell\<rparr>, MetricsPage r))"
| "call_endpoint ex cy xt app dw ProxyCall ps req s =
     (case gateway_key_auth (ex_to_str ex) (cy_keyed_hash cy) (ga_metadata app) (ah_master_key (ga_handles app)) (sv_meta s) (dw_ms dw)
             (wr_headers req) of
        (m, Inl e) \<Rightarrow> (s\<lparr>sv_meta := m\<rparr>, Refused e)
      | (m, Inr p) \<Rightarrow>
          extracted (xt_path2 xt ps) (\<lambda>(namespace, tail).
            let (st', resp, out) = proxy_handler ex (proxy_app app (sv_pricing s)) (dw_upstream dw) (dw_clocks dw)
                  \<lparr>rq_id = dw_uuid dw, rq_principal = p, rq_namespace = namespace, rq_tail = tail, rq_remote_ip = wr_remote_ip req,
                   rq_headers = wr_headers req, rq_method = wr_method req, rq_body = wr_body req\<rparr> (sv_stores s)
            in (s\<lparr>sv_meta := m, sv_stores := st'\<rparr>, Proxied resp out)) (s\<lparr>sv_meta := m\<rparr>))"
| "call_endpoint ex cy xt app dw Login ps req s =
     extracted (xt_credentials xt req) (\<lambda>(username, password).
       with_meta LoginReply s (admin_login (cy_argon2_verify cy) (cy_jwt_encode cy) (ga_metadata app) (ah_master_key (ga_handles app))
         (dw_ms dw) (dw_iat dw) (dw_s dw) username password (sv_meta s))) s"
| "call_endpoint ex cy xt app dw (Admin ep) ps req s =
     (case admin_auth (ex_to_str ex) (cy_jwt_decode cy) (ah_admin_root_token (ga_handles app)) (ah_master_key (ga_handles app)) (dw_s dw)
             (wr_headers req) of
        Inl e \<Rightarrow> (s, Refused e)
      | Inr p \<Rightarrow> call_admin ex cy xt app dw ep p ps req s)"

definition serve_request ::
  "externals \<Rightarrow> crypto \<Rightarrow> extractors \<Rightarrow> ('m, 'l, 'k, 'c) gateway_app \<Rightarrow> draws \<Rightarrow> wire_request
     \<Rightarrow> ('m, 'l, 'k, 'c) server_state \<Rightarrow> ('m, 'l, 'k, 'c) server_state \<times> answer" where
  "serve_request ex cy xt app dw req s =
     (case xt_route xt (remdups (map fst build_router)) (wr_path req) of
        None \<Rightarrow> (s, NotRouted)
      | Some (path, ps) \<Rightarrow>
          (case find (\<lambda>(p, m, ep). p = path \<and> xt_accepts xt m (wr_method req)) build_router of
             None \<Rightarrow> (s, WrongMethod)
           | Some (_, _, ep) \<Rightarrow> call_endpoint ex cy xt app dw ep ps req s))"

text \<open>A run of the server: requests, and the streaming tasks that earlier requests have spawned, in the order in which
  they take effect.\<close>

datatype server_event = EvRequest draws wire_request | EvTask task_clocks nat stream_task

fun serve_event ::
  "externals \<Rightarrow> crypto \<Rightarrow> extractors \<Rightarrow> ('m, 'l, 'k, 'c) gateway_app \<Rightarrow> server_event
     \<Rightarrow> ('m, 'l, 'k, 'c) server_state \<Rightarrow> ('m, 'l, 'k, 'c) server_state \<times> answer list" where
  "serve_event ex cy xt app (EvRequest dw req) s = map_prod id (\<lambda>a. [a]) (serve_request ex cy xt app dw req s)"
| "serve_event ex cy xt app (EvTask tc accept t) s =
     (s\<lparr>sv_stores := fst (run_task ex (proxy_app app (sv_pricing s)) tc accept t (sv_stores s))\<rparr>, [])"

fun serve_all ::
  "externals \<Rightarrow> crypto \<Rightarrow> extractors \<Rightarrow> ('m, 'l, 'k, 'c) gateway_app \<Rightarrow> server_event list
     \<Rightarrow> ('m, 'l, 'k, 'c) server_state \<Rightarrow> ('m, 'l, 'k, 'c) server_state \<times> answer list" where
  "serve_all ex cy xt app [] s = (s, [])"
| "serve_all ex cy xt app (ev # evs) s =
     (let (s1, as) = serve_event ex cy xt app ev s; (s2, bs) = serve_all ex cy xt app evs s1 in (s2, as @ bs))"

text \<open>\<open>serve\<close>: the address is parsed and bound before the router runs.\<close>

definition serve :: "(string \<Rightarrow> string + string) \<Rightarrow> (string \<Rightarrow> string + string) \<Rightarrow> string \<Rightarrow> string + string" where
  "serve parse_addr listen bind_to =
     (case parse_addr bind_to of
        Inl e \<Rightarrow> Inl (''invalid bind address '' @ bind_to @ '': '' @ e)
      | Inr addr \<Rightarrow> listen addr)"

section \<open>Routing\<close>

text \<open>No path has two handlers for a method, so assembling the router does not panic.\<close>

lemma routes_distinct: "distinct (map (\<lambda>(p, m, ep). (p, m)) build_router)"
  by (simp add: build_router_def nest_def admin_routes_def)

text \<open>What \<open>axum\<close> documents: a path without parameters that is registered is matched by itself, and no method belongs to
  two of the filters for single methods.\<close>

definition router_law :: "extractors \<Rightarrow> bool" where
  "router_law xt \<longleftrightarrow>
     (\<forall>paths p. p \<in> set paths \<and> CHR '':'' \<notin> set p \<and> CHR ''*'' \<notin> set p \<longrightarrow> xt_route xt paths p = Some (p, []))
     \<and> (\<forall>m m' meth. xt_accepts xt m meth \<and> xt_accepts xt m' meth \<and> m \<noteq> OnAny \<and> m' \<noteq> OnAny \<longrightarrow> m = m')"

lemma any_route_alone: "(p, OnAny, ep) \<in> set build_router \<Longrightarrow> (p, m, ep') \<in> set build_router \<Longrightarrow> m = OnAny"
  by (auto simp: build_router_def nest_def admin_routes_def)

lemma static_route_served:
  assumes "router_law xt" "(wr_path req, m, ep) \<in> set build_router" "CHR '':'' \<notin> set (wr_path req)" "CHR ''*'' \<notin> set (wr_path req)"
    and "xt_accepts xt m (wr_method req)"
  shows "serve_request ex cy xt app dw req s = call_endpoint ex cy xt app dw ep [] req s"
proof -
  let ?hit = "\<lambda>(p, m, ep). p = wr_path req \<and> xt_accepts xt m (wr_method req)"
  have route: "xt_route xt (remdups (map fst build_router)) (wr_path req) = Some (wr_path req, [])"
    using assms(1-4) by (force simp: router_law_def)
  obtain p' m' ep' where f: "find ?hit build_router = Some (p', m', ep')"
    using assms(2,5) by (cases "find ?hit build_router") (auto simp: find_None_iff)
  then have hit: "p' = wr_path req" "xt_accepts xt m' (wr_method req)" "(p', m', ep') \<in> set build_router"
    by (auto simp: find_Some_iff in_set_conv_nth)
  have "m' = m"
    using assms(1,2,5) hit any_route_alone [of "wr_path req"] unfolding router_law_def by (cases "m = OnAny"; cases "m' = OnAny") blast+
  moreover have "inj_on (\<lambda>(p, m, ep). (p, m)) (set build_router)"
    using routes_distinct by (simp add: distinct_map)
  ultimately have "ep' = ep"
    using hit assms(2) inj_onD [of "\<lambda>(p, m, ep). (p, m)" "set build_router" "(p', m', ep')" "(wr_path req, m, ep)"] by simp
  with route f show ?thesis by (simp add: serve_request_def)
qed

section \<open>Metrics and repricing\<close>

text \<open>Once a recorder is installed, every scrape is answered from it, whatever a new installation would give.\<close>

lemma metrics_stable:
  assumes "install_prometheus fresh cell = (cell', Some h)"
  shows "metrics_handler fresh' render cell' = (cell', Some (200, ''text/plain; version=0.0.4; charset=utf-8'', render h))"
  using assms by (auto simp: install_prometheus_def metrics_handler_def split: option.splits)

text \<open>A repricing request whose body cannot be decoded is not refused: it sweeps the whole history.\<close>

lemma undecodable_window_sweeps_all:
  assumes "xt_window xt req = Inl code"
  shows "call_admin ex cy xt app dw EpRecomputeCosts p ps req s =
    (let (l, r) = admin_recompute_costs (ga_logs app) (sv_pricing s) None None (st_logs (sv_stores s))
     in (s\<lparr>sv_stores := (sv_stores s)\<lparr>st_logs := l\<rparr>\<rparr>, answer_of RecomputeReply r))"
  using assms by (simp add: window_of_def)

end
