(* ===== verification/Server_Correct.thy ===== *)
theory Server_Correct
  imports Server
begin

text \<open>
  What callers without credentials can do to the gateway as a whole. The interface between the router and a metadata store is the
  contract that the two writes an unauthenticated request can cause, the \<open>last_used\<close> of a key and the \<open>last_login\<close> of
  an administrator, change nothing else; it holds of the in-memory, the SQLite and the PostgreSQL store.
\<close>

section \<open>The contract of the two touches\<close>

locale touch_contract =
  fixes ops :: "'m metadata_ops"
    and view :: "'m \<Rightarrow> 'v"
    and hashes :: "'v \<Rightarrow> bytes set"
  assumes touch_key_view: "view (fst (touch_key_last_used ops m i t)) = view m"
    and touch_admin_view: "view (fst (touch_admin_last_login ops m i t)) = view m"
    and find_hashes: "find_key_by_hash ops m h = Inr (Some row) \<Longrightarrow> h \<in> hashes (view m)"

text \<open>A request without the root token and without a valid session.\<close>

definition outsider :: "externals \<Rightarrow> crypto \<Rightarrow> ('m, 'l, 'k, 'c) gateway_app \<Rightarrow> draws \<Rightarrow> wire_request \<Rightarrow> bool" where
  "outsider ex cy app dw req \<longleftrightarrow>
     admin_auth (ex_to_str ex) (cy_jwt_decode cy) (ah_admin_root_token (ga_handles app)) (ah_master_key (ga_handles app)) (dw_s dw) (wr_headers req)
       = Inl ApiUnauthorized"

lemma admin_auth_Inl: "admin_auth ts dec tok master now headers = Inl e \<Longrightarrow> e = ApiUnauthorized"
  by (auto simp: admin_auth_def split: option.splits if_splits sum.splits)

text \<open>A request whose bearer token has none of these keyed hashes.\<close>

definition bears_none :: "externals \<Rightarrow> crypto \<Rightarrow> ('m, 'l, 'k, 'c) gateway_app \<Rightarrow> bytes set \<Rightarrow> wire_request \<Rightarrow> bool" where
  "bears_none ex cy app hs req \<longleftrightarrow>
     (case extract_bearer (ex_to_str ex) (wr_headers req) of
        None \<Rightarrow> True
      | Some token \<Rightarrow> derive_hash (cy_keyed_hash cy) (ah_master_key (ga_handles app)) token \<notin> hs)"

fun outside :: "externals \<Rightarrow> crypto \<Rightarrow> ('m, 'l, 'k, 'c) gateway_app \<Rightarrow> server_event \<Rightarrow> bool" where
  "outside ex cy app (EvRequest dw req) = outsider ex cy app dw req"
| "outside ex cy app (EvTask tc accept t) = True"

fun keyless :: "externals \<Rightarrow> crypto \<Rightarrow> ('m, 'l, 'k, 'c) gateway_app \<Rightarrow> bytes set \<Rightarrow> server_event \<Rightarrow> bool" where
  "keyless ex cy app hs (EvRequest dw req) = bears_none ex cy app hs req"
| "keyless ex cy app hs (EvTask tc accept t) = False"

text \<open>What such a request must leave alone, and what it may be answered.\<close>

definition login_only :: "answer \<Rightarrow> bool" where
  "login_only a \<longleftrightarrow> (\<forall>r. a = Reply r \<longrightarrow> (\<exists>l. r = LoginReply l))"

fun is_proxied :: "answer \<Rightarrow> bool" where
  "is_proxied (Proxied resp out) = True"
| "is_proxied a = False"

lemma login_only_simps [simp]:
  "login_only NotRouted" "login_only WrongMethod" "login_only (Rejected c)" "login_only (Refused e)" "login_only (Redirected p)"
  "login_only Page" "login_only (Status n j)" "login_only (MetricsPage m)" "login_only (Proxied resp out)" "login_only (answer_of LoginReply r)"
  by (auto simp: login_only_def answer_of_def split: sum.splits)

lemma is_proxied_answer_of [simp]: "\<not> is_proxied (answer_of f r)"
  by (auto simp: answer_of_def split: sum.splits)

lemma login_meta:
  "fst (admin_login av je ops master t1 t2 t3 u pw m) = m
     \<or> (\<exists>i. fst (admin_login av je ops master t1 t2 t3 u pw m) = fst (touch_admin_last_login ops m i t1))"
  by (auto simp: admin_login_def Let_def split: sum.splits option.splits bool.splits)

lemma key_auth_meta:
  "gateway_key_auth ts kh ops master m now headers = (m', r) \<Longrightarrow>
     (case r of
        Inl e \<Rightarrow> m' = m
      | Inr p \<Rightarrow> (\<exists>token row i. extract_bearer ts headers = Some token
          \<and> find_key_by_hash ops m (derive_hash kh master token) = Inr (Some row) \<and> m' = fst (touch_key_last_used ops m i now)))"
  by (auto simp: gateway_key_auth_def split: option.splits sum.splits if_splits)

context touch_contract
begin

lemma login_view: "view (fst (admin_login av je ops master t1 t2 t3 u pw m)) = view m"
  using login_meta [of av je ops master t1 t2 t3 u pw m] touch_admin_view by metis

lemma call_endpoint_outsider:
  assumes "ga_metadata app = ops" "outsider ex cy app dw req" "call_endpoint ex cy xt app dw ep ps req s = (s', a)"
  shows "view (sv_meta s') = view (sv_meta s) \<and> sv_pricing s' = sv_pricing s \<and> login_only a
    \<and> (bears_none ex cy app (hashes (view (sv_meta s))) req \<longrightarrow> sv_stores s' = sv_stores s \<and> \<not> is_proxied a)"
proof (cases ep)
  case ProxyCall
  obtain m r where auth: "gateway_key_auth (ex_to_str ex) (cy_keyed_hash cy) ops (ah_master_key (ga_handles app)) (sv_meta s) (dw_ms dw)
      (wr_headers req) = (m, r)" by fastforce
  note meta = key_auth_meta [OF auth]
  then have v: "view m = view (sv_meta s)" by (auto simp: touch_key_view split: sum.splits)
  show ?thesis
  proof (cases r)
    case (Inl e)
    then show ?thesis using assms(1,3) ProxyCall auth v by auto
  next
    case (Inr p)
    with meta have "\<not> bears_none ex cy app (hashes (view (sv_meta s))) req"
      by (auto simp: bears_none_def dest: find_hashes)
    moreover have "sv_meta s' = m \<and> sv_pricing s' = sv_pricing s \<and> login_only a"
      using assms(1,3) ProxyCall auth Inr by (auto simp: extracted_def Let_def split: sum.splits prod.splits)
    ultimately show ?thesis using v by simp
  qed
next
  case Login
  then show ?thesis
    using assms(1,3) login_view by (auto simp: extracted_def with_meta_def split: sum.splits)
next
  case (Admin e)
  then show ?thesis using assms(2,3) by (auto simp: outsider_def)
qed (use assms(3) in \<open>auto split: prod.splits\<close>)

lemma serve_event_outside:
  assumes "ga_metadata app = ops" "outside ex cy app ev" "serve_event ex cy xt app ev s = (s', as)"
  shows "view (sv_meta s') = view (sv_meta s) \<and> sv_pricing s' = sv_pricing s \<and> list_all login_only as
    \<and> (keyless ex cy app (hashes (view (sv_meta s))) ev \<longrightarrow> sv_stores s' = sv_stores s \<and> \<not> list_ex is_proxied as)"
proof (cases ev)
  case (EvRequest dw req)
  with assms obtain a where a: "serve_request ex cy xt app dw req s = (s', a)" "as = [a]" and out: "outsider ex cy app dw req"
    by (cases "serve_request ex cy xt app dw req s") auto
  then show ?thesis
    unfolding serve_request_def EvRequest
    using call_endpoint_outsider [OF assms(1) out, of xt _ _ s s' a] by (auto split: option.splits prod.splits)
qed (use assms(3) in auto)

lemma serve_all_outside:
  assumes "ga_metadata app = ops" "list_all (outside ex cy app) evs" "serve_all ex cy xt app evs s = (s', as)"
  shows "view (sv_meta s') = view (sv_meta s) \<and> sv_pricing s' = sv_pricing s \<and> list_all login_only as
    \<and> (list_all (keyless ex cy app (hashes (view (sv_meta s)))) evs \<longrightarrow> sv_stores s' = sv_stores s \<and> \<not> list_ex is_proxied as)"
  using assms(2,3)
proof (induction evs arbitrary: s as)
  case (Cons ev evs)
  obtain s1 as1 as2 where st: "serve_event ex cy xt app ev s = (s1, as1)" "serve_all ex cy xt app evs s1 = (s', as2)" "as = as1 @ as2"
    using Cons.prems(2) by (auto simp: Let_def split: prod.splits)
  note one = serve_event_outside [OF assms(1) _ st(1)] and rest = Cons.IH [OF _ st(2)]
  from one rest Cons.prems(1) show ?case by (simp add: st(3))
qed simp

end
section \<open>The stores keep the contract\<close>

definition untouched_keys :: "(string, gateway_key_row) hmap \<Rightarrow> (string, gateway_key_row) hmap" where
  "untouched_keys = map (map_prod id (\<lambda>r. r\<lparr>kr_last_used_at := None\<rparr>))"

definition mem_untouched :: "mem_meta \<Rightarrow> mem_meta" where
  "mem_untouched st = st\<lparr>mm_keys := untouched_keys (mm_keys st),
     mm_admins := map (map_prod id (\<lambda>u. u\<lparr>au_last_login_at := None\<rparr>)) (mm_admins st)\<rparr>"

definition sq_untouched :: "sql_db \<Rightarrow> sql_db" where
  "sq_untouched db = db\<lparr>t_keys := map (\<lambda>r. r\<lparr>kt_last_used_at := None\<rparr>) (t_keys db),
     t_admins := map (\<lambda>u. u\<lparr>au_last_login_at := None\<rparr>) (t_admins db)\<rparr>"

text \<open>Updating a value in place, in a component that the view forgets.\<close>

lemma map_insert_same:
  assumes "hm_get m k = Some v" "f v' = f v"
  shows "map (map_prod id f) (hm_insert k v' m) = map (map_prod id f) m"
  using assms by (induction m) (auto simp: hm_get_def hm_insert_def split: if_splits)

lemma map_upd_where: "(\<And>r. f (g r) = f r) \<Longrightarrow> map f (upd_where P g tbl) = map f tbl"
  by (simp add: upd_where_def)

interpretation mem_touch: touch_contract mem_metadata_ops mem_untouched "\<lambda>v. kr_hash ` snd ` set (mm_keys v)"
proof unfold_locales
  show "mem_untouched (fst (touch_key_last_used mem_metadata_ops m i t)) = mem_untouched m" for m i t
    by (auto simp: mem_metadata_ops_def mem_touch_key_last_used_def mem_untouched_def untouched_keys_def map_insert_same split: option.split)
  show "mem_untouched (fst (touch_admin_last_login mem_metadata_ops m i t)) = mem_untouched m" for m i t
    by (auto simp: mem_metadata_ops_def mem_touch_admin_last_login_def mem_untouched_def map_insert_same split: option.split)
  show "find_key_by_hash mem_metadata_ops m h = Inr (Some row) \<Longrightarrow> h \<in> kr_hash ` snd ` set (mm_keys (mem_untouched m))" for m h row
    by (force simp: mem_metadata_ops_def mem_find_key_by_hash_def mem_untouched_def untouched_keys_def hm_values_def find_Some_iff image_iff
        in_set_conv_nth)
qed

lemma sql_touches:
  "sq_untouched (fst (executed x (execute db n (update_keys P (\<lambda>r. r\<lparr>kt_last_used_at := u\<rparr>))) k)) = sq_untouched db"
  "sq_untouched (fst (executed x (execute db n (update_admins Q (\<lambda>r. r\<lparr>au_last_login_at := u\<rparr>))) k')) = sq_untouched db"
  by (auto simp: executed_def execute_def update_keys_def update_admins_def sq_untouched_def map_upd_where split: option.split)

lemma sql_found_hash:
  "fetched x (fetch db n (select_key (\<lambda>r. kt_hash r = h))) (transpose_row f) = Inr (Some row) \<Longrightarrow> h \<in> kt_hash ` set (t_keys (sq_untouched db))"
  by (force simp: fetched_def fetch_def select_key_def sq_untouched_def transpose_row_def find_Some_iff in_set_conv_nth image_iff
      split: option.splits sum.splits)

interpretation sq_touch: touch_contract "sq_metadata_ops x" sq_untouched "\<lambda>v. kt_hash ` set (t_keys v)" for x
  by unfold_locales
    (auto simp: sq_metadata_ops_def sq_touch_key_last_used_def sq_touch_admin_last_login_def sq_find_key_by_hash_def sql_touches
       dest: sql_found_hash)

interpretation pg_touch: touch_contract "pg_metadata_ops x" sq_untouched "\<lambda>v. kt_hash ` set (t_keys v)" for x
  by unfold_locales
    (auto simp: pg_metadata_ops_def pg_touch_key_last_used_def pg_touch_admin_last_login_def pg_find_key_by_hash_def sql_touches
       dest: sql_found_hash)

section \<open>Callers without credentials\<close>

text \<open>C14: Nobody administers the gateway without the root token or a session. Take any run of requests none of which authenticates
  an administrator, interleaved in any way with streaming tasks, on the SQLite or the PostgreSQL store. Afterwards every
  table is what it was, except for the time a key was last used and the time an administrator last logged in; the prices
  in force are the same; and no admin endpoint has answered with data, except a login. If moreover no request bears a
  stored gateway key and no task runs, then logs, cache, counters, spend and notifications are unchanged too, and no
  request was proxied.\<close>

theorem outsiders_change_nothing:
  assumes "ga_metadata app = sq_metadata_ops x \<or> ga_metadata app = pg_metadata_ops x"
    and "list_all (outside ex cy app) evs" "serve_all ex cy xt app evs s = (s', answers)"
  shows "sq_untouched (sv_meta s') = sq_untouched (sv_meta s) \<and> sv_pricing s' = sv_pricing s \<and> list_all login_only answers
    \<and> (list_all (keyless ex cy app (kt_hash ` set (t_keys (sv_meta s)))) evs \<longrightarrow>
         sv_stores s' = sv_stores s \<and> \<not> list_ex is_proxied answers)"
proof -
  have "kt_hash ` set (t_keys (sq_untouched db)) = kt_hash ` set (t_keys db)" for db
    by (force simp: sq_untouched_def image_iff)
  with assms(1) sq_touch.serve_all_outside [OF _ assms(2,3)] pg_touch.serve_all_outside [OF _ assms(2,3)] show ?thesis by auto
qed

section \<open>From a login to a proxied request\<close>

lemma proxy_route_found:
  "xt_accepts xt OnAny meth \<Longrightarrow>
     find (\<lambda>(p, m, ep). p = ''/v1/:namespace/*tail'' \<and> xt_accepts xt m meth) build_router = Some (''/v1/:namespace/*tail'', OnAny, ProxyCall)"
  by (simp add: build_router_def)

lemma proxy_request_served:
  assumes "xt_route xt (remdups (map fst build_router)) (wr_path req) = Some (''/v1/:namespace/*tail'', ps)"
    and "xt_accepts xt OnAny (wr_method req)" "xt_path2 xt ps = Inr (namespace, tail)"
    and "gateway_key_auth (ex_to_str ex) (cy_keyed_hash cy) (ga_metadata app) (ah_master_key (ga_handles app)) (sv_meta s) (dw_ms dw) (wr_headers req)
      = (m, Inr p)"
  shows "let (st', resp, out) = proxy_handler ex (proxy_app app (sv_pricing s)) (dw_upstream dw) (dw_clocks dw)
      \<lparr>rq_id = dw_uuid dw, rq_principal = p, rq_namespace = namespace, rq_tail = tail, rq_remote_ip = wr_remote_ip req,
       rq_headers = wr_headers req, rq_method = wr_method req, rq_body = wr_body req\<rparr> (sv_stores s)
    in serve_request ex cy xt app dw req s = (s\<lparr>sv_meta := m, sv_stores := st'\<rparr>, Proxied resp out)"
  using assms proxy_route_found [OF assms(2)] by (simp add: serve_request_def extracted_def split: prod.split)

text \<open>Looking at the tables, a login only dates the login of a user.\<close>

lemma sq_login_keeps:
  assumes "sq_working x db" "fst (admin_login av je (sq_metadata_ops x) master t1 t2 t3 u pw db) = db'"
  shows "sq_working x db' \<and> t_keys db' = t_keys db \<and> t_projects db' = t_projects db"
proof (cases "db' = db")
  case False
  with login_meta [of av je "sq_metadata_ops x" master t1 t2 t3 u pw db] assms(2) obtain i where
    "db' = fst (sq_touch_admin_last_login x db i t1)" by (auto simp: sq_metadata_ops_def)
  moreover obtain r where r: "sq_touch_admin_last_login x db i t1 = (fst (sq_touch_admin_last_login x db i t1), r)"
    by (cases "sq_touch_admin_last_login x db i t1") simp
  moreover have "r = Inr ()" using r assms(1) by (auto simp: sq_touch_admin_last_login_def executed_def execute_def update_admins_def sq_working_def)
  ultimately have "sql_ok x db'" using assms(1) sq_touch_admin_sim by (metis sq_working_def)
  with \<open>db' = _\<close> assms(1) show ?thesis
    by (auto simp: sq_working_def sq_touch_admin_last_login_def executed_def execute_def update_admins_def)
qed (use assms(1) in simp)

lemma sq_key_cong: "t_keys db' = t_keys db \<Longrightarrow> sq_key x db' = sq_key x db"
  by (simp add: sq_key_def mem_key_def sq_abs_def fun_eq_iff)

text \<open>With a fresh id and a known project, creating a key on a working database succeeds and stores a usable row.\<close>

lemma sq_admin_create_key:
  assumes "sq_working x db" "key_env_parse (cq_env body) = Some env" "sq_key x db uuid = None"
    and "project_exists db (unwrap_or (cq_project_id body) dproj)"
  obtains db' k row where "admin_create_key kh rnd uuid now (sq_metadata_ops x) master dproj body db = (db', Inr k)" "sq_working x db'"
    "sq_key x db' = (sq_key x db)(uuid \<mapsto> row)" "kr_hash row = derive_hash kh master (kc_secret k)" "parse_gateway_key (kc_secret k) \<noteq> None"
    "kr_project_id row = unwrap_or (cq_project_id body) dproj" "kr_status row = ''active''" "kr_expires_at row = cq_expires_at body"
    "kc_id k = uuid"
proof -
  obtain sec where sec: "generate_gateway_key kh rnd env master = Inr sec" by (simp add: generate_gateway_key_def Let_def)
  let ?nk = "\<lparr>nk_id = uuid, nk_project_id = unwrap_or (cq_project_id body) dproj, nk_name = cq_name body, nk_prefix = gs_prefix sec,
    nk_hash = gs_hash sec, nk_last4 = gs_last4 sec, nk_scopes = cq_scopes body, nk_expires_at = cq_expires_at body, nk_origin = KEY_ORIGIN_ADMIN\<rparr>"
  have w: "sql_codec x" "sql_ok x db" "\<And>i. db_fault db i = None" using assms(1) by (simp_all add: sq_working_def)
  have fresh: "\<not> has_where (\<lambda>r. kt_id r = uuid) (t_keys db)"
    using assms(3) by (auto simp: sq_key_def mem_key_def sq_abs_def has_where_def list_ex_iff find_None_iff)
  obtain db' row where c: "sq_create_key x db now ?nk = (db', Inr row)"
    using fresh assms(4) w(3) by (simp add: sq_create_key_def executed_def execute_def insert_key_def new_key_tuple_sel [OF w(1)])
  note sim = sq_create_key_sim [OF w(1,2) c]
  have "db_fault db' = db_fault db"
    using c by (auto simp: sq_create_key_def executed_Inr insert_key_def split: if_splits)
  with sim w have work: "sq_working x db'" by (simp add: sq_working_def)
  from sim have row: "sq_abs x db' = (sq_abs x db)\<lparr>mm_keys := hm_insert uuid row (mm_keys (sq_abs x db))\<rparr>" "kr_id row = uuid"
      "kr_hash row = gs_hash sec" "kr_project_id row = unwrap_or (cq_project_id body) dproj" "kr_status row = ''active''"
      "kr_expires_at row = cq_expires_at body"
    by (auto simp: mem_create_key_def Let_def)
  then have key: "sq_key x db' = (sq_key x db)(uuid \<mapsto> row)" by (simp add: sq_key_def mem_key_def fun_eq_iff)
  show thesis
  proof (rule that [of db' _ row, OF _ work key])
    show "admin_create_key kh rnd uuid now (sq_metadata_ops x) master dproj body db = (db', Inr \<lparr>kc_id = kr_id row, kc_name = kr_name row,
        kc_prefix = kr_prefix row, kc_last4 = kr_last4 row, kc_secret = gs_plaintext sec, kc_created_at = kr_created_at row\<rparr>)"
      using c by (simp add: admin_create_key_def assms(2) sec sq_metadata_ops_def)
  qed (use row sec in \<open>auto simp: generate_gateway_key_def Let_def parse_gateway_key_prefix\<close>)
qed

text \<open>A request that bears a stored, usable key reaches the proxy handler as that key.\<close>

lemma sq_key_proxied:
  assumes "ga_metadata app = sq_metadata_ops x" "sq_working x (sv_meta s)" "sq_key x (sv_meta s) i = Some row"
    and "kr_hash row = derive_hash (cy_keyed_hash cy) (ah_master_key (ga_handles app)) pt" "parse_gateway_key pt \<noteq> None"
    and "row_usable (dw_ms dw) row" "extract_bearer (ex_to_str ex) (wr_headers req) = Some pt"
    and "\<forall>j r. sq_key x (sv_meta s) j = Some r \<and> kr_hash r = derive_hash (cy_keyed_hash cy) (ah_master_key (ga_handles app)) pt \<longrightarrow> j = i"
    and "xt_route xt (remdups (map fst build_router)) (wr_path req) = Some (''/v1/:namespace/*tail'', ps)"
    and "xt_accepts xt OnAny (wr_method req)" "xt_path2 xt ps = Inr (namespace, tail)"
  shows "let (st', resp, out) = proxy_handler ex (proxy_app app (sv_pricing s)) (dw_upstream dw) (dw_clocks dw)
      \<lparr>rq_id = dw_uuid dw, rq_principal = \<lparr>gp_key_id = i, gp_project_id = kr_project_id row\<rparr>, rq_namespace = namespace, rq_tail = tail,
       rq_remote_ip = wr_remote_ip req, rq_headers = wr_headers req, rq_method = wr_method req, rq_body = wr_body req\<rparr> (sv_stores s)
    in \<exists>m. serve_request ex cy xt app dw req s = (s\<lparr>sv_meta := m, sv_stores := st'\<rparr>, Proxied resp out)"
proof -
  obtain m where "gateway_key_auth (ex_to_str ex) (cy_keyed_hash cy) (ga_metadata app) (ah_master_key (ga_handles app)) (sv_meta s) (dw_ms dw)
      (wr_headers req) = (m, Inr \<lparr>gp_key_id = i, gp_project_id = kr_project_id row\<rparr>)"
    using sq_row_admits [OF assms(2-8)] by (metis assms(1) prod.collapse)
  from proxy_request_served [OF assms(9-11) this, unfolded Let_def split_def] show ?thesis
    unfolding Let_def split_def by (rule exI)
qed


section \<open>A concrete gateway\<close>

definition demo_xt :: extractors where
  "demo_xt = \<lparr>xt_route = (\<lambda>paths p. if p \<in> set paths \<and> CHR '':'' \<notin> set p \<and> CHR ''*'' \<notin> set p then Some (p, [])
       else if p = ''/v1/ns/chat'' then Some (''/v1/:namespace/*tail'', [''ns'', ''chat'']) else None),
     xt_accepts = (\<lambda>m meth. m = OnAny \<or> (m, meth) \<in> {(OnGet, ''GET''), (OnPost, ''POST''), (OnPut, ''PUT''), (OnDelete, ''DELETE'')}),
     xt_path1 = (\<lambda>ps. Inr (hd ps)), xt_path2 = (\<lambda>ps. Inr (hd ps, hd (tl ps))), xt_credentials = (\<lambda>r. Inr (''ann'', ''secret'')),
     xt_create_key = (\<lambda>r. Inr demo_create_key), xt_project = (\<lambda>r. Inr None), xt_logs = (\<lambda>r. Inl 400), xt_cost = (\<lambda>r. Inl 400),
     xt_price = (\<lambda>r. Inl 400), xt_window = (\<lambda>r. Inl 400)\<rparr>"

definition demo_crypto :: crypto where
  "demo_crypto = \<lparr>cy_keyed_hash = (\<lambda>m p. p), cy_jwt_encode = (\<lambda>m c. if c = demo_claims then Inr ''tok'' else Inl []),
     cy_jwt_decode = (\<lambda>m now t. if t = ''tok'' then Some demo_claims else None), cy_argon2 = (\<lambda>salt p. Inr p),
     cy_argon2_verify = (\<lambda>p h. if p = h then ArgonOk else ArgonMismatch)\<rparr>"

definition demo_draws :: draws where
  "demo_draws = \<lparr>dw_rnd = ''abc'', dw_salt = [], dw_uuid = ''u1'', dw_ms = 0, dw_s = 0, dw_iat = 0, dw_clocks = demo_clocks, dw_upstream = demo_up,
     dw_install = Some 0, dw_render = (\<lambda>h. [])\<rparr>"

definition demo_gateway :: "(sql_db, mem_logs, mem_kv, mem_counter) gateway_app" where
  "demo_gateway = \<lparr>ga_handles = \<lparr>ah_config = demo_config, ah_engine = [], ah_default_project_id = ''default'', ah_admin_root_token = None,
       ah_master_key = [], ah_pricing = catalog_default, ah_pricing_base = catalog_default, ah_addr = []\<rparr>,
     ga_metadata = sq_metadata_ops demo_ext, ga_logs = mem_log_ops, ga_kv = mem_kv_ops, ga_counter = mem_counter_ops\<rparr>"

definition demo_tables :: sql_db where
  "demo_tables = sql_db_new\<lparr>t_projects := [\<lparr>pj_id = ''default'', pj_name = ''d'', pj_created_at = 0\<rparr>],
     t_admins := [\<lparr>au_id = ''a1'', au_username = ''ann'', au_password_hash = ''secret'', au_created_at = 0, au_last_login_at = None\<rparr>]\<rparr>"

definition demo_state :: "(sql_db, mem_logs, mem_kv, mem_counter) server_state" where
  "demo_state = \<lparr>sv_meta = demo_tables, sv_pricing = catalog_default, sv_stores = demo_stores, sv_recorder = None\<rparr>"

definition demo_wire :: "string \<Rightarrow> header_map \<Rightarrow> wire_request" where
  "demo_wire path h = \<lparr>wr_method = ''POST'', wr_path = path, wr_headers = h, wr_remote_ip = ''::1'', wr_body = Inr ''{}''\<rparr>"

lemma demo_router: "router_law demo_xt"
  by (auto simp: router_law_def demo_xt_def)

lemma demo_tables_working: "sq_working demo_ext demo_tables"
  using demo_ext_codec by (simp add: sq_working_def sql_ok_def demo_tables_def sql_db_new_def project_exists_def has_where_def)

theorem outsiders_change_nothing_witness:
  "sq_untouched (sv_meta (fst (serve_all demo_externals demo_crypto demo_xt demo_gateway
       [EvRequest demo_draws (demo_wire ''/admin/keys'' []), EvRequest demo_draws (demo_wire ''/admin/auth/login'' [])] demo_state)))
     = sq_untouched demo_tables
   \<and> snd (serve_all demo_externals demo_crypto demo_xt demo_gateway [EvRequest demo_draws (demo_wire ''/admin/keys'' [])] demo_state)
     = [Refused ApiUnauthorized]"
proof -
  have nobody: "extract_bearer ts [] = None" for ts by (simp add: extract_bearer_def hdr_str_def hdr_get_def)
  then have "list_all (outside demo_externals demo_crypto demo_gateway)
      [EvRequest demo_draws (demo_wire ''/admin/keys'' []), EvRequest demo_draws (demo_wire ''/admin/auth/login'' [])]"
    by (simp add: outsider_def admin_auth_def demo_wire_def)
  note run = outsiders_change_nothing [OF _ this prod.collapse [symmetric], of demo_ext demo_xt demo_state]
  have "serve_request demo_externals demo_crypto demo_xt demo_gateway demo_draws (demo_wire ''/admin/keys'' []) demo_state
      = call_endpoint demo_externals demo_crypto demo_xt demo_gateway demo_draws (Admin EpCreateKey) [] (demo_wire ''/admin/keys'' []) demo_state"
    by (rule static_route_served [OF demo_router, where m = OnPost])
      (simp_all add: demo_wire_def build_router_def nest_def admin_routes_def demo_xt_def)
  then have "serve_request demo_externals demo_crypto demo_xt demo_gateway demo_draws (demo_wire ''/admin/keys'' []) demo_state
      = (demo_state, Refused ApiUnauthorized)"
    by (simp add: admin_auth_def demo_wire_def nobody)
  with run show ?thesis by (simp add: demo_gateway_def demo_state_def)
qed

lemma demo_login:
  "serve_request demo_externals demo_crypto demo_xt demo_gateway demo_draws (demo_wire ''/admin/auth/login'' []) demo_state
     = (demo_state\<lparr>sv_meta := demo_tables\<lparr>t_admins := map (\<lambda>u. u\<lparr>au_last_login_at := Some 0\<rparr>) (t_admins demo_tables)\<rparr>\<rparr>,
        Reply (LoginReply \<lparr>lo_token = ''tok'', lo_username = ''ann'', lo_expires_at = 43200\<rparr>))"
proof -
  have "serve_request demo_externals demo_crypto demo_xt demo_gateway demo_draws (demo_wire ''/admin/auth/login'' []) demo_state
      = call_endpoint demo_externals demo_crypto demo_xt demo_gateway demo_draws Login [] (demo_wire ''/admin/auth/login'' []) demo_state"
    by (rule static_route_served [OF demo_router, where m = OnPost])
      (simp_all add: demo_wire_def build_router_def nest_def admin_routes_def demo_xt_def)
  then show ?thesis
    by (simp add: demo_gateway_def demo_state_def demo_tables_def sql_db_new_def demo_xt_def demo_crypto_def demo_draws_def extracted_def
        with_meta_def answer_of_def admin_login_def sq_metadata_ops_def sq_find_admin_user_def fetched_def fetch_def
        sq_touch_admin_last_login_def executed_def execute_def update_admins_def upd_where_def verify_password_def token_issue_def
        demo_claims_def SESSION_TTL_SECS_def i64_as_u64_def wrap_i64_def Let_def)
qed

lemma bearer_of:
  assumes "trim t = t" "t \<noteq> []"
  shows "extract_bearer Some [(''authorization'', ''Bearer '' @ t)] = Some t"
  using assms by (simp add: extract_bearer_def hdr_str_def hdr_get_def strip_prefix_def Let_def)

lemma demo_created:
  "\<exists>s2 k. serve_request demo_externals demo_crypto demo_xt demo_gateway demo_draws (demo_wire ''/admin/keys'' [(''authorization'', ''Bearer tok'')])
      (fst (serve_request demo_externals demo_crypto demo_xt demo_gateway demo_draws (demo_wire ''/admin/auth/login'' []) demo_state))
      = (s2, Reply (KeyReply k)) \<and> kc_secret k = ''sk-gw-live-abc''"
proof -
  let ?req = "demo_wire ''/admin/keys'' [(''authorization'', ''Bearer tok'')]"
  have route: "serve_request demo_externals demo_crypto demo_xt demo_gateway demo_draws ?req s
      = call_endpoint demo_externals demo_crypto demo_xt demo_gateway demo_draws (Admin EpCreateKey) [] ?req s" for s
    by (rule static_route_served [OF demo_router, where m = OnPost])
      (simp_all add: demo_wire_def build_router_def nest_def admin_routes_def demo_xt_def)
  have "extract_bearer Some (wr_headers ?req) = Some ''tok''"
    using bearer_of [of "''tok''"] by (simp add: demo_wire_def trim_def is_whitespace_def is_cont_byte_def byte_def)
  then show ?thesis
    unfolding route demo_login fst_conv
    by (simp add: demo_gateway_def demo_state_def demo_tables_def sql_db_new_def demo_xt_def demo_crypto_def demo_draws_def
        demo_externals_def extracted_def with_meta_def answer_of_def admin_auth_def token_verify_def admin_create_key_def demo_create_key_def
        key_env_parse_def generate_gateway_key_def PREFIX_LIVE_def SECRET_LEN_def sq_metadata_ops_def sq_create_key_def executed_def execute_def
        insert_key_def new_key_tuple_def project_exists_def has_where_def unwrap_or_def Let_def)
qed


end
