(* ===== verification/Settings.thy ===== *)
theory Settings
  imports Server_Correct
begin

text \<open>
  Which settings of the configuration file the program reads. While it serves, only routes, limits and budgets of the running configuration
  matter; of the others, some are used at the start and some nowhere.
\<close>

section \<open>What the proxy reads of the configuration\<close>

definition same_rules :: "app_config \<Rightarrow> app_config \<Rightarrow> bool" where
  "same_rules c c' \<longleftrightarrow> routes c' = routes c \<and> limits c' = limits c \<and> budgets c' = budgets c"

lemma as_config_sel:
  "as_kv (app\<lparr>as_config := c\<rparr>) = as_kv app" "as_logs (app\<lparr>as_config := c\<rparr>) = as_logs app"
  "as_config (app\<lparr>as_config := c\<rparr>) = c" "as_counter (app\<lparr>as_config := c\<rparr>) = as_counter app" "as_pricing (app\<lparr>as_config := c\<rparr>) = as_pricing app"
  by simp_all

lemma as_config_unused:
  "log_submit (app\<lparr>as_config := c\<rparr>) = log_submit app"
  "release_permit (app\<lparr>as_config := c\<rparr>) = release_permit app"
  "cache_lookup ex (app\<lparr>as_config := c\<rparr>) = cache_lookup ex app"
  "cache_write ex (app\<lparr>as_config := c\<rparr>) = cache_write ex app"
  "task_cost (app\<lparr>as_config := c\<rparr>) = task_cost app"
  unfolding fun_eq_iff log_submit_def release_permit_def cache_lookup_def cache_write_def task_cost_def as_config_sel by simp_all

lemma as_config_passed:
  "replay_cached ex (app\<lparr>as_config := c\<rparr>) = replay_cached ex app"
  "forward_upstream ex (app\<lparr>as_config := c\<rparr>) = forward_upstream ex app"
  unfolding fun_eq_iff replay_cached_def forward_upstream_def as_config_unused as_config_sel by simp_all

lemma rules_read:
  assumes "same_rules c c'"
  shows "find_route c' = find_route c" "check_block mday ops c' = check_block mday ops c" "limits c' = limits c"
    "record_cost mday ops c' = record_cost mday ops c" "current_usage mday ops c' = current_usage mday ops c"
  using assms by (simp_all add: fun_eq_iff same_rules_def find_route_def check_block_def record_cost_def matching_budgets_def current_usage_def)

lemma proxy_handler_rules:
  assumes "same_rules (as_config app) c"
  shows "proxy_handler ex (app\<lparr>as_config := c\<rparr>) = proxy_handler ex app"
proof -
  have admitted: "serve_admitted ex (app\<lparr>as_config := c\<rparr>) = serve_admitted ex app"
    unfolding fun_eq_iff serve_admitted_def as_config_unused as_config_passed as_config_sel rules_read [OF assms] by simp
  have "proxy_inner ex (app\<lparr>as_config := c\<rparr>) = proxy_inner ex app"
    unfolding fun_eq_iff proxy_inner_def as_config_unused as_config_sel admitted rules_read [OF assms] by simp
  then show ?thesis by (simp add: fun_eq_iff proxy_handler_def)
qed

lemma run_task_rules:
  assumes "same_rules (as_config app) c"
  shows "run_task ex (app\<lparr>as_config := c\<rparr>) = run_task ex app"
proof -
  have charged: "charge ex (app\<lparr>as_config := c\<rparr>) = charge ex app"
    unfolding fun_eq_iff charge_def as_config_sel rules_read [OF assms] by simp
  show ?thesis unfolding fun_eq_iff run_task_def as_config_unused as_config_sel charged by simp
qed

section \<open>What the server reads of the configuration\<close>

definition with_config :: "app_config \<Rightarrow> ('m, 'l, 'k, 'c) gateway_app \<Rightarrow> ('m, 'l, 'k, 'c) gateway_app" where
  "with_config c app = app\<lparr>ga_handles := (ga_handles app)\<lparr>ah_config := c\<rparr>\<rparr>"

lemma with_config_sel [simp]:
  "ga_metadata (with_config c app) = ga_metadata app" "ga_logs (with_config c app) = ga_logs app" "ga_counter (with_config c app) = ga_counter app"
  "ah_master_key (ga_handles (with_config c app)) = ah_master_key (ga_handles app)"
  "ah_default_project_id (ga_handles (with_config c app)) = ah_default_project_id (ga_handles app)"
  "ah_admin_root_token (ga_handles (with_config c app)) = ah_admin_root_token (ga_handles app)"
  "ah_pricing_base (ga_handles (with_config c app)) = ah_pricing_base (ga_handles app)"
  "ah_config (ga_handles (with_config c app)) = c"
  "proxy_app (with_config c app) p = (proxy_app app p)\<lparr>as_config := c\<rparr>"
  by (simp_all add: with_config_def proxy_app_def)

text \<open>Equal answers, except that the endpoint that shows the configuration shows the one it runs with.\<close>

definition same_answer :: "answer \<Rightarrow> answer \<Rightarrow> bool" where
  "same_answer a b \<longleftrightarrow> a = b \<or> (\<exists>c d. a = Reply (ConfigReply c) \<and> b = Reply (ConfigReply d))"

lemma same_answer_refl [simp]: "same_answer a a"
  by (simp add: same_answer_def)

lemma call_endpoint_rules:
  assumes "same_rules (ah_config (ga_handles app)) c"
  shows "rel_prod (=) same_answer (call_endpoint ex cy xt (with_config c app) dw ep ps req s) (call_endpoint ex cy xt app dw ep ps req s)"
proof -
  have "same_rules (as_config (proxy_app app p)) c" for p using assms by (simp add: proxy_app_def)
  note proxy = proxy_handler_rules [OF this]
  have admin_calls: "rel_prod (=) same_answer (call_admin ex cy xt (with_config c app) dw e p ps req s) (call_admin ex cy xt app dw e p ps req s)" for e p
  proof (cases e)
    case EpListBudgets
    then show ?thesis by (simp add: admin_list_budgets_def rules_read [OF assms] rel_prod_sel)
  next
    case EpGetRoutes
    then show ?thesis by (simp add: same_answer_def)
  qed (simp_all add: rel_prod_sel)
  show ?thesis
  proof (cases ep)
    case (Admin e)
    then show ?thesis using admin_calls by (auto split: sum.split)
  qed (simp_all add: proxy rel_prod_sel)
qed

lemma serve_event_rules:
  assumes "same_rules (ah_config (ga_handles app)) c"
  shows "rel_prod (=) (list_all2 same_answer) (serve_event ex cy xt (with_config c app) ev s) (serve_event ex cy xt app ev s)"
proof (cases ev)
  case (EvRequest dw req)
  have "rel_prod (=) same_answer (serve_request ex cy xt (with_config c app) dw req s) (serve_request ex cy xt app dw req s)"
    unfolding serve_request_def using call_endpoint_rules [OF assms]
    by (auto simp: rel_prod_sel split: option.split prod.split)
  then show ?thesis by (simp add: EvRequest rel_prod_sel)
next
  case (EvTask tc accept t)
  have "same_rules (as_config (proxy_app app p)) c" for p using assms by (simp add: proxy_app_def)
  then show ?thesis by (simp add: EvTask run_task_rules)
qed

lemma serve_all_rules:
  assumes "same_rules (ah_config (ga_handles app)) c"
  shows "rel_prod (=) (list_all2 same_answer) (serve_all ex cy xt (with_config c app) evs s) (serve_all ex cy xt app evs s)"
proof (induction evs arbitrary: s)
  case (Cons ev evs)
  from serve_event_rules [OF assms, of ex cy xt ev s] Cons.IH [of "fst (serve_event ex cy xt app ev s)"] show ?case
    by (auto simp: rel_prod_sel split_def Let_def intro: list_all2_appendI)
qed simp

section \<open>Settings without effect\<close>

text \<open>Other values for the request timeout, the password login switch, the observability section, the size limit of the database, the
  retention of logs, and the sizes of the caches that are not the in-process cache of the single-process profile.\<close>

definition retune ::
  "nat \<Rightarrow> bool \<Rightarrow> observability_config \<Rightarrow> nat \<Rightarrow> nat \<Rightarrow> cache_config \<Rightarrow> app_config \<Rightarrow> app_config" where
  "retune timeout login obs cap days caches cfg =
     cfg\<lparr>server := (server cfg)\<lparr>request_timeout_ms := timeout\<rparr>, admin := (admin cfg)\<lparr>password_login := login\<rparr>, observability := obs,
         storage := (case storage cfg of
             Lite sq c \<Rightarrow> Lite (sq\<lparr>max_size_mb := cap, log_retention_days := days\<rparr>) (c\<lparr>l2_max_size_mb := l2_max_size_mb caches\<rparr>)
           | Standard pg rd c \<Rightarrow> Standard pg rd caches
           | Memory c \<Rightarrow> Memory caches)\<rparr>"

lemma retune_sel [simp]:
  "routes (retune t l ob sz d c cfg) = routes cfg" "limits (retune t l ob sz d c cfg) = limits cfg" "budgets (retune t l ob sz d c cfg) = budgets cfg"
  "providers (retune t l ob sz d c cfg) = providers cfg" "gateway_keys (retune t l ob sz d c cfg) = gateway_keys cfg"
  "bind (server (retune t l ob sz d c cfg)) = bind (server cfg)"
  "default_project_id (server (retune t l ob sz d c cfg)) = default_project_id (server cfg)"
  "root_token (admin (retune t l ob sz d c cfg)) = root_token (admin cfg)"
  by (simp_all add: retune_def)

lemma retune_boot:
  "store_choice_of (retune t l ob sz d c cfg) = store_choice_of cfg" "validate (retune t l ob sz d c cfg) = validate cfg"
  "new_engine env (retune t l ob sz d c cfg) = new_engine env cfg" "read_admin_token env (retune t l ob sz d c cfg) = read_admin_token env cfg"
  "validate_runtime_environment env canon (retune t l ob sz d c cfg) = validate_runtime_environment env canon cfg"
  unfolding store_choice_of_def validate_def new_engine_def read_admin_token_def validate_runtime_environment_def retune_sel
  by (simp_all add: retune_def split: storage_config.split)

lemma retune_loaded:
  "load_from_path (\<lambda>y. map_sum id (retune t l ob sz d c) (from_yaml y)) rd path = map_sum id (retune t l ob sz d c) (load_from_path from_yaml rd path)"
  by (auto simp: load_from_path_def load_from_str_def retune_boot split: sum.split)

lemma retune_boot_stores:
  "boot_stores be ops now prices (retune t l ob sz d c cfg) master token st =
     map_prod id (map_sum id (\<lambda>ah. ah\<lparr>ah_config := retune t l ob sz d c (ah_config ah)\<rparr>)) (boot_stores be ops now prices cfg master token st)"
  by (auto simp: boot_stores_def retune_boot Let_def split: sum.split prod.split)

lemma boot_stores_env: "boot_stores (be\<lparr>be_from_yaml := f\<rparr>) = boot_stores be"
proof -
  have sel: "be_env (be\<lparr>be_from_yaml := f\<rparr>) = be_env be" "be_keyed_hash (be\<lparr>be_from_yaml := f\<rparr>) = be_keyed_hash be"
    "be_parse_prices (be\<lparr>be_from_yaml := f\<rparr>) = be_parse_prices be" "be_price_file (be\<lparr>be_from_yaml := f\<rparr>) = be_price_file be"
    "remote_prices (be\<lparr>be_from_yaml := f\<rparr>) = remote_prices be" "be_listen (be\<lparr>be_from_yaml := f\<rparr>) = be_listen be"
    by (simp_all add: remote_prices_def)
  show ?thesis unfolding fun_eq_iff boot_stores_def sel by simp
qed

section \<open>The model of a route target\<close>

text \<open>A route target may name a model. The executor copies it into the trace of the attempts and nowhere else: with other models every attempt
  sends the same request, so the chain gives the same response by the same provider.\<close>

definition remodel :: "(chain_entry \<Rightarrow> string option) \<Rightarrow> chain_entry \<Rightarrow> chain_entry" where
  "remodel f e = e\<lparr>ce_model_override := f e\<rparr>"

abbreviation forget_model :: "attempt_trace \<Rightarrow> attempt_trace" where
  "forget_model t \<equiv> t\<lparr>tr_model := None\<rparr>"

lemma entry_loop_remodel:
  assumes "map forget_model as = map forget_model bs"
  shows "rel_prod (\<lambda>xs ys. map forget_model xs = map forget_model ys) (=) (entry_loop call maxa template (remodel f e) k as) (entry_loop call maxa template e k bs)"
  using assms
proof (induction call maxa template e k bs arbitrary: as rule: entry_loop.induct)
  case (1 call maxa template e k bs)
  obtain r ms where c: "call (length bs) (template\<lparr>fr_provider := ce_provider e\<rparr>) = (r, ms)" by (metis prod.collapse)
  have len: "length as = length bs" using 1(2) map_eq_imp_length_eq by blast
  have step: "map forget_model (as @ [mk_trace (remodel f e) r ms]) = map forget_model (bs @ [mk_trace e r ms])"
    using 1(2) by (simp add: mk_trace_def remodel_def)
  show ?case
    using 1(1) [OF refl c [symmetric] refl _ _ step] step c
    by (subst (1 2) entry_loop.simps) (auto simp: len remodel_def Let_def)
qed

lemma chain_loop_remodel:
  assumes "map forget_model as = map forget_model bs"
  shows "cr_response (chain_loop call maxa template idx (map (remodel f) es) as fb st) = cr_response (chain_loop call maxa template idx es bs fb st)
    \<and> cr_fallback_used (chain_loop call maxa template idx (map (remodel f) es) as fb st) = cr_fallback_used (chain_loop call maxa template idx es bs fb st)
    \<and> map forget_model (cr_attempts (chain_loop call maxa template idx (map (remodel f) es) as fb st))
      = map forget_model (cr_attempts (chain_loop call maxa template idx es bs fb st))"
  using assms
proof (induction es arbitrary: idx as bs fb st)
  case (Cons e es)
  obtain as' r bs' where l: "entry_loop call maxa template (remodel f e) 0 as = (as', r)" "entry_loop call maxa template e 0 bs = (bs', r)"
      "map forget_model as' = map forget_model bs'"
    using entry_loop_remodel [OF Cons.prems, of call maxa template f e 0]
    by (cases "entry_loop call maxa template (remodel f e) 0 as"; cases "entry_loop call maxa template e 0 bs") auto
  have same: "ce_trigger (remodel f e) = ce_trigger e" "ce_provider (remodel f e) = ce_provider e" by (simp_all add: remodel_def)
  show ?case using Cons.IH [OF l(3)] Cons.prems l by (simp add: same Let_def split: option.split)
qed simp

lemma model_override_only_traced:
  fixes chain call template f
  defines "R \<equiv> execute_chain call chain template"
  defines "R' \<equiv> execute_chain call (chain\<lparr>entries := map (remodel f) (entries chain)\<rparr>) template"
  shows "cr_response R' = cr_response R \<and> cr_fallback_used R' = cr_fallback_used R
    \<and> map forget_model (cr_attempts R') = map forget_model (cr_attempts R)"
  using chain_loop_remodel [of "[]" "[]"] by (simp add: R_def R'_def execute_chain_def)

section \<open>Settings without effect\<close>

text \<open>C28: Settings that the documentation describes and the program does not use. Give the request timeout, the switch for password
  logins, the observability section, the size limit of the database, the log retention and the cache sizes (apart from the
  in-process cache of the single-process profile) any other values: the start then opens the same stores, writes
  the same rows and gives the same handles. In the running gateway replace the whole configuration but its routes, limits and budgets, the
  addresses and credentials of the providers included: any run of requests and streaming tasks leads to the same state
  and the same answers, except that the endpoint that shows the configuration shows the other values. In particular
  the login endpoint issues sessions when password logins are switched off. And let the targets of a route name any
  other models: every attempt sends the same request, and the chain gives the same response by the same provider; only the
  model noted in the trace of the attempts differs.\<close>

theorem settings_without_effect:
  "boot (be\<lparr>be_from_yaml := \<lambda>y. map_sum id (retune t login obs cap days caches) (be_from_yaml be y)\<rparr>) ops opens now path prices
      = map_prod id (map_sum id (\<lambda>ah. ah\<lparr>ah_config := retune t login obs cap days caches (ah_config ah)\<rparr>)) (boot be ops opens now path prices)
    \<and> rel_prod (=) (list_all2 same_answer)
        (serve_all ex cy xt (with_config (other\<lparr>routes := routes (ah_config (ga_handles app)), limits := limits (ah_config (ga_handles app)),
           budgets := budgets (ah_config (ga_handles app))\<rparr>) app) evs s)
        (serve_all ex cy xt app evs s)
    \<and> (let R = execute_chain call chain template; R' = execute_chain call (chain\<lparr>entries := map (remodel f) (entries chain)\<rparr>) template
       in cr_response R' = cr_response R \<and> cr_fallback_used R' = cr_fallback_used R
          \<and> map forget_model (cr_attempts R') = map forget_model (cr_attempts R))"
proof (intro conjI)
  show "boot (be\<lparr>be_from_yaml := \<lambda>y. map_sum id (retune t login obs cap days caches) (be_from_yaml be y)\<rparr>) ops opens now path prices
      = map_prod id (map_sum id (\<lambda>ah. ah\<lparr>ah_config := retune t login obs cap days caches (ah_config ah)\<rparr>)) (boot be ops opens now path prices)"
    by (auto simp: boot_def build_stores_def retune_loaded retune_boot retune_boot_stores boot_stores_env prod.map_comp o_def split: sum.split)
  show "let R = execute_chain call chain template; R' = execute_chain call (chain\<lparr>entries := map (remodel f) (entries chain)\<rparr>) template
       in cr_response R' = cr_response R \<and> cr_fallback_used R' = cr_fallback_used R
          \<and> map forget_model (cr_attempts R') = map forget_model (cr_attempts R)"
    by (simp add: Let_def model_override_only_traced)
qed (rule serve_all_rules, simp add: same_rules_def)

end
