(* ===== verification/Server_Invariant.thy ===== *)
theory Server_Invariant
  imports Settings
begin

text \<open>
  What holds at every moment of a gateway on a SQLite database: from the start on, through any run of requests, administrators'
  ones included, and streaming tasks, the tables keep their constraints and the prices in force are the base catalog with
  the stored overrides on top.
\<close>

section \<open>The frame of a metadata call\<close>

lemmas sq_write_defs = sq_create_project_def sq_create_key_def sq_revoke_key_def sq_touch_key_last_used_def
  sq_prune_seeded_keys_not_in_def sq_upsert_routes_def sq_upsert_budget_def sq_upsert_pricing_def sq_delete_pricing_def
  sq_touch_admin_last_login_def

lemmas sql_statement_defs = insert_project_def insert_key_def upsert_key_def update_keys_def delete_keys_def upsert_route_def upsert_budget_row_def
  upsert_pricing_row_def delete_pricing_rows_def insert_admin_def update_admins_def

lemma executed_keeps:
  assumes "\<And>db' n. stmt db = Inr (db', n) \<Longrightarrow> f db' = f db"
  shows "f (fst (executed x (execute db i stmt) k)) = f db"
  using assms by (auto simp: executed_def execute_def split: option.split sum.split prod.split)

definition frame :: "sql_db \<Rightarrow> (nat \<Rightarrow> string option) \<times> pricing_tuple list" where
  "frame db = (db_fault db, t_pricing db)"

lemma sq_writes_frame:
  "frame (fst (sq_create_project x db now p)) = frame db"
  "frame (fst (sq_create_key x db now k)) = frame db"
  "frame (fst (sq_revoke_key x db now i)) = frame db"
  "frame (fst (sq_touch_key_last_used x db i t)) = frame db"
  "frame (fst (sq_prune_seeded_keys_not_in x db q keep)) = frame db"
  "frame (fst (sq_upsert_routes x db now q cfg v)) = frame db"
  "frame (fst (sq_upsert_budget x db b)) = frame db"
  "frame (fst (sq_touch_admin_last_login x db i t)) = frame db"
  "db_fault (fst (sq_upsert_pricing x db r)) = db_fault db"
  "db_fault (fst (sq_delete_pricing x db prov model)) = db_fault db"
  unfolding sq_write_defs Let_def
  by (rule executed_keeps, auto simp: frame_def sql_statement_defs split: if_splits sum.splits)+

lemma sq_compound_frame:
  "frame (fst (sq_upsert_seeded_key x db now k)) = frame db"
  "frame (fst (sq_create_admin_user x db now u)) = frame db"
  by (auto simp: frame_def sq_upsert_seeded_key_def sq_create_admin_user_def execute_def sql_statement_defs Let_def
      split: sum.splits prod.splits option.splits sql_error.splits if_splits)

fun reprices :: "meta_call \<Rightarrow> bool" where
  "reprices (UpsertPricing p) = True"
| "reprices (DeletePricing p m) = True"
| "reprices c = False"

lemma sq_call_frame: "\<not> reprices c \<Longrightarrow> frame (fst (run_call (sq_metadata_ops x) db c)) = frame db"
  by (cases c) (simp_all add: sq_metadata_ops_def sq_writes_frame sq_compound_frame)

lemma sq_call_working:
  assumes "sq_working x db"
  shows "sq_working x (fst (run_call (sq_metadata_ops x) db c))"
proof -
  have "db_fault (fst (run_call (sq_metadata_ops x) db c)) = db_fault db"
    using sq_call_frame [of c x db] sq_writes_frame(9,10) [of x db] by (cases c) (simp_all add: frame_def sq_metadata_ops_def)
  with sq_call_keeps_ok [of x db c] assms show ?thesis by (simp add: sq_working_def)
qed

section \<open>The handlers\<close>

text \<open>The handlers change the metadata by calls of the interface.\<close>

inductive called :: "'m metadata_ops \<Rightarrow> 'm \<Rightarrow> 'm \<Rightarrow> bool" for ops st where
  unchanged: "called ops st st"
| call: "\<not> reprices c \<Longrightarrow> called ops st (fst (run_call ops st c))"

lemma handlers_call:
  "called ops m (fst (admin_create_admin a2 salt uuid now ops u pw m))"
  "called ops m (fst (admin_create_key kh rnd uuid now ops master dproj body m))"
  "called ops m (fst (admin_revoke_key ops now ident m))"
  "called ops m (fst (admin_login av je ops master t1 t2 t3 u pw m))"
  "called ops m (fst (gateway_key_auth ts kh ops master m now headers))"
proof -
  have c: "called ops m (fst (create_admin_user ops m now nu))" "called ops m (fst (create_key ops m now nk))" "called ops m (fst (revoke_key ops m now i))"
      "called ops m (fst (touch_admin_last_login ops m i t))" "called ops m (fst (touch_key_last_used ops m i t))" for now nu nk i t
    using called.call [of "CreateAdmin now nu" ops m] called.call [of "CreateKey now nk" ops m] called.call [of "RevokeKey now i" ops m]
      called.call [of "TouchAdmin i t" ops m] called.call [of "TouchKey i t" ops m] by simp_all
  have e: "create_admin_user ops m now nu = (m', r) \<Longrightarrow> called ops m m'" "create_key ops m now nk = (m', r2) \<Longrightarrow> called ops m m'"
      "revoke_key ops m now i = (m', r3) \<Longrightarrow> called ops m m'" for now nu nk i m' r r2 r3
    using c(1) [of now nu] c(2) [of now nk] c(3) [of now i] by simp_all
  show "called ops m (fst (admin_create_admin a2 salt uuid now ops u pw m))"
    by (auto simp: admin_create_admin_def intro: called.unchanged e(1) split: sum.split prod.split)
  show "called ops m (fst (admin_create_key kh rnd uuid now ops master dproj body m))"
    by (auto simp: admin_create_key_def intro: called.unchanged e(2) split: sum.split prod.split option.split)
  show "called ops m (fst (admin_revoke_key ops now ident m))"
    by (auto simp: admin_revoke_key_def intro: called.unchanged e(3) split: sum.split prod.split option.split)
  show "called ops m (fst (admin_login av je ops master t1 t2 t3 u pw m))"
    using login_meta [of av je ops master t1 t2 t3 u pw m] c(4) called.unchanged by metis
  show "called ops m (fst (gateway_key_auth ts kh ops master m now headers))"
    using c(5) by (auto simp: gateway_key_auth_def intro: called.unchanged split: option.split sum.split)
qed

text \<open>The invariant: a working database, and prices in force that agree with its price table.\<close>

definition server_ok :: "sql_ext \<Rightarrow> ('m, 'l, 'k, 'c) gateway_app \<Rightarrow> (sql_db, 'l, 'k, 'c) server_state \<Rightarrow> bool" where
  "server_ok x app s \<longleftrightarrow> sq_working x (sv_meta s)
     \<and> sv_pricing s = merged_catalog (ah_pricing_base (ga_handles app)) (map pt_row (t_pricing (sv_meta s)))"

lemma called_ok:
  assumes "server_ok x app s" "called (sq_metadata_ops x) (sv_meta s) m"
  shows "server_ok x app (s\<lparr>sv_meta := m\<rparr>)"
  using assms(2)
proof cases
  case unchanged
  then show ?thesis using assms(1) by simp
next
  case (call c)
  then have "t_pricing m = t_pricing (sv_meta s)" using sq_call_frame [of c x "sv_meta s"] by (simp add: frame_def)
  with call(1) sq_call_working [of x "sv_meta s" c] assms(1) show ?thesis by (simp add: server_ok_def)
qed

lemma stores_ok: "server_ok x app (s\<lparr>sv_stores := st\<rparr>) = server_ok x app s" "server_ok x app (s\<lparr>sv_recorder := h\<rparr>) = server_ok x app s"
  by (simp_all add: server_ok_def)

text \<open>A change of the price table is followed by a refresh of the catalog, which a working database answers.\<close>

lemma refresh_ok:
  assumes "sq_working x m"
  shows "refresh_pricing (sq_metadata_ops x) base (m, cat) = ((m, merged_catalog base (map pt_row (t_pricing m))), Inr ())"
  using assms by (simp add: refresh_pricing_def sq_metadata_ops_def sq_list_pricing_def fetched_def fetch_def sq_working_def)

lemma price_handlers_ok:
  assumes "sq_working x m" "cat = merged_catalog base (map pt_row (t_pricing m))"
    and "admin_upsert_pricing (sq_metadata_ops x) base body (m, cat) = (s', r) \<or> admin_delete_pricing (sq_metadata_ops x) base prov model (m, cat) = (s', r)"
  shows "sq_working x (fst s') \<and> snd s' = merged_catalog base (map pt_row (t_pricing (fst s')))"
proof -
  have w: "upsert_pricing (sq_metadata_ops x) m row = (m1, q) \<Longrightarrow> sq_working x m1"
      "delete_pricing (sq_metadata_ops x) m prov model = (m1, q) \<Longrightarrow> sq_working x m1" for row m1 q
    using sq_call_working [OF assms(1), of "UpsertPricing row"] sq_call_working [OF assms(1), of "DeletePricing prov model"] by simp_all
  have f: "upsert_pricing (sq_metadata_ops x) m row = (m1, Inl e) \<Longrightarrow> m1 = m"
      "delete_pricing (sq_metadata_ops x) m prov model = (m1, Inl e) \<Longrightarrow> m1 = m" for row m1 e
    by (auto simp: sq_metadata_ops_def dest: sq_writes_fail)
  from assms(3) show ?thesis
    using assms(1,2)
    by (auto simp: admin_upsert_pricing_def admin_delete_pricing_def Let_def refresh_ok [OF w(1)] refresh_ok [OF w(2)] dest: w f
        split: if_splits prod.splits sum.splits)
qed

section \<open>Runs of the server\<close>

lemma with_meta_ok:
  assumes "server_ok x app s" "called (sq_metadata_ops x) (sv_meta s) (fst r)"
  shows "server_ok x app (fst (with_meta f s r))"
  using called_ok [OF assms] by (simp add: with_meta_def)

lemma extracted_ok:
  "server_ok x app s \<Longrightarrow> (\<And>y. server_ok x app (fst (f y))) \<Longrightarrow> server_ok x app (fst (extracted v f s))"
  by (simp add: extracted_def split: sum.split)

lemma with_prices_ok:
  assumes "server_ok x app s"
    and "r = admin_upsert_pricing (sq_metadata_ops x) (ah_pricing_base (ga_handles app)) body (sv_meta s, sv_pricing s)
      \<or> r = admin_delete_pricing (sq_metadata_ops x) (ah_pricing_base (ga_handles app)) prov model (sv_meta s, sv_pricing s)"
  shows "server_ok x app (fst (with_prices s r))"
  using assms price_handlers_ok [of x "sv_meta s" "sv_pricing s" "ah_pricing_base (ga_handles app)" body "fst r" "snd r" prov model]
  by (auto simp: with_prices_def server_ok_def)

lemma call_admin_ok:
  assumes "ga_metadata app = sq_metadata_ops x" "server_ok x app s"
  shows "server_ok x app (fst (call_admin ex cy xt app dw ep p ps req s))"
proof (cases ep)
  case EpRecomputeCosts
  then show ?thesis using assms(2) by (simp add: stores_ok split: prod.split)
qed (use assms in \<open>auto intro!: extracted_ok with_meta_ok handlers_call with_prices_ok simp: split_def\<close>)

lemma call_endpoint_ok:
  assumes "ga_metadata app = sq_metadata_ops x" "server_ok x app s"
  shows "server_ok x app (fst (call_endpoint ex cy xt app dw ep ps req s))"
proof (cases ep)
  case ProxyCall
  let ?auth = "gateway_key_auth (ex_to_str ex) (cy_keyed_hash cy) (ga_metadata app) (ah_master_key (ga_handles app)) (sv_meta s) (dw_ms dw) (wr_headers req)"
  have "server_ok x app (s\<lparr>sv_meta := fst ?auth\<rparr>)"
    unfolding assms(1) by (rule called_ok [OF assms(2) handlers_call(5)])
  then show ?thesis
    by (cases ?auth) (auto simp: ProxyCall stores_ok split_def Let_def intro!: extracted_ok split: sum.split)
next
  case (Admin e)
  then show ?thesis using call_admin_ok [OF assms] assms(2) by (simp split: sum.split)
next
  case MetricsText
  then show ?thesis using assms(2) by (simp add: stores_ok split: prod.split)
qed (use assms in \<open>auto intro!: extracted_ok with_meta_ok handlers_call simp: split_def\<close>)

lemma serve_all_ok:
  assumes "ga_metadata app = sq_metadata_ops x" "server_ok x app s"
  shows "server_ok x app (fst (serve_all ex cy xt app evs s))"
  using assms(2)
proof (induction evs arbitrary: s)
  case (Cons ev evs)
  have "server_ok x app (fst (serve_event ex cy xt app ev s))"
  proof (cases ev)
    case (EvRequest dw req)
    then show ?thesis
      using call_endpoint_ok [OF assms(1) Cons.prems] Cons.prems by (auto simp: serve_request_def split: option.split prod.split)
  qed (use Cons.prems in \<open>simp add: stores_ok\<close>)
  from Cons.IH [OF this] show ?case by (simp add: split_def Let_def)
qed simp

section \<open>From the start on\<close>

lemma boot_pricing:
  "boot be ops opens now path prices = (Some db, Inr ah) \<Longrightarrow>
     \<exists>overrides. list_pricing ops db = Inr overrides \<and> ah_pricing ah = merged_catalog (ah_pricing_base ah) overrides"
  unfolding boot_def boot_stores_def build_stores_def by (auto simp: Let_def split: sum.splits prod.splits)

text \<open>A gateway that has just started satisfies the invariant.\<close>

lemma booted_ok:
  assumes "boot be (sq_metadata_ops x) opens now path prices = (Some db, Inr ah)" "\<forall>c db. opens c = Inr db \<longrightarrow> sq_working x db" "ga_handles app = ah"
  shows "validate (ah_config ah) = Inr () \<and> server_ok x app \<lparr>sv_meta = db, sv_pricing = ah_pricing ah, sv_stores = st, sv_recorder = h\<rparr>"
proof -
  from assms(1,2) obtain cfg master db1 where cfg: "load_from_path (be_from_yaml be) (be_read_file be) path = Inr cfg" "sq_working x db1"
      "seed_apply (be_env be) (be_keyed_hash be) (sq_metadata_ops x) master now (default_project_id (server cfg)) (gateway_keys cfg) db1 = (db, Inr ())"
      "ah_config ah = cfg"
    by (rule booted_store)
  note valid = load_from_path_valid [OF cfg(1)]
  have w: "sq_working x db"
    using sq_keys.seed_apply_result [OF cfg(2) valid_keys_distinct [OF valid] cfg(3)] by blast
  have "list_pricing (sq_metadata_ops x) db = Inr (map pt_row (t_pricing db))"
    using w by (simp add: sq_metadata_ops_def sq_list_pricing_def fetched_def fetch_def sq_working_def)
  with boot_pricing [OF assms(1)] w assms(3) valid cfg(4) show ?thesis by (simp add: server_ok_def)
qed

end
