(* ===== verification/Reload.thy ===== *)
theory Reload
  imports Server_Invariant
begin

text \<open>
  The hot reload as a task that runs beside the requests: \<open>try_reload\<close> of \<open>gateway-api/src/reload.rs\<close> with \<open>apply\<close> of
  \<open>gateway-api/src/seed_keys.rs\<close> inlined, one call of the metadata store per step. Run on its own it is \<open>try_reload\<close>; beside
  requests without administrator's credentials it does to the store what it does on its own.
\<close>

section \<open>The steps of a reload\<close>

datatype reload_phase =
    Waiting
  | Upserting app_config "new_gateway_key list" "(string \<times> string list) list"
  | Pruning app_config "(string \<times> string list) list"
  | Publishing app_config

record reload_env =
  re_from_yaml :: "string \<Rightarrow> string + app_config"
  re_env :: "string \<Rightarrow> string option"
  re_keyed_hash :: keyed_hash_fn
  re_master :: bytes
  re_default_project :: string
  re_path :: string

fun reload_step ::
  "reload_env \<Rightarrow> 'm metadata_ops \<Rightarrow> (string \<Rightarrow> string + string) \<Rightarrow> int
     \<Rightarrow> reload_phase \<times> app_config \<times> 'm \<Rightarrow> reload_phase \<times> app_config \<times> 'm" where
  "reload_step re ops read_file now (Waiting, cfg, st) =
     (case load_from_path (re_from_yaml re) read_file (re_path re) of
        Inl _ \<Rightarrow> (Waiting, cfg, st)
      | Inr new_cfg \<Rightarrow>
          (case seed_collect (re_env re) (re_default_project re) (gateway_keys new_cfg) [] [] of
             Inl _ \<Rightarrow> (Publishing new_cfg, cfg, st)
           | Inr (by_project, to_upsert) \<Rightarrow>
               (Upserting new_cfg (map (seeded_key (re_keyed_hash re) (re_master re) (re_default_project re)) to_upsert) by_project, cfg, st)))"
| "reload_step re ops read_file now (Upserting new_cfg [] by_project, cfg, st) = (Pruning new_cfg by_project, cfg, st)"
| "reload_step re ops read_file now (Upserting new_cfg (k # ks) by_project, cfg, st) =
     (case upsert_seeded_key ops st now k of
        (st', Inl _) \<Rightarrow> (Publishing new_cfg, cfg, st')
      | (st', Inr _) \<Rightarrow> (Upserting new_cfg ks by_project, cfg, st'))"
| "reload_step re ops read_file now (Pruning new_cfg [], cfg, st) =
     (Publishing new_cfg, cfg, fst (seed_prune_default ops (re_default_project re) (gateway_keys new_cfg) st))"
| "reload_step re ops read_file now (Pruning new_cfg ((project, ids) # ps), cfg, st) =
     (case prune_seeded_keys_not_in ops st project ids of
        (st', Inl _) \<Rightarrow> (Publishing new_cfg, cfg, st')
      | (st', Inr _) \<Rightarrow> (Pruning new_cfg ps, cfg, st'))"
| "reload_step re ops read_file now (Publishing new_cfg, cfg, st) = (Waiting, new_cfg, st)"

section \<open>A reload on its own\<close>

text \<open>What is left of a reload, as one function of the store.\<close>

definition prunes_left :: "reload_env \<Rightarrow> 'm metadata_ops \<Rightarrow> app_config \<Rightarrow> (string \<times> string list) list \<Rightarrow> 'm \<Rightarrow> 'm" where
  "prunes_left re ops new ps st =
     (case seed_prunes ops ps st of (st1, Inl e) \<Rightarrow> st1
      | (st1, Inr _) \<Rightarrow> fst (seed_prune_default ops (re_default_project re) (gateway_keys new) st1))"

definition upserts_left ::
  "reload_env \<Rightarrow> 'm metadata_ops \<Rightarrow> int \<Rightarrow> app_config \<Rightarrow> new_gateway_key list \<Rightarrow> (string \<times> string list) list \<Rightarrow> 'm \<Rightarrow> 'm" where
  "upserts_left re ops now new ks bp st =
     (case seed_upserts ops now ks st of (st1, Inl e) \<Rightarrow> st1 | (st1, Inr _) \<Rightarrow> prunes_left re ops new bp st1)"

lemma one_more_step:
  "\<exists>n. (f ^^ n) (f s) = t \<Longrightarrow> \<exists>n. (f ^^ n) s = t"
  by (metis funpow_simps_right(2) comp_apply)

lemma publishing_runs: "\<exists>n. (reload_step re ops rd now ^^ n) (Publishing new, cfg, st) = (Waiting, new, st)"
  by (rule exI [of _ 1]) simp

lemma prunes_run: "\<exists>n. (reload_step re ops rd now ^^ n) (Pruning new ps, cfg, st) = (Waiting, new, prunes_left re ops new ps st)"
proof (induction ps arbitrary: st)
  case Nil
  show ?case by (rule one_more_step) (simp add: prunes_left_def publishing_runs)
next
  case (Cons p ps)
  obtain project ids where p: "p = (project, ids)" by (cases p)
  obtain st1 r where r: "prune_seeded_keys_not_in ops st project ids = (st1, r)" by fastforce
  show ?case unfolding p
    by (rule one_more_step)
      (use r Cons.IH [of st1] publishing_runs in \<open>cases r; simp add: prunes_left_def\<close>)
qed

lemma upserts_run:
  "\<exists>n. (reload_step re ops rd now ^^ n) (Upserting new ks bp, cfg, st) = (Waiting, new, upserts_left re ops now new ks bp st)"
proof (induction ks arbitrary: st)
  case Nil
  show ?case by (rule one_more_step) (simp add: upserts_left_def prunes_run)
next
  case (Cons k ks)
  obtain st1 r where r: "upsert_seeded_key ops st now k = (st1, r)" by fastforce
  show ?case
    by (rule one_more_step)
      (use r Cons.IH [of st1] publishing_runs in \<open>cases r; simp add: upserts_left_def\<close>)
qed

text \<open>The steps are those of \<open>try_reload\<close>: uninterrupted they come back to waiting with its result.\<close>

lemma try_reload_left:
  "try_reload (re_from_yaml re) rd (re_env re) (re_keyed_hash re) ops (re_master re) (re_default_project re) (re_path re) now (cfg, st) =
     (case load_from_path (re_from_yaml re) rd (re_path re) of
        Inl _ \<Rightarrow> (cfg, st)
      | Inr new \<Rightarrow>
          (case seed_collect (re_env re) (re_default_project re) (gateway_keys new) [] [] of
             Inl _ \<Rightarrow> (new, st)
           | Inr (bp, up) \<Rightarrow>
               (new, upserts_left re ops now new (map (seeded_key (re_keyed_hash re) (re_master re) (re_default_project re)) up) bp st)))"
  by (auto simp: try_reload_def apply_from_config_def seed_apply_def upserts_left_def prunes_left_def split: sum.split prod.split)

lemma reload_runs:
  "\<exists>n > 0. (reload_step re ops rd now ^^ n) (Waiting, cfg, st) =
     (Waiting, try_reload (re_from_yaml re) rd (re_env re) (re_keyed_hash re) ops (re_master re) (re_default_project re) (re_path re) now (cfg, st))"
proof -
  let ?t = "(Waiting, try_reload (re_from_yaml re) rd (re_env re) (re_keyed_hash re) ops (re_master re) (re_default_project re) (re_path re) now (cfg, st))"
  have "\<exists>n. (reload_step re ops rd now ^^ n) (reload_step re ops rd now (Waiting, cfg, st)) = ?t"
    unfolding try_reload_left
    using publishing_runs upserts_run
    by (auto split: sum.split prod.split intro: exI [of _ "0 :: nat"])
  then obtain n where "(reload_step re ops rd now ^^ n) (reload_step re ops rd now (Waiting, cfg, st)) = ?t" ..
  then have "(reload_step re ops rd now ^^ Suc n) (Waiting, cfg, st) = ?t" by (simp only: funpow_simps_right comp_apply)
  then show ?thesis by blast
qed

text \<open>A reload under way is over after a number of its steps that is known from the start.\<close>

fun reload_left :: "reload_phase \<Rightarrow> nat" where
  "reload_left Waiting = 0"
| "reload_left (Upserting new ks bp) = length ks + length bp + 3"
| "reload_left (Pruning new bp) = length bp + 2"
| "reload_left (Publishing new) = 1"

lemma reload_progress:
  "fst s \<noteq> Waiting \<Longrightarrow> reload_left (fst (reload_step re ops rd now s)) < reload_left (fst s)"
  by (cases "(re, ops, rd, now, s)" rule: reload_step.cases) (auto split: sum.split prod.split)

section \<open>A reload beside other requests\<close>

text \<open>What the reload relies on: what an upsert or a prune does depends only on what the two touches leave alone.\<close>

locale seed_view_contract = touch_contract ops view hashes
  for ops :: "'m metadata_ops" and view :: "'m \<Rightarrow> 'v" and hashes :: "'v \<Rightarrow> bytes set" +
  assumes upsert_view: "view m = view m' \<Longrightarrow>
      view (fst (upsert_seeded_key ops m now k)) = view (fst (upsert_seeded_key ops m' now k))
      \<and> isl (snd (upsert_seeded_key ops m now k)) = isl (snd (upsert_seeded_key ops m' now k))"
    and prune_view: "view m = view m' \<Longrightarrow>
      view (fst (prune_seeded_keys_not_in ops m p ids)) = view (fst (prune_seeded_keys_not_in ops m' p ids))
      \<and> isl (snd (prune_seeded_keys_not_in ops m p ids)) = isl (snd (prune_seeded_keys_not_in ops m' p ids))"
begin

lemma prune_default_view: "view m = view m' \<Longrightarrow> view (fst (seed_prune_default ops d keys m)) = view (fst (seed_prune_default ops d keys m'))"
  using prune_view [of m m' d "[]"] by (auto simp: seed_prune_default_def split: prod.split sum.split)

lemma reload_step_view:
  assumes "view m = view m'"
  shows "map_prod id (map_prod id view) (reload_step re ops rd now (ph, cfg, m))
    = map_prod id (map_prod id view) (reload_step re ops rd now (ph, cfg, m'))"
proof (cases "(re, ops, rd, now, ph, cfg, m)" rule: reload_step.cases)
  case (3 re ops' rd now new k ks bp cfg m)
  then show ?thesis using upsert_view [OF assms, of now k] by (auto split: prod.split sum.split)
next
  case (4 re ops' rd now new cfg m)
  then show ?thesis using prune_default_view [OF assms] by simp
next
  case (5 re ops' rd now new p ids ps cfg m)
  then show ?thesis using prune_view [OF assms, of p ids] by (auto split: prod.split sum.split)
qed (use assms in \<open>auto split: prod.split sum.split\<close>)

end

section \<open>The stores keep the contract\<close>

lemma find_map_view: "(\<And>r. P (f r) = P r) \<Longrightarrow> List.find P (map f tbl) = map_option f (List.find P tbl)"
  by (induction tbl) auto

lemma list_ex_map_view: "(\<And>r. P (f r) = P r) \<Longrightarrow> list_ex P (map f tbl) = list_ex P tbl"
  by (induction tbl) auto

lemma filter_map_view: "(\<And>r. P (f r) = P r) \<Longrightarrow> filter P (map f tbl) = map f (filter P tbl)"
  by (induction tbl) auto

lemma untouched_sel [simp]:
  "db_fault (sq_untouched db) = db_fault db" "t_projects (sq_untouched db) = t_projects db"
  "sq_untouched (sq_untouched db) = sq_untouched db"
  "sq_untouched (db\<lparr>t_keys := ks\<rparr>) = (sq_untouched db)\<lparr>t_keys := map (\<lambda>r. r\<lparr>kt_last_used_at := None\<rparr>) ks\<rparr>"
  "t_keys (sq_untouched db) = map (\<lambda>r. r\<lparr>kt_last_used_at := None\<rparr>) (t_keys db)"
  by (simp_all add: sq_untouched_def)


lemma upsert_key_view:
  "map_sum id (map_prod sq_untouched id) (upsert_key t (sq_untouched db)) = map_sum id (map_prod sq_untouched id) (upsert_key t db)"
  by (simp add: upsert_key_def project_exists_def has_where_def list_ex_map_view upd_where_def conflict_update_def)

lemma select_key_untouched:
  "select_key (\<lambda>r. kt_id r = i) (sq_untouched db) = map_option (\<lambda>r. r\<lparr>kt_last_used_at := None\<rparr>) (select_key (\<lambda>r. kt_id r = i) db)"
  by (simp add: select_key_def find_map_view)

lemma decode_untouched: "isl (row_to_gateway_key x (r\<lparr>kt_last_used_at := u\<rparr>)) = isl (row_to_gateway_key x r)"
  by (simp add: row_to_gateway_key_def split: sum.split)

lemma read_back_untouched:
  "isl (fetched x (fetch (sq_untouched db) n (select_key (\<lambda>r. kt_id r = i)))
        (\<lambda>row. case row of None \<Rightarrow> Inl (db_error x RowNotFound) | Some r \<Rightarrow> row_to_gateway_key x r))
    = isl (fetched x (fetch db n (select_key (\<lambda>r. kt_id r = i)))
        (\<lambda>row. case row of None \<Rightarrow> Inl (db_error x RowNotFound) | Some r \<Rightarrow> row_to_gateway_key x r))"
  by (simp add: fetched_def fetch_def select_key_untouched decode_untouched split: option.split)

lemma sq_upsert_untouched:
  "sq_untouched (fst (sq_upsert_seeded_key x (sq_untouched db) now k)) = sq_untouched (fst (sq_upsert_seeded_key x db now k))
   \<and> isl (snd (sq_upsert_seeded_key x (sq_untouched db) now k)) = isl (snd (sq_upsert_seeded_key x db now k))"
proof (cases "db_fault db 0 = None \<and> db_fault db 1 = None")
  case True
  then have ok: "db_fault db 0 = None" "db_fault db 1 = None" "db_fault db (Suc 0) = None" by simp_all
  let ?t = "new_key_tuple x now KEY_ORIGIN_CONFIG k"
  show ?thesis
  proof (cases "upsert_key ?t db")
    case (Inl e)
    with upsert_key_view [of ?t db] have "upsert_key ?t (sq_untouched db) = Inl e" by (cases "upsert_key ?t (sq_untouched db)") auto
    with Inl ok show ?thesis
      by (auto simp: sq_upsert_seeded_key_def fetch_def execute_def select_key_untouched split: option.split)
  next
    case (Inr u)
    obtain db1 n where u: "u = (db1, n)" by (cases u)
    with Inr upsert_key_view [of ?t db] obtain db2 where "upsert_key ?t (sq_untouched db) = Inr (db2, n)" "sq_untouched db2 = sq_untouched db1"
      by (cases "upsert_key ?t (sq_untouched db)") auto
    with Inr u ok read_back_untouched [of x db2 2 "nk_id k"] read_back_untouched [of x db1 2 "nk_id k"] show ?thesis
      by (auto simp: sq_upsert_seeded_key_def fetch_def [of db 0] fetch_def [of "sq_untouched db" 0] execute_def select_key_untouched split: option.split)
  qed
qed (auto simp: sq_upsert_seeded_key_def fetch_def execute_def select_key_untouched split: option.split)

lemma sq_prune_untouched:
  "sq_untouched (fst (sq_prune_seeded_keys_not_in x (sq_untouched db) p ids)) = sq_untouched (fst (sq_prune_seeded_keys_not_in x db p ids))
   \<and> isl (snd (sq_prune_seeded_keys_not_in x (sq_untouched db) p ids)) = isl (snd (sq_prune_seeded_keys_not_in x db p ids))"
  by (simp add: sq_prune_seeded_keys_not_in_def executed_def execute_def delete_keys_def filter_map_view split: option.split)

interpretation sq_seed: seed_view_contract "sq_metadata_ops x" sq_untouched "\<lambda>v. kt_hash ` set (t_keys v)" for x
proof unfold_locales
  fix m m' :: sql_db and now k p ids
  assume eq: "sq_untouched m = sq_untouched m'"
  show "sq_untouched (fst (upsert_seeded_key (sq_metadata_ops x) m now k)) = sq_untouched (fst (upsert_seeded_key (sq_metadata_ops x) m' now k))
      \<and> isl (snd (upsert_seeded_key (sq_metadata_ops x) m now k)) = isl (snd (upsert_seeded_key (sq_metadata_ops x) m' now k))"
    using sq_upsert_untouched [of x m now k] sq_upsert_untouched [of x m' now k] by (simp add: sq_metadata_ops_def eq)
  show "sq_untouched (fst (prune_seeded_keys_not_in (sq_metadata_ops x) m p ids)) = sq_untouched (fst (prune_seeded_keys_not_in (sq_metadata_ops x) m' p ids))
      \<and> isl (snd (prune_seeded_keys_not_in (sq_metadata_ops x) m p ids)) = isl (snd (prune_seeded_keys_not_in (sq_metadata_ops x) m' p ids))"
    using sq_prune_untouched [of x m p ids] sq_prune_untouched [of x m' p ids] by (simp add: sq_metadata_ops_def eq)
qed

text \<open>The PostgreSQL store answers these calls as the SQLite store does.\<close>

lemma pg_seed_calls:
  "upsert_seeded_key (pg_metadata_ops x) = upsert_seeded_key (sq_metadata_ops x)"
  "prune_seeded_keys_not_in (pg_metadata_ops x) = prune_seeded_keys_not_in (sq_metadata_ops x)"
  by (simp_all add: fun_eq_iff pg_metadata_ops_def sq_metadata_ops_def pg_upsert_seeded_eq pg_prune_seeded_keys_not_in_def
      sq_prune_seeded_keys_not_in_def)

interpretation pg_seed: seed_view_contract "pg_metadata_ops x" sq_untouched "\<lambda>v. kt_hash ` set (t_keys v)" for x
  unfolding seed_view_contract_def seed_view_contract_axioms_def pg_seed_calls
  using pg_touch.touch_contract_axioms [of x] sq_seed.seed_view_contract_axioms [of x, unfolded seed_view_contract_def seed_view_contract_axioms_def]
  by blast

lemma untouched_keys_maps:
  "hm_get (untouched_keys m) k = map_option (\<lambda>r. r\<lparr>kr_last_used_at := None\<rparr>) (hm_get m k)"
  "untouched_keys (hm_insert k r m) = hm_insert k (r\<lparr>kr_last_used_at := None\<rparr>) (untouched_keys m)"
  "untouched_keys (hm_remove k m) = hm_remove k (untouched_keys m)"
  "untouched_keys (untouched_keys m) = untouched_keys m"
  "hm_values (untouched_keys m) = map (\<lambda>r. r\<lparr>kr_last_used_at := None\<rparr>) (hm_values m)"
  by (induction m) (auto simp: untouched_keys_def hm_get_def hm_insert_def hm_remove_def hm_values_def)

lemma untouched_keys_removes: "untouched_keys (fold hm_remove ks m) = fold hm_remove ks (untouched_keys m)"
  by (induction ks arbitrary: m) (simp_all add: untouched_keys_maps)

lemma forget_login_twice:
  "map_prod id (au_last_login_at_update (\<lambda>_. None)) (map_prod id (au_last_login_at_update (\<lambda>_. None)) y)
     = map_prod id (au_last_login_at_update (\<lambda>_. None)) (y :: string \<times> admin_user)"
  by (cases y) simp

lemma mem_seed_untouched:
  "mem_untouched (fst (mem_upsert_seeded_key (mem_untouched st) now k)) = mem_untouched (fst (mem_upsert_seeded_key st now k))"
  "isl (snd (mem_upsert_seeded_key (mem_untouched st) now k)) = isl (snd (mem_upsert_seeded_key st now k))"
  "mem_untouched (fst (mem_prune_seeded_keys_not_in (mem_untouched st) p ids)) = mem_untouched (fst (mem_prune_seeded_keys_not_in st p ids))"
  by (auto simp: mem_upsert_seeded_key_def mem_prune_seeded_keys_not_in_def mem_untouched_def untouched_keys_maps untouched_keys_removes
      filter_map_view forget_login_twice comp_def Let_def split: option.splits)

interpretation mem_seed: seed_view_contract mem_metadata_ops mem_untouched "\<lambda>v. kr_hash ` snd ` set (mm_keys v)"
proof unfold_locales
  fix m m' :: mem_meta and now k p ids
  assume eq: "mem_untouched m = mem_untouched m'"
  show "mem_untouched (fst (upsert_seeded_key mem_metadata_ops m now k)) = mem_untouched (fst (upsert_seeded_key mem_metadata_ops m' now k))
      \<and> isl (snd (upsert_seeded_key mem_metadata_ops m now k)) = isl (snd (upsert_seeded_key mem_metadata_ops m' now k))"
    using mem_seed_untouched(1,2) [of m now k] mem_seed_untouched(1,2) [of m' now k] by (simp add: mem_metadata_ops_def eq)
  show "mem_untouched (fst (prune_seeded_keys_not_in mem_metadata_ops m p ids)) = mem_untouched (fst (prune_seeded_keys_not_in mem_metadata_ops m' p ids))
      \<and> isl (snd (prune_seeded_keys_not_in mem_metadata_ops m p ids)) = isl (snd (prune_seeded_keys_not_in mem_metadata_ops m' p ids))"
    using mem_seed_untouched(3) [of m p ids] mem_seed_untouched(3) [of m' p ids]
    by (simp add: mem_metadata_ops_def eq mem_prune_seeded_keys_not_in_def Let_def)
qed

end
