(* ===== verification/Live.thy ===== *)
theory Live
  imports Reload
begin

text \<open>
  The whole running gateway: requests, streaming tasks and the hot reload, interleaved in any way. A handler and a task run in one piece; the
  reload, which lasts, is interrupted between any two calls of the store.
\<close>

section \<open>The running gateway\<close>

definition reload_deps :: "boot_env \<Rightarrow> crypto \<Rightarrow> string \<Rightarrow> ('m, 'l, 'k, 'c) gateway_app \<Rightarrow> reload_env" where
  "reload_deps be cy path app =
     \<lparr>re_from_yaml = be_from_yaml be, re_env = be_env be, re_keyed_hash = cy_keyed_hash cy, re_master = ah_master_key (ga_handles app),
      re_default_project = ah_default_project_id (ga_handles app), re_path = path\<rparr>"

datatype live_event = Serve server_event | ReloadStep "string \<Rightarrow> string + string" int

type_synonym ('m, 'l, 'k, 'c) live_state = "reload_phase \<times> app_config \<times> ('m, 'l, 'k, 'c) server_state"

fun live_step ::
  "externals \<Rightarrow> crypto \<Rightarrow> extractors \<Rightarrow> reload_env \<Rightarrow> ('m, 'l, 'k, 'c) gateway_app \<Rightarrow> live_event
     \<Rightarrow> ('m, 'l, 'k, 'c) live_state \<Rightarrow> ('m, 'l, 'k, 'c) live_state \<times> answer list" where
  "live_step ex cy xt re app (Serve ev) (ph, cfg, s) =
     (case serve_event ex cy xt (with_config cfg app) ev s of (s', answers) \<Rightarrow> ((ph, cfg, s'), answers))"
| "live_step ex cy xt re app (ReloadStep rd now) (ph, cfg, s) =
     (case reload_step re (ga_metadata app) rd now (ph, cfg, sv_meta s) of (ph', cfg', m) \<Rightarrow> ((ph', cfg', s\<lparr>sv_meta := m\<rparr>), []))"

fun live_all ::
  "externals \<Rightarrow> crypto \<Rightarrow> extractors \<Rightarrow> reload_env \<Rightarrow> ('m, 'l, 'k, 'c) gateway_app \<Rightarrow> live_event list
     \<Rightarrow> ('m, 'l, 'k, 'c) live_state \<Rightarrow> ('m, 'l, 'k, 'c) live_state \<times> answer list" where
  "live_all ex cy xt re app [] s = (s, [])"
| "live_all ex cy xt re app (ev # evs) s =
     (case live_step ex cy xt re app ev s of (s1, as) \<Rightarrow> (case live_all ex cy xt re app evs s1 of (s2, bs) \<Rightarrow> (s2, as @ bs)))"

section \<open>The invariant of the running gateway\<close>

fun phase_valid :: "reload_phase \<Rightarrow> bool" where
  "phase_valid Waiting = True"
| "phase_valid (Upserting new ks bp) = (validate new = Inr ())"
| "phase_valid (Pruning new bp) = (validate new = Inr ())"
| "phase_valid (Publishing new) = (validate new = Inr ())"

lemma prune_default_called: "called ops st (fst (seed_prune_default ops d keys st))"
  using called.call [of "PruneSeeded d []" ops st]
  by (auto simp: seed_prune_default_def intro: called.unchanged split: prod.split sum.split)

text \<open>A step of the reload is at most one call of the store, and publishes only what passed validation.\<close>

lemma reload_step_called:
  "reload_step re ops rd now (ph, cfg, st) = (ph', cfg', st') \<Longrightarrow> called ops st st'"
proof (induction re ops rd now "(ph, cfg, st)" arbitrary: ph cfg st rule: reload_step.induct)
  case (3 re ops rd now new k ks bp cfg st)
  then show ?case using called.call [of "UpsertSeededKey now k" ops st] by (auto split: prod.splits sum.splits)
next
  case (4 re ops rd now new cfg st)
  then show ?case using prune_default_called by auto
next
  case (5 re ops rd now new project ids ps cfg st)
  then show ?case using called.call [of "PruneSeeded project ids" ops st] by (auto split: prod.splits sum.splits)
qed (auto intro: called.unchanged split: prod.splits sum.splits)

lemma reload_step_valid:
  "reload_step re ops rd now (ph, cfg, st) = (ph', cfg', st') \<Longrightarrow> phase_valid ph \<Longrightarrow> validate cfg = Inr () \<Longrightarrow>
     phase_valid ph' \<and> validate cfg' = Inr ()"
  by (induction re ops rd now "(ph, cfg, st)" arbitrary: ph cfg st rule: reload_step.induct)
    (auto dest: load_from_path_valid split: prod.splits sum.splits)

lemma server_ok_with_config: "server_ok x (with_config cfg app) s = server_ok x app s"
  by (simp add: server_ok_def)

definition live_ok :: "sql_ext \<Rightarrow> ('m, 'l, 'k, 'c) gateway_app \<Rightarrow> (sql_db, 'l, 'k, 'c) live_state \<Rightarrow> bool" where
  "live_ok x app ls \<longleftrightarrow> (case ls of (ph, cfg, s) \<Rightarrow> phase_valid ph \<and> validate cfg = Inr () \<and> server_ok x app s)"

lemma live_step_ok:
  assumes "ga_metadata app = sq_metadata_ops x" "live_ok x app ls"
  shows "live_ok x app (fst (live_step ex cy xt re app ev ls))"
proof -
  obtain ph cfg s where ls: "ls = (ph, cfg, s)" by (cases ls)
  with assms(2) have ok: "phase_valid ph" "validate cfg = Inr ()" "server_ok x app s" by (simp_all add: live_ok_def)
  show ?thesis
  proof (cases ev)
    case (Serve e)
    have "server_ok x (with_config cfg app) (fst (serve_all ex cy xt (with_config cfg app) [e] s))"
      using assms(1) ok(3) by (intro serve_all_ok) (simp_all add: server_ok_with_config)
    then show ?thesis using ok by (auto simp: Serve ls live_ok_def server_ok_with_config split: prod.split)
  next
    case (ReloadStep rd now)
    obtain ph' cfg' m where r: "reload_step re (ga_metadata app) rd now (ph, cfg, sv_meta s) = (ph', cfg', m)" by (metis prod.collapse)
    from called_ok [OF ok(3)] reload_step_called [OF r] assms(1) have "server_ok x app (s\<lparr>sv_meta := m\<rparr>)" by simp
    with reload_step_valid [OF r ok(1,2)] show ?thesis by (simp add: ReloadStep ls live_ok_def r)
  qed
qed

lemma live_all_ok:
  assumes "ga_metadata app = sq_metadata_ops x"
  shows "live_ok x app ls \<Longrightarrow> live_ok x app (fst (live_all ex cy xt re app evs ls))"
proof (induction evs arbitrary: ls)
  case (Cons ev evs)
  from Cons.IH [OF live_step_ok [OF assms Cons.prems]] show ?case by (simp add: split_def)
qed simp



section \<open>A reload is not disturbed by traffic\<close>

fun reloads_of :: "live_event list \<Rightarrow> ((string \<Rightarrow> string + string) \<times> int) list" where
  "reloads_of [] = []"
| "reloads_of (Serve ev # evs) = reloads_of evs"
| "reloads_of (ReloadStep rd now # evs) = (rd, now) # reloads_of evs"

definition reload_alone ::
  "reload_env \<Rightarrow> 'm metadata_ops \<Rightarrow> ((string \<Rightarrow> string + string) \<times> int) list
     \<Rightarrow> reload_phase \<times> app_config \<times> 'm \<Rightarrow> reload_phase \<times> app_config \<times> 'm" where
  "reload_alone re ops ts s = fold (\<lambda>(rd, now). reload_step re ops rd now) ts s"

fun live_outside :: "externals \<Rightarrow> crypto \<Rightarrow> ('m, 'l, 'k, 'c) gateway_app \<Rightarrow> live_event \<Rightarrow> bool" where
  "live_outside ex cy app (Serve ev) = outside ex cy app ev"
| "live_outside ex cy app (ReloadStep rd now) = True"

lemma outside_with_config: "outside ex cy (with_config cfg app) ev = outside ex cy app ev"
  by (cases ev) (simp_all add: outsider_def)

context seed_view_contract
begin

lemma live_all_view:
  assumes "ga_metadata app = ops"
  shows "list_all (live_outside ex cy app) evs \<Longrightarrow> view (sv_meta s) = view m \<Longrightarrow> live_all ex cy xt re app evs (ph, cfg, s) = ((ph', cfg', s'), as) \<Longrightarrow>
    map_prod id (map_prod id view) (reload_alone re ops (reloads_of evs) (ph, cfg, m)) = (ph', cfg', view (sv_meta s'))
    \<and> sv_pricing s' = sv_pricing s \<and> list_all login_only as"
proof (induction evs arbitrary: ph cfg s m as)
  case Nil
  then show ?case by (simp add: reload_alone_def)
next
  case (Cons ev evs)
  obtain ph1 cfg1 s1 as1 as2 where st: "live_step ex cy xt re app ev (ph, cfg, s) = ((ph1, cfg1, s1), as1)"
      "live_all ex cy xt re app evs (ph1, cfg1, s1) = ((ph', cfg', s'), as2)" "as = as1 @ as2"
    using Cons.prems(3) by (auto split: prod.splits)
  have out: "list_all (live_outside ex cy app) evs" using Cons.prems(1) by simp
  show ?case
  proof (cases ev)
    case (Serve e)
    with st(1) have e: "serve_event ex cy xt (with_config cfg app) e s = (s1, as1)" "ph1 = ph" "cfg1 = cfg" by (auto split: prod.splits)
    have "ga_metadata (with_config cfg app) = ops" "outside ex cy (with_config cfg app) e"
      using assms Cons.prems(1) Serve by (simp_all add: outside_with_config)
    from serve_event_outside [OF this e(1)] Cons.prems(2) have "view (sv_meta s1) = view m" "sv_pricing s1 = sv_pricing s" "list_all login_only as1"
      by simp_all
    with Cons.IH [OF out _ st(2)] e(2,3) show ?thesis by (simp add: Serve st(3))
  next
    case (ReloadStep rd now)
    obtain m2 where r: "reload_step re ops rd now (ph, cfg, sv_meta s) = (ph1, cfg1, m2)" "s1 = s\<lparr>sv_meta := m2\<rparr>" "as1 = []"
      using st(1) assms ReloadStep by (auto split: prod.splits)
    obtain m3 where r3: "reload_step re ops rd now (ph, cfg, m) = (ph1, cfg1, m3)" "view m2 = view m3"
      using reload_step_view [OF Cons.prems(2), of re rd now ph cfg] r(1) by (cases "reload_step re ops rd now (ph, cfg, m)") auto
    have "view (sv_meta s1) = view m3" using r(2) r3(2) by simp
    with Cons.IH [OF out _ st(2)] r r3 show ?thesis by (simp add: ReloadStep st(3) reload_alone_def)
  qed
qed

end

text \<open>C26: A hot reload and the traffic beside it do not disturb each other. Interleave the steps of reloads in any way with streaming tasks and
  requests of which none authenticates an administrator, on the SQLite or the PostgreSQL store. The reload is at every
  moment where it would be had it run alone, the configuration in force is the one it would have published, and the
  store is what it would be alone, but for the times a key was last used and an administrator last logged in.\<close>

theorem reload_undisturbed:
  assumes "list_all (live_outside ex cy app) evs" "ga_metadata app = sq_metadata_ops x \<or> ga_metadata app = pg_metadata_ops x"
    and "live_all ex cy xt re app evs (ph, cfg, s) = ((ph', cfg', s'), answers)"
    and "reload_alone re (ga_metadata app) (reloads_of evs) (ph, cfg, sv_meta s) = (ph2, cfg2, m)"
  shows "ph' = ph2 \<and> cfg' = cfg2 \<and> sq_untouched (sv_meta s') = sq_untouched m"
  using assms(2) sq_seed.live_all_view [OF _ assms(1) refl assms(3), of x] pg_seed.live_all_view [OF _ assms(1) refl assms(3), of x] assms(4) by auto

text \<open>The same on the in-memory store.\<close>

lemma mem_reload_undisturbed:
  assumes "list_all (live_outside ex cy app) evs" "ga_metadata app = mem_metadata_ops"
    and "live_all ex cy xt re app evs (ph, cfg, s) = ((ph', cfg', s'), answers)"
    and "reload_alone re mem_metadata_ops (reloads_of evs) (ph, cfg, sv_meta s) = (ph2, cfg2, m)"
  shows "ph' = ph2 \<and> cfg' = cfg2 \<and> mem_untouched (sv_meta s') = mem_untouched m"
  using mem_seed.live_all_view [OF assms(2,1) refl assms(3)] assms(4) by auto

section \<open>The configuration file has the last word on its keys\<close>

abbreviation forget_use :: "gateway_key_row \<Rightarrow> gateway_key_row" where
  "forget_use r \<equiv> r\<lparr>kr_last_used_at := None\<rparr>"

lemma sq_key_untouched: "sq_key x (sq_untouched db) i = map_option forget_use (sq_key x db i)"
proof -
  have "sq_key x db i = map_option (key_row x) (List.find (\<lambda>r. kt_id r = i) (t_keys db))" for db
    by (simp add: sq_key_def mem_key_def sq_abs_def)
  then show ?thesis by (simp add: find_map_view option.map_comp comp_def key_row_def)
qed

lemma sq_key_same:
  assumes "sq_untouched db = sq_untouched db'"
  shows "(\<exists>r. sq_key x db i = Some r \<and> forget_use r = forget_use r0) = (\<exists>r. sq_key x db' i = Some r \<and> forget_use r = forget_use r0)"
proof -
  have "map_option forget_use (sq_key x db i) = map_option forget_use (sq_key x db' i)"
    using assms by (simp flip: sq_key_untouched)
  then show ?thesis by (cases "sq_key x db i"; cases "sq_key x db' i") auto
qed

text \<open>A request to the proxy whose token is not the secret of any stored key.\<close>

lemma sq_token_refused:
  assumes "ga_metadata app = sq_metadata_ops x" "sq_working x (sv_meta s)" "extract_bearer (ex_to_str ex) (wr_headers req) = Some token"
    and "\<forall>j r. sq_key x (sv_meta s) j = Some r \<longrightarrow> kr_hash r \<noteq> derive_hash (cy_keyed_hash cy) (ah_master_key (ga_handles app)) token"
    and "xt_route xt (remdups (map fst build_router)) (wr_path req) = Some (''/v1/:namespace/*tail'', ps)" "xt_accepts xt OnAny (wr_method req)"
  shows "snd (serve_request ex cy xt app dw req s) = Refused ApiUnauthorized"
proof -
  let ?h = "derive_hash (cy_keyed_hash cy) (ah_master_key (ga_handles app)) token"
  obtain r where r: "find_key_by_hash (sq_metadata_ops x) (sv_meta s) ?h = Inr r" using sq_find_answers [OF assms(2)] by blast
  with sq_keys.find_sound [OF assms(2), of ?h] assms(4) have "r = None" by (cases r) auto
  then show ?thesis
    using r assms(1,3,5) proxy_route_found [OF assms(6)] by (simp add: serve_request_def gateway_key_auth_def split: option.split)
qed

lemma forget_use_fields:
  "forget_use r = forget_use r' \<Longrightarrow> kr_hash r = kr_hash r' \<and> kr_project_id r = kr_project_id r' \<and> row_usable t r = row_usable t r'"
  by (cases r; cases r') (simp add: row_usable_def)

text \<open>The keys after a successful application, up to later touches.\<close>

lemma reseeded:
  assumes "sq_working x db0" "distinct (map gk_id keys)" "seed_apply env kh (sq_metadata_ops x) master now dflt keys db0 = (db1, Inr ())"
    and "sq_untouched db = sq_untouched db1"
  shows "sq_key x db0 i = Some row \<Longrightarrow> admin_managed row \<Longrightarrow> \<exists>r. sq_key x db i = Some r \<and> forget_use r = forget_use row"
    and "k \<in> set keys \<Longrightarrow> \<exists>pt r. resolve_secret env k = Inr pt \<and> parse_gateway_key pt \<noteq> None \<and> sq_key x db (gk_id k) = Some r
      \<and> kr_hash r = derive_hash kh master pt \<and> kr_project_id r = key_project dflt k \<and> (\<forall>t. row_usable t r)"
    and "sq_key x db j = Some r \<Longrightarrow> (\<exists>k \<in> set keys. \<exists>pt. resolve_secret env k = Inr pt \<and> kr_hash r = derive_hash kh master pt)
      \<or> (\<exists>r0. sq_key x db0 j = Some r0 \<and> kr_hash r0 = kr_hash r \<and> j \<notin> gk_id ` set keys
           \<and> (admin_managed r0 \<or> kr_project_id r0 \<notin> insert dflt (key_project dflt ` set keys)))"
proof -
  note same = sq_key_same [OF assms(4), of x]
  note res = sq_keys.seed_apply_result [OF assms(1-3)]
  show "\<exists>r. sq_key x db i = Some r \<and> forget_use r = forget_use row" if "sq_key x db0 i = Some row" "admin_managed row"
    using sq_keys.seed_apply_keeps_admin [OF assms(1,3)] that same [of i row] by (auto simp: keeps_admin_keys_def)
  have decl: "\<exists>pt r. resolve_secret env k = Inr pt \<and> parse_gateway_key pt \<noteq> None \<and> sq_key x db (gk_id k) = Some r
      \<and> kr_hash r = derive_hash kh master pt \<and> kr_project_id r = key_project dflt k \<and> (\<forall>t. row_usable t r)" if k: "k \<in> set keys" for k
  proof -
    from res k obtain pt r1 where r1: "resolve_secret env k = Inr pt" "parse_gateway_key pt \<noteq> None" "sq_key x db1 (gk_id k) = Some r1"
        "kr_hash r1 = derive_hash kh master pt" "kr_project_id r1 = key_project dflt k" "kr_status r1 = ''active''" "kr_expires_at r1 = None" by blast
    with same [of "gk_id k" r1] obtain r where "sq_key x db (gk_id k) = Some r" "forget_use r = forget_use r1" by auto
    with forget_use_fields [of r r1] r1 show ?thesis by (auto simp: row_usable_def)
  qed
  then show "k \<in> set keys \<Longrightarrow> \<exists>pt r. resolve_secret env k = Inr pt \<and> parse_gateway_key pt \<noteq> None \<and> sq_key x db (gk_id k) = Some r
      \<and> kr_hash r = derive_hash kh master pt \<and> kr_project_id r = key_project dflt k \<and> (\<forall>t. row_usable t r)" .
  assume r: "sq_key x db j = Some r"
  show "(\<exists>k \<in> set keys. \<exists>pt. resolve_secret env k = Inr pt \<and> kr_hash r = derive_hash kh master pt)
      \<or> (\<exists>r0. sq_key x db0 j = Some r0 \<and> kr_hash r0 = kr_hash r \<and> j \<notin> gk_id ` set keys
           \<and> (admin_managed r0 \<or> kr_project_id r0 \<notin> insert dflt (key_project dflt ` set keys)))"
  proof (cases "j \<in> gk_id ` set keys")
    case True
    then obtain k where k: "k \<in> set keys" "j = gk_id k" by blast
    with decl [OF k(1)] r show ?thesis by fastforce
  next
    case False
    from same [of j r] r obtain r1 where r1: "sq_key x db1 j = Some r1" "forget_use r1 = forget_use r" by auto
    with res False have "sq_key x db0 j = Some r1" "admin_managed r1 \<or> kr_project_id r1 \<notin> insert dflt (key_project dflt ` set keys)"
      by (auto split: option.splits if_splits)
    with False forget_use_fields [OF r1(2)] show ?thesis by auto
  qed
qed

lemma reload_alone_replicate: "reload_alone re ops (replicate n (rd, now)) s = (reload_step re ops rd now ^^ n) s"
  by (induction n arbitrary: s) (simp_all add: reload_alone_def funpow_swap1)

text \<open>A token that a new configuration withdraws: every stored key with its hash was seeded by an earlier configuration, belongs to a project
  that the new one governs and is not declared any more, and no declared secret has the same hash.\<close>

definition withdrawn ::
  "sql_ext \<Rightarrow> reload_env \<Rightarrow> gateway_key_config list \<Rightarrow> sql_db \<Rightarrow> string \<Rightarrow> bool" where
  "withdrawn x re keys db token \<longleftrightarrow>
     (\<forall>j r. sq_key x db j = Some r \<and> kr_hash r = derive_hash (re_keyed_hash re) (re_master re) token \<longrightarrow>
        j \<notin> gk_id ` set keys \<and> \<not> admin_managed r \<and> kr_project_id r \<in> insert (re_default_project re) (key_project (re_default_project re) ` set keys))
     \<and> (\<forall>k \<in> set keys. \<forall>pt. resolve_secret (re_env re) k = Inr pt \<longrightarrow>
          derive_hash (re_keyed_hash re) (re_master re) pt \<noteq> derive_hash (re_keyed_hash re) (re_master re) token)"

lemma withdrawn_gone:
  assumes "sq_working x db0" "distinct (map gk_id keys)"
    and "seed_apply (re_env re) (re_keyed_hash re) (sq_metadata_ops x) (re_master re) now (re_default_project re) keys db0 = (db1, Inr ())"
    and "sq_untouched db = sq_untouched db1" "withdrawn x re keys db0 token"
  shows "\<forall>j r. sq_key x db j = Some r \<longrightarrow> kr_hash r \<noteq> derive_hash (re_keyed_hash re) (re_master re) token"
proof (intro allI impI)
  fix j r
  assume "sq_key x db j = Some r"
  from reseeded(3) [OF assms(1-4) this] assms(5) show "kr_hash r \<noteq> derive_hash (re_keyed_hash re) (re_master re) token"
    unfolding withdrawn_def by metis
qed

text \<open>A request that reaches the proxy handler as this principal, with the answer the handler gives.\<close>

definition proxied_as ::
  "externals \<Rightarrow> crypto \<Rightarrow> extractors \<Rightarrow> ('m, 'l, 'k, 'c) gateway_app \<Rightarrow> draws \<Rightarrow> wire_request \<Rightarrow> ('m, 'l, 'k, 'c) server_state
     \<Rightarrow> gateway_key_principal \<Rightarrow> bool" where
  "proxied_as ex cy xt app dw req s p \<longleftrightarrow>
     (\<exists>ps namespace tail m. xt_route xt (remdups (map fst build_router)) (wr_path req) = Some (''/v1/:namespace/*tail'', ps)
        \<and> xt_path2 xt ps = Inr (namespace, tail)
        \<and> (let (st', resp, out) = proxy_handler ex (proxy_app app (sv_pricing s)) (dw_upstream dw) (dw_clocks dw)
               \<lparr>rq_id = dw_uuid dw, rq_principal = p, rq_namespace = namespace, rq_tail = tail, rq_remote_ip = wr_remote_ip req,
                rq_headers = wr_headers req, rq_method = wr_method req, rq_body = wr_body req\<rparr> (sv_stores s)
            in serve_request ex cy xt app dw req s = (s\<lparr>sv_meta := m, sv_stores := st'\<rparr>, Proxied resp out)))"

text \<open>A request of the proxy that bears this token.\<close>

definition bears :: "externals \<Rightarrow> extractors \<Rightarrow> wire_request \<Rightarrow> string \<Rightarrow> bool" where
  "bears ex xt req token \<longleftrightarrow> extract_bearer (ex_to_str ex) (wr_headers req) = Some token \<and> xt_accepts xt OnAny (wr_method req)
     \<and> (\<exists>ps namespace tail. xt_route xt (remdups (map fst build_router)) (wr_path req) = Some (''/v1/:namespace/*tail'', ps)
          \<and> xt_path2 xt ps = Inr (namespace, tail))"

lemma sq_bearer_proxied:
  assumes "ga_metadata app = sq_metadata_ops x" "sq_working x (sv_meta s)" "sq_key x (sv_meta s) i = Some row"
    and "kr_hash row = derive_hash (cy_keyed_hash cy) (ah_master_key (ga_handles app)) pt" "parse_gateway_key pt \<noteq> None"
    and "row_usable (dw_ms dw) row" "bears ex xt req pt"
    and "\<forall>j r. sq_key x (sv_meta s) j = Some r \<and> kr_hash r = derive_hash (cy_keyed_hash cy) (ah_master_key (ga_handles app)) pt \<longrightarrow> j = i"
  shows "proxied_as ex cy xt app dw req s \<lparr>gp_key_id = i, gp_project_id = kr_project_id row\<rparr>"
proof -
  from assms(7) obtain ps namespace tail where b: "extract_bearer (ex_to_str ex) (wr_headers req) = Some pt" "xt_accepts xt OnAny (wr_method req)"
      "xt_route xt (remdups (map fst build_router)) (wr_path req) = Some (''/v1/:namespace/*tail'', ps)" "xt_path2 xt ps = Inr (namespace, tail)"
    by (auto simp: bears_def)
  from sq_key_proxied [OF assms(1-6) b(1) assms(8) b(3,2,4)] b(3,4) show ?thesis
    unfolding proxied_as_def Let_def split_def by blast
qed

text \<open>Both kinds of request, after the keys were applied.\<close>

lemma reseeded_served:
  assumes "ga_metadata app = sq_metadata_ops x" "sq_working x db0" "sq_working x (sv_meta s)" "distinct (map gk_id keys)"
    and "seed_apply (re_env re) (re_keyed_hash re) (sq_metadata_ops x) (re_master re) now (re_default_project re) keys db0 = (db1, Inr ())"
    and "sq_untouched (sv_meta s) = sq_untouched db1" "re_keyed_hash re = cy_keyed_hash cy" "re_master re = ah_master_key (ga_handles app)"
  shows "k \<in> set keys \<Longrightarrow> \<exists>secret. resolve_secret (re_env re) k = Inr secret \<and> (\<forall>dw req. bears ex xt req secret
        \<and> (\<forall>j r. sq_key x (sv_meta s) j = Some r \<and> kr_hash r = derive_hash (re_keyed_hash re) (re_master re) secret \<longrightarrow> j = gk_id k) \<longrightarrow>
        proxied_as ex cy xt app dw req s \<lparr>gp_key_id = gk_id k, gp_project_id = key_project (re_default_project re) k\<rparr>)"
    and "bears ex xt req token \<Longrightarrow> withdrawn x re keys db0 token \<Longrightarrow> snd (serve_request ex cy xt app dw req s) = Refused ApiUnauthorized"
proof -
  show "\<exists>secret. resolve_secret (re_env re) k = Inr secret \<and> (\<forall>dw req. bears ex xt req secret
        \<and> (\<forall>j r. sq_key x (sv_meta s) j = Some r \<and> kr_hash r = derive_hash (re_keyed_hash re) (re_master re) secret \<longrightarrow> j = gk_id k) \<longrightarrow>
        proxied_as ex cy xt app dw req s \<lparr>gp_key_id = gk_id k, gp_project_id = key_project (re_default_project re) k\<rparr>)"
    if k: "k \<in> set keys"
  proof -
    from reseeded(2) [OF assms(2,4-6) k] obtain pt r where r: "resolve_secret (re_env re) k = Inr pt" "parse_gateway_key pt \<noteq> None"
        "sq_key x (sv_meta s) (gk_id k) = Some r" "kr_hash r = derive_hash (re_keyed_hash re) (re_master re) pt"
        "kr_project_id r = key_project (re_default_project re) k" "\<And>t. row_usable t r" by auto
    from sq_bearer_proxied [OF assms(1,3) r(3) r(4) [unfolded assms(7,8)] r(2) r(6)] r(1,5) show ?thesis
      unfolding assms(7,8) by metis
  qed
  show "snd (serve_request ex cy xt app dw req s) = Refused ApiUnauthorized" if b: "bears ex xt req token" and wd: "withdrawn x re keys db0 token"
  proof -
    note gone = withdrawn_gone [OF assms(2,4-6) wd, unfolded assms(7,8)]
    from b obtain ps where "extract_bearer (ex_to_str ex) (wr_headers req) = Some token" "xt_accepts xt OnAny (wr_method req)"
        "xt_route xt (remdups (map fst build_router)) (wr_path req) = Some (''/v1/:namespace/*tail'', ps)" by (auto simp: bears_def)
    from sq_token_refused [OF assms(1,3) this(1) gone this(3,2)] show ?thesis .
  qed
qed

text \<open>C25: After a hot reload the configuration file has the last word on the keys it declares. Suppose the file loads, and the store accepts
  its keys. There is a number of steps after which the reload is over, whatever requests without administrator's credentials and
  streaming tasks come before, between and after these steps: then the new configuration is in force; every
  key created through the admin API is there, unchanged but for the time of its last use; a request that bears the secret of a
  declared key reaches the proxy handler, as that key and its project and under the new configuration, unless another stored
  key has the same keyed hash; and a request that bears the secret of a key that the new configuration withdraws is
  refused.\<close>

theorem reload_is_authority:
  assumes "ga_metadata app = sq_metadata_ops x" "live_ok x app (Waiting, cfg, s)" "re = reload_deps be cy path app"
    and "load_from_path (be_from_yaml be) rd path = Inr new"
    and "seed_apply (be_env be) (cy_keyed_hash cy) (sq_metadata_ops x) (ah_master_key (ga_handles app)) now (ah_default_project_id (ga_handles app))
      (gateway_keys new) (sv_meta s) = (db1, Inr ())"
  shows "\<exists>n > 0. \<forall>evs ph' cfg' s' answers.
    reloads_of evs = replicate n (rd, now) \<and> list_all (live_outside ex cy app) evs
    \<and> live_all ex cy xt re app evs (Waiting, cfg, s) = ((ph', cfg', s'), answers) \<longrightarrow>
    ph' = Waiting \<and> cfg' = new
    \<and> (\<forall>i row. sq_key x (sv_meta s) i = Some row \<and> admin_managed row \<longrightarrow> (\<exists>r. sq_key x (sv_meta s') i = Some r \<and> forget_use r = forget_use row))
    \<and> (\<forall>k \<in> set (gateway_keys new). \<exists>secret. resolve_secret (be_env be) k = Inr secret
         \<and> (\<forall>dw req. bears ex xt req secret
              \<and> (\<forall>j r. sq_key x (sv_meta s') j = Some r \<and> kr_hash r = derive_hash (cy_keyed_hash cy) (ah_master_key (ga_handles app)) secret \<longrightarrow> j = gk_id k) \<longrightarrow>
              proxied_as ex cy xt (with_config new app) dw req s'
                \<lparr>gp_key_id = gk_id k, gp_project_id = key_project (ah_default_project_id (ga_handles app)) k\<rparr>))
    \<and> (\<forall>dw req token. bears ex xt req token \<and> withdrawn x re (gateway_keys new) (sv_meta s) token \<longrightarrow>
         snd (serve_request ex cy xt (with_config new app) dw req s') = Refused ApiUnauthorized)"
proof -
  have re: "re_from_yaml re = be_from_yaml be" "re_env re = be_env be" "re_keyed_hash re = cy_keyed_hash cy" "re_path re = path"
      "re_master re = ah_master_key (ga_handles app)" "re_default_project re = ah_default_project_id (ga_handles app)"
    using assms(3) by (simp_all add: reload_deps_def)
  obtain n where n: "n > 0" "(reload_step re (sq_metadata_ops x) rd now ^^ n) (Waiting, cfg, sv_meta s) = (Waiting, new, db1)"
    using reload_runs [of re "sq_metadata_ops x" rd now cfg "sv_meta s"] assms(4,5) by (auto simp: re try_reload_def apply_from_config_def)
  have w: "sq_working x (sv_meta s)" using assms(2) by (simp add: live_ok_def server_ok_def)
  note distinct = valid_keys_distinct [OF load_from_path_valid [OF assms(4)]]
  have app: "ga_metadata (with_config new app) = sq_metadata_ops x" "re_master re = ah_master_key (ga_handles (with_config new app))"
    using assms(1) re by simp_all
  show ?thesis
  proof (intro exI [of _ n] conjI [OF n(1)] allI impI; elim conjE)
    fix evs ph' cfg' s' answers
    assume run: "reloads_of evs = replicate n (rd, now)" "list_all (live_outside ex cy app) evs"
      "live_all ex cy xt re app evs (Waiting, cfg, s) = ((ph', cfg', s'), answers)"
    from sq_seed.live_all_view [OF assms(1) run(2) refl run(3)] n(2)
    have reloaded: "ph' = Waiting \<and> cfg' = new" and same: "sq_untouched (sv_meta s') = sq_untouched db1"
      by (simp_all add: run(1) reload_alone_replicate)
    have w': "sq_working x (sv_meta s')"
      using live_all_ok [OF assms(1,2), of ex cy xt re evs] run(3) by (simp add: live_ok_def server_ok_def)
    note served = reseeded_served [OF app(1) w w' distinct assms(5) [folded re] same re(3) app(2), unfolded re]
    show "ph' = Waiting \<and> cfg' = new
    \<and> (\<forall>i row. sq_key x (sv_meta s) i = Some row \<and> admin_managed row \<longrightarrow> (\<exists>r. sq_key x (sv_meta s') i = Some r \<and> forget_use r = forget_use row))
    \<and> (\<forall>k \<in> set (gateway_keys new). \<exists>secret. resolve_secret (be_env be) k = Inr secret
         \<and> (\<forall>dw req. bears ex xt req secret
              \<and> (\<forall>j r. sq_key x (sv_meta s') j = Some r \<and> kr_hash r = derive_hash (cy_keyed_hash cy) (ah_master_key (ga_handles app)) secret \<longrightarrow> j = gk_id k) \<longrightarrow>
              proxied_as ex cy xt (with_config new app) dw req s'
                \<lparr>gp_key_id = gk_id k, gp_project_id = key_project (ah_default_project_id (ga_handles app)) k\<rparr>))
    \<and> (\<forall>dw req token. bears ex xt req token \<and> withdrawn x re (gateway_keys new) (sv_meta s) token \<longrightarrow>
         snd (serve_request ex cy xt (with_config new app) dw req s') = Refused ApiUnauthorized)"
      using reloaded reseeded(1) [OF w distinct assms(5) same] served by (intro conjI ballI) blast+
  qed
qed

section \<open>What a reload leaves alone\<close>

text \<open>When one declared secret cannot be resolved, the configuration is published and no key is changed: keys that the file no longer
  declares stay valid.\<close>

lemma unresolved_secret_skips_keys:
  assumes "load_from_path (re_from_yaml re) rd (re_path re) = Inr new" "k \<in> set (gateway_keys new)" "resolve_secret (re_env re) k = Inl e"
  shows "try_reload (re_from_yaml re) rd (re_env re) kh ops master (re_default_project re) (re_path re) now (cfg, st) = (new, st)"
proof -
  have "isl (seed_collect (re_env re) d ks bp up)" if "k \<in> set ks" for d ks bp up
    using that assms(3)
    by (induction "re_env re" d ks bp up rule: seed_collect.induct) (auto split: sum.split option.split)
  then obtain e' where "seed_collect (re_env re) (re_default_project re) (gateway_keys new) [] [] = Inl e'"
    using assms(2) by (meson isl_def)
  with assms(1) show ?thesis by (simp add: try_reload_def apply_from_config_def seed_apply_def)
qed

text \<open>A key seeded into a project of its own survives the reload that removes the last declared key of that project.\<close>

lemma ungoverned_project_keeps_keys:
  assumes "sq_working x db" "validate new = Inr ()"
    and "seed_apply env kh (sq_metadata_ops x) master now dflt (gateway_keys new) db = (db', Inr ())"
    and "sq_key x db i = Some row" "i \<notin> gk_id ` set (gateway_keys new)" "kr_project_id row \<noteq> dflt"
    and "\<forall>k \<in> set (gateway_keys new). key_project dflt k \<noteq> kr_project_id row"
  shows "sq_key x db' i = Some row"
  using sq_keys.seed_apply_result [OF assms(1) valid_keys_distinct [OF assms(2)] assms(3)] assms(4-7) by auto

text \<open>New credentials of the providers are not used by the running engine (\<open>settings_without_effect\<close>), and the reload does not warn of it: only
  changed addresses are compared.\<close>

lemma rotation_not_warned:
  assumes "hm_wf (providers c)"
  shows "warn_unsafe_changes c (c\<lparr>providers := map (\<lambda>(name, p). (name, p\<lparr>credential := secret name\<rparr>)) (providers c)\<rparr>) = []"
proof -
  have rotated: "hm_get (map (\<lambda>(name, p). (name, p\<lparr>credential := secret name\<rparr>)) m) k = map_option (\<lambda>p. p\<lparr>credential := secret k\<rparr>) (hm_get m k)" for m k
    by (induction m) (auto simp: hm_get_def)
  have found: "hm_get (providers c) k = Some v" if "(k, v) \<in> set (providers c)" for k v
    using that hm_in_set [OF assms] by simp
  show ?thesis by (auto simp: warn_unsafe_changes_def rotated dest!: found)
qed

section \<open>A concrete reload\<close>

text \<open>A key that an earlier configuration seeded and \<open>demo_boot_config\<close> does not declare.\<close>

definition old_key :: key_tuple where
  "old_key = \<lparr>kt_id = ''old'', kt_project_id = ''default'', kt_name = ''n'', kt_prefix = ''sk-gw-test-'', kt_hash = ''sk-gw-test-old'',
     kt_last4 = ''-old'', kt_scopes = [], kt_status = ''active'', kt_expires_at = None, kt_last_used_at = None, kt_created_at = 0,
     kt_revoked_at = None, kt_origin = KEY_ORIGIN_CONFIG\<rparr>"

definition old_tables :: sql_db where
  "old_tables = demo_tables\<lparr>t_keys := [old_key]\<rparr>"

definition old_request :: wire_request where
  "old_request = demo_wire ''/v1/ns/chat'' [(''authorization'', ''Bearer sk-gw-test-old'')]"

abbreviation demo_reload :: reload_env where
  "demo_reload \<equiv> reload_deps demo_boot_env demo_crypto ''c.yaml'' demo_gateway"

lemma old_tables_working: "sq_working demo_ext old_tables"
  using demo_ext_codec
  by (simp add: sq_working_def sql_ok_def old_tables_def old_key_def demo_tables_def sql_db_new_def project_exists_def has_where_def demo_ext_def)

lemma old_keys: "sq_key demo_ext old_tables j = (if j = ''old'' then Some (key_row demo_ext old_key) else None)"
  by (simp add: sq_key_def mem_key_def sq_abs_def old_tables_def old_key_def)

lemma demo_live_ok: "live_ok demo_ext demo_gateway (Waiting, demo_config, demo_state\<lparr>sv_meta := old_tables\<rparr>)"
  using old_tables_working
  by (simp add: live_ok_def server_ok_def demo_state_def demo_gateway_def validate_def demo_config_def old_tables_def demo_tables_def sql_db_new_def
      merged_catalog_def with_overrides_def insert_entries_def)

lemma demo_loads: "load_from_path (be_from_yaml demo_boot_env) (be_read_file demo_boot_env) ''c.yaml'' = Inr demo_boot_config"
  using demo_boot_in_order by (simp add: boot_in_order_def)

lemma demo_seeds:
  "\<exists>db1. seed_apply (be_env demo_boot_env) (cy_keyed_hash demo_crypto) (sq_metadata_ops demo_ext) (ah_master_key (ga_handles demo_gateway)) 9
     (ah_default_project_id (ga_handles demo_gateway)) (gateway_keys demo_boot_config) old_tables = (db1, Inr ()) \<and> sq_working demo_ext db1"
proof (rule sq_seed_apply_succeeds [OF old_tables_working])
  show "project_exists old_tables (ah_default_project_id (ga_handles demo_gateway))"
    by (simp add: old_tables_def demo_tables_def demo_gateway_def project_exists_def has_where_def)
  have order: "\<forall>k \<in> set (gateway_keys demo_boot_config). \<exists>pt. resolve_secret (be_env demo_boot_env) k = Inr pt \<and> parse_gateway_key pt \<noteq> None"
    using demo_boot_in_order by (simp add: boot_in_order_def)
  then show "\<forall>k \<in> set (gateway_keys demo_boot_config). \<exists>pt. resolve_secret (be_env demo_boot_env) k = Inr pt \<and> parse_gateway_key pt \<noteq> None" .
qed (simp_all add: demo_boot_config_def key_project_def old_keys)

lemma old_bears: "bears demo_externals demo_xt old_request ''sk-gw-test-old''"
proof -
  have "trim ''sk-gw-test-old'' = ''sk-gw-test-old''" by (simp add: trim_def is_whitespace_def is_cont_byte_def byte_def)
  from bearer_of [OF this] show ?thesis
    by (simp add: bears_def old_request_def demo_wire_def demo_externals_def demo_xt_def build_router_def nest_def admin_routes_def)
qed

lemma old_withdrawn: "withdrawn demo_ext demo_reload (gateway_keys demo_boot_config) old_tables ''sk-gw-test-old''"
  by (auto simp: withdrawn_def old_keys demo_boot_config_def old_key_def key_row_def admin_managed_def reload_deps_def demo_gateway_def demo_crypto_def
      derive_hash_def resolve_secret_def strip_prefix_def env_scheme_def key_project_def split: if_splits)

theorem reload_is_authority_witness:
  "\<exists>evs s' answers. live_all demo_externals demo_crypto demo_xt demo_reload demo_gateway evs (Waiting, demo_config, demo_state\<lparr>sv_meta := old_tables\<rparr>)
       = ((Waiting, demo_boot_config, s'), answers)
     \<and> snd (serve_request demo_externals demo_crypto demo_xt (with_config demo_boot_config demo_gateway) demo_draws old_request s') = Refused ApiUnauthorized"
proof -
  have app: "ga_metadata demo_gateway = sq_metadata_ops demo_ext" by (simp add: demo_gateway_def)
  let ?s = "demo_state\<lparr>sv_meta := old_tables\<rparr>"
  obtain db1 where seeds: "seed_apply (be_env demo_boot_env) (cy_keyed_hash demo_crypto) (sq_metadata_ops demo_ext) (ah_master_key (ga_handles demo_gateway)) 9
     (ah_default_project_id (ga_handles demo_gateway)) (gateway_keys demo_boot_config) (sv_meta ?s) = (db1, Inr ())"
    using demo_seeds by auto
  have sees: "bears demo_externals demo_xt old_request ''sk-gw-test-old''"
      "withdrawn demo_ext demo_reload (gateway_keys demo_boot_config) (sv_meta ?s) ''sk-gw-test-old''"
    using old_bears old_withdrawn by simp_all
  from reload_is_authority [OF app demo_live_ok refl demo_loads seeds, of demo_externals demo_xt] show ?thesis
  proof (elim exE conjE, goal_cases)
    case (1 n)
    let ?evs = "replicate n (ReloadStep (be_read_file demo_boot_env) 9)"
    obtain ph' cfg' s' answers where
      run: "live_all demo_externals demo_crypto demo_xt demo_reload demo_gateway ?evs (Waiting, demo_config, ?s) = ((ph', cfg', s'), answers)"
      by (metis prod.collapse)
    have "reloads_of ?evs = replicate n (be_read_file demo_boot_env, 9)" "list_all (live_outside demo_externals demo_crypto demo_gateway) ?evs"
      by (induction n) simp_all
    with 1(2) run sees have "ph' = Waiting" "cfg' = demo_boot_config"
        "snd (serve_request demo_externals demo_crypto demo_xt (with_config demo_boot_config demo_gateway) demo_draws old_request s') = Refused ApiUnauthorized"
      by blast+
    with run show ?thesis by blast
  qed
qed

lemma old_outside: "outside demo_externals demo_crypto demo_gateway (EvRequest demo_draws old_request)"
  using old_bears by (simp add: bears_def outsider_def admin_auth_def token_verify_def demo_gateway_def demo_crypto_def)

theorem reload_undisturbed_witness:
  "sq_untouched (sv_meta (snd (snd (fst (live_all demo_externals demo_crypto demo_xt demo_reload demo_gateway
       [ReloadStep (be_read_file demo_boot_env) 9, Serve (EvRequest demo_draws old_request), ReloadStep (be_read_file demo_boot_env) 9]
       (Waiting, demo_config, demo_state\<lparr>sv_meta := old_tables\<rparr>))))))
     = sq_untouched (snd (snd (reload_alone demo_reload (sq_metadata_ops demo_ext)
         [(be_read_file demo_boot_env, 9), (be_read_file demo_boot_env, 9)] (Waiting, demo_config, old_tables))))"
proof -
  let ?evs = "[ReloadStep (be_read_file demo_boot_env) 9, Serve (EvRequest demo_draws old_request), ReloadStep (be_read_file demo_boot_env) 9]"
  let ?s = "demo_state\<lparr>sv_meta := old_tables\<rparr>"
  have app: "ga_metadata demo_gateway = sq_metadata_ops demo_ext" by (simp add: demo_gateway_def)
  obtain ph' cfg' s' answers where
    run: "live_all demo_externals demo_crypto demo_xt demo_reload demo_gateway ?evs (Waiting, demo_config, ?s) = ((ph', cfg', s'), answers)"
    by (metis prod.collapse)
  obtain ph2 cfg2 m where
    alone: "reload_alone demo_reload (ga_metadata demo_gateway) (reloads_of ?evs) (Waiting, demo_config, sv_meta ?s) = (ph2, cfg2, m)"
    by (metis prod.collapse)
  have "list_all (live_outside demo_externals demo_crypto demo_gateway) ?evs" using old_outside by simp
  from reload_undisturbed [OF this disjI1 [OF app] run alone] run alone app show ?thesis by simp
qed

end
