(* ===== verification/Spend.thy ===== *)
theory Spend
  imports Live
begin

text \<open>
  Budgets over the life of the whole gateway: the recorded spend never shrinks, whatever requests, tasks, price changes and reloads come. So a
  caller whose budget is exhausted is refused until the period ends or the budgets of the configuration change.
\<close>

section \<open>Rate limiting leaves the spend alone\<close>

context counter_contract
begin

lemma incr_window_spent: "spent (fst (incr_window ops st now k w n)) = spent st"
  using incr_window_other [of st now k w n] by (metis prod.collapse)

lemma drop_permits_spent: "spent (drop_permits ops ks st) = spent st"
  unfolding drop_permits_def by (induction ks arbitrary: st) (simp_all add: release_other)

lemma reconcile_loop_spent: "spent (reconcile_loop ops now actual rs st) = spent st"
  by (induction rs arbitrary: st) (auto simp: Let_def incr_window_spent)

lemma reconcile_spent: "spent (reconcile_tokens ops p actual now st) = spent st"
  by (simp add: reconcile_tokens_def drop_permit_def drop_permits_spent reconcile_loop_spent)

lemma check_limit_spent: "check_limit ops now l scope st = (st', r) \<Longrightarrow> spent st' = spent st"
  by (auto simp: check_limit_def check_rpm_def check_tpm_def check_concurrency_def Let_def incr_window_spent
      dest!: incr_window_other acquire_other split: option.splits prod.splits sum.splits if_splits)

lemma check_loop_spent: "check_loop ops now key_id project_id lims ps ts st = (st', r) \<Longrightarrow> spent st' = spent st"
proof (induction lims arbitrary: ps ts st)
  case (Cons l lims)
  then show ?case
    by (auto simp: drop_permits_spent dest: check_limit_spent split: option.splits prod.splits sum.splits)
qed simp

lemma proxy_inner_spent:
  assumes "as_counter app = ops"
  shows "spent (st_counter (fst (proxy_inner ex app call ck req s))) = spent (st_counter s)"
proof -
  have admitted: "spent (st_counter (fst (serve_admitted ex app call ck req b l p s1))) = spent (st_counter s1)" for b l p s1
    using serve_admitted_counter [of ex app call ck req b l p s1] assms
    by (cases "serve_admitted ex app call ck req b l p s1") (auto simp: drop_permit_def drop_permits_spent split: proxy_outcome.splits)
  have limits: "check_limits ops lims key_id project_id now st = (c, r) \<Longrightarrow> spent c = spent st" for lims key_id project_id now st c r
    unfolding check_limits_def by (rule check_loop_spent)
  show ?thesis
    unfolding proxy_inner_def Let_def assms using admitted
    by (auto simp: log_submit_def dest!: limits split: sum.split prod.split)
qed

end

section \<open>Costs are never negative\<close>

lemma apply_price_nonneg:
  assumes "entry_ok e" "in_i64 (tu_completion u)" "in_i64 (tu_cached u)"
  shows "f64_le f64_0 (cb_cost_usd (apply_price e u))"
  using assms max_wrap cached_rate_ok [OF assms(1)]
  by (auto simp: apply_price_def Let_def entry_ok_def in_i64_def intro!: round6_nonneg f64_add_nonneg price_of_int_nonneg)

text \<open>Every price that a lookup can return is finite and not negative.\<close>

definition prices_ok :: "pricing_catalog \<Rightarrow> bool" where
  "prices_ok cat \<longleftrightarrow> (\<forall>k e. hm_get (by_key cat) k = Some e \<longrightarrow> entry_ok e) \<and> (\<forall>k e. hm_get (openrouter cat) k = Some e \<longrightarrow> entry_ok e)"

lemma or_else_Some: "or_else a b = Some x \<Longrightarrow> a = Some x \<or> b = Some x"
  by (auto simp: or_else_def split: option.splits)

lemma lookup_ok:
  assumes "prices_ok cat" "lookup cat provider model = Some e"
  shows "entry_ok e"
proof -
  have remote: "openrouter_entry cat m = Some e' \<Longrightarrow> entry_ok e'" for m e'
    using assms(1) by (auto simp: openrouter_entry_def prices_ok_def dest!: or_else_Some split: bind_splits)
  have "openrouter_lookup cat p m = Some e' \<Longrightarrow> entry_ok e'" for p m e'
    using assms(1) remote by (auto simp: openrouter_lookup_def prices_ok_def split: bind_splits option.splits)
  with assms show ?thesis
    by (auto simp: lookup_def prices_ok_def dest!: or_else_Some split: bind_splits)
qed

text \<open>The JSON parser gives numbers in the range of their Rust types.\<close>

definition parse_law :: "externals \<Rightarrow> bool" where
  "parse_law ex \<longleftrightarrow> (\<forall>b v. ex_parse ex b = Some v \<longrightarrow> json_wf v)"

definition counts_ok :: "usage_counts \<Rightarrow> bool" where
  "counts_ok u \<longleftrightarrow> (\<forall>i. uc_completion u = Some i \<or> uc_cached u = Some i \<longrightarrow> in_i64 i)"

lemma from_value_counts: "json_wf v \<Longrightarrow> counts_ok (from_value v)"
  using usage_in_range [of v] by (auto simp: counts_ok_def)

lemma merge_counts: "counts_ok u \<Longrightarrow> counts_ok v \<Longrightarrow> counts_ok (merge_usage u v)"
  by (auto simp: counts_ok_def merge_usage_def dest!: or_else_Some)

lemma extract_counts:
  assumes "parse_law ex"
  shows "counts_ok (extract_token_usage (ex_parse ex) body)"
proof -
  have event: "line_event (ex_parse ex) line = Some v \<Longrightarrow> json_wf v" for line v
    using assms by (auto simp: line_event_def parse_law_def split: option.splits if_splits)
  have "counts_ok u \<Longrightarrow> counts_ok (usage_loop (ex_parse ex) lns u)" for lns u
    by (induction lns arbitrary: u) (auto simp: merge_counts from_value_counts dest: event split: option.split)
  moreover have "counts_ok usage_default" by (simp add: counts_ok_def usage_default_def)
  ultimately show ?thesis
    using assms by (auto simp: extract_token_usage_def parse_law_def from_value_counts split: option.split)
qed

lemma task_cost_nonneg:
  assumes "prices_ok (as_pricing app)" "counts_ok usage" "task_cost app t usage = Some c"
  shows "f64_le f64_0 c"
proof -
  from assms(3) obtain model e where e: "lookup (as_pricing app) (tk_upstream_provider t) model = Some e" "c = cb_cost_usd (apply_price e (priced_usage usage))"
    by (auto simp: task_cost_def compute_cost_def split: if_splits bind_splits)
  have "in_i64 0" by (simp add: in_i64_def)
  then have "in_i64 (tu_completion (priced_usage usage))" "in_i64 (tu_cached (priced_usage usage))"
    using assms(2) by (auto simp: priced_usage_def counts_ok_def unwrap_or_def split: option.split)
  with apply_price_nonneg [OF lookup_ok [OF assms(1) e(1)]] e(2) show ?thesis by blast
qed

section \<open>The spend never shrinks\<close>

lemma record_cost_grows:
  assumes "spend_ok mem_spent st" "f64_le f64_0 cost" "record_cost mday mem_counter_ops cfg now project_id key_id cost (st, ns) = ((st', ns'), out)"
  shows "spend_grows mem_spent st st'"
proof (cases "f64_le cost f64_0")
  case True
  with assms(1,3) show ?thesis by (simp add: record_cost_def mem_counter.spend_grows_refl)
next
  case False
  with assms(3) have "record_loop mday mem_counter_ops now cost (matching_budgets cfg project_id key_id) (st, ns) [] = ((st', ns'), out)"
    by (simp add: record_cost_def)
  from mem_counter.record_loop_grows [OF mem_budget_total(1) assms(2) _ this] assms(1) show ?thesis by simp
qed

lemma spend_grows_same: "spend_ok mem_spent st \<Longrightarrow> mem_spent st1 = mem_spent st \<Longrightarrow> spend_grows mem_spent st st1"
  using mem_counter.spend_grows_refl [of st] by (simp add: spend_grows_def spend_ok_def)

lemma run_task_grows:
  assumes "as_counter app = mem_counter_ops" "prices_ok (as_pricing app)" "parse_law ex" "spend_ok mem_spent (st_counter s)"
  shows "spend_grows mem_spent (st_counter s) (st_counter (fst (run_task ex app tc accept t s)))"
proof -
  have released: "spend_grows mem_spent (st_counter s) (drop_permit mem_counter_ops p (st_counter s))" for p
    by (rule spend_grows_same [OF assms(4)]) (simp add: drop_permit_def mem_counter.drop_permits_spent)
  let ?usage = "\<lambda>st. extract_token_usage (ex_parse ex) (ss_capture st)"
  have settled: "spend_grows mem_spent (st_counter s) (st_counter (charge ex app tc t (task_cost app t (?usage st)) s2))"
    if "mem_spent (st_counter s2) = mem_spent (st_counter s)" for s2 st
  proof (cases "task_cost app t (?usage st)")
    case None
    then show ?thesis using spend_grows_same [OF assms(4) that] by (simp add: charge_def)
  next
    case (Some c)
    have ok: "spend_ok mem_spent (st_counter s2)" using assms(4) that by (simp add: spend_ok_def)
    obtain cnt ns out where r: "record_cost (ex_mday ex) mem_counter_ops (as_config app) (tc_cost tc) (tk_project_id t) (tk_key_id t) c
        (st_counter s2, st_notified s2) = ((cnt, ns), out)" by (metis prod.collapse)
    from record_cost_grows [OF ok task_cost_nonneg [OF assms(2) extract_counts [OF assms(3)] Some] r]
    have "spend_grows mem_spent (st_counter s) cnt" by (simp add: spend_grows_def that)
    then show ?thesis by (simp add: Some charge_def assms(1) r)
  qed
  show ?thesis
    unfolding run_task_def Let_def
    by (auto simp: log_submit_def release_permit_def assms(1) mem_counter.reconcile_spent intro: released intro!: settled
        split: prod.split option.split)
qed

section \<open>Prices in force are never negative\<close>

definition price_table_ok :: "sql_db \<Rightarrow> bool" where
  "price_table_ok db \<longleftrightarrow> (\<forall>t \<in> set (t_pricing db). entry_ok (row_to_entry (pt_row t)))"

lemma merged_prices_ok:
  assumes "prices_ok base" "price_table_ok db"
  shows "prices_ok (merged_catalog base (map pt_row (t_pricing db)))"
  using assms by (auto simp: prices_ok_def price_table_ok_def merged_catalog_def with_overrides_def dest!: insert_entries_get)

lemma called_table: "called (sq_metadata_ops x) db m \<Longrightarrow> price_table_ok m = price_table_ok db"
  using sq_call_frame [of _ x db] by (auto elim!: called.cases simp: frame_def price_table_ok_def)

lemma sq_upsert_pricing_table:
  assumes "price_table_ok db" "entry_ok (row_to_entry row)"
  shows "price_table_ok (fst (sq_upsert_pricing x db row))"
proof -
  have "entry_ok (row_to_entry (row\<lparr>pr_cached_input_per_1k := sq_opt_real (pr_cached_input_per_1k row)\<rparr>))"
    using assms(2) by (auto simp: entry_ok_def row_to_entry_def sq_opt_real_def split: option.splits if_splits)
  with assms(1) show ?thesis
    by (auto simp: sq_upsert_pricing_def executed_def execute_def upsert_pricing_row_def upd_where_def price_table_ok_def
        split: option.split sum.split)
qed

lemma price_handlers_table:
  assumes "price_table_ok m"
  shows "price_table_ok (fst (fst (admin_upsert_pricing (sq_metadata_ops x) base body (m, cat))))"
    "price_table_ok (fst (fst (admin_delete_pricing (sq_metadata_ops x) base prov model (m, cat))))"
proof -
  let ?row = "body\<lparr>pr_provider := trim (pr_provider body), pr_model := trim (pr_model body)\<rparr>"
  have valid: "valid_price (pr_input_per_1k body) \<Longrightarrow> valid_price (pr_output_per_1k body) \<Longrightarrow>
      (case pr_cached_input_per_1k body of None \<Rightarrow> True | Some c \<Rightarrow> valid_price c) \<Longrightarrow> entry_ok (row_to_entry ?row)"
    by (auto simp: entry_ok_def price_ok_def valid_price_def row_to_entry_def split: option.splits)
  have upsert: "entry_ok (row_to_entry ?row) \<Longrightarrow> upsert_pricing (sq_metadata_ops x) m ?row = (m1, q) \<Longrightarrow> price_table_ok m1" for m1 q
    using sq_upsert_pricing_table [OF assms, of ?row x] by (auto simp: sq_metadata_ops_def)
  have delete: "delete_pricing (sq_metadata_ops x) m prov model = (m1, q) \<Longrightarrow> price_table_ok m1" for m1 q
    using assms by (auto simp: sq_metadata_ops_def sq_delete_pricing_def executed_def execute_def delete_pricing_rows_def price_table_ok_def Let_def
        split: option.splits)
  have refresh: "fst (fst (refresh_pricing ops base (m1, cat))) = m1" for ops :: "sql_db metadata_ops" and m1
    by (simp add: refresh_pricing_def split: sum.split)
  show "price_table_ok (fst (fst (admin_upsert_pricing (sq_metadata_ops x) base body (m, cat))))"
    using assms upsert valid refresh by (auto simp: admin_upsert_pricing_def Let_def split: prod.splits sum.splits) (metis fst_conv)+
  show "price_table_ok (fst (fst (admin_delete_pricing (sq_metadata_ops x) base prov model (m, cat))))"
    using assms delete refresh by (auto simp: admin_delete_pricing_def split: prod.splits sum.splits) (metis fst_conv)+
qed

section \<open>Runs of the gateway\<close>

text \<open>What a request keeps: the prices of the table, and every recorded spend.\<close>

definition keeps_spend :: "(sql_db, 'l, 'k, mem_counter) server_state \<Rightarrow> (sql_db, 'l, 'k, mem_counter) server_state \<Rightarrow> bool" where
  "keeps_spend s s' \<longleftrightarrow> (price_table_ok (sv_meta s) \<longrightarrow> price_table_ok (sv_meta s'))
     \<and> mem_spent (st_counter (sv_stores s')) = mem_spent (st_counter (sv_stores s))"

lemma keeps_spend_simps:
  "keeps_spend s s" "keeps_spend s (s'\<lparr>sv_recorder := h\<rparr>) = keeps_spend s s'" "keeps_spend s (s'\<lparr>sv_pricing := c\<rparr>) = keeps_spend s s'"
  by (simp_all add: keeps_spend_def)

lemma with_meta_spend: "called (sq_metadata_ops x) (sv_meta s) (fst r) \<Longrightarrow> keeps_spend s (fst (with_meta f s r))"
  by (auto simp: with_meta_def keeps_spend_def called_table)

lemma with_prices_spend:
  assumes "r = admin_upsert_pricing (sq_metadata_ops x) base body (sv_meta s, sv_pricing s)
      \<or> r = admin_delete_pricing (sq_metadata_ops x) base prov model (sv_meta s, sv_pricing s)"
  shows "keeps_spend s (fst (with_prices s r))"
  using assms price_handlers_table(1) [of "sv_meta s" x base body "sv_pricing s"] price_handlers_table(2) [of "sv_meta s" x base prov model "sv_pricing s"]
  by (auto simp: with_prices_def keeps_spend_def)

lemma extracted_spend: "(\<And>y. keeps_spend s (fst (f y))) \<Longrightarrow> keeps_spend s (fst (extracted v f s))"
  by (simp add: extracted_def keeps_spend_simps split: sum.split)

lemma call_admin_spend:
  assumes "ga_metadata app = sq_metadata_ops x"
  shows "keeps_spend s (fst (call_admin ex cy xt app dw ep p ps req s))"
proof (cases ep)
  case EpRecomputeCosts
  then show ?thesis by (simp add: keeps_spend_def split: prod.split)
qed (use assms in \<open>auto intro!: extracted_spend with_meta_spend [where x = x] handlers_call with_prices_spend [where x = x] simp: split_def keeps_spend_simps\<close>)

lemma call_endpoint_spend:
  assumes "ga_metadata app = sq_metadata_ops x" "ga_counter app = mem_counter_ops"
  shows "keeps_spend s (fst (call_endpoint ex cy xt app dw ep ps req s))"
proof (cases ep)
  case ProxyCall
  let ?auth = "gateway_key_auth (ex_to_str ex) (cy_keyed_hash cy) (ga_metadata app) (ah_master_key (ga_handles app)) (sv_meta s) (dw_ms dw) (wr_headers req)"
  have table: "price_table_ok (fst ?auth) = price_table_ok (sv_meta s)"
    unfolding assms(1) by (rule called_table [OF handlers_call(5)])
  have "as_counter (proxy_app app (sv_pricing s)) = mem_counter_ops" using assms(2) by (simp add: proxy_app_def)
  note spent = mem_counter.proxy_inner_spent [OF this]
  show ?thesis
    using table spent
    by (cases ?auth) (auto simp: ProxyCall keeps_spend_def extracted_def proxy_handler_def split_def Let_def split: sum.split)
next
  case (Admin e)
  then show ?thesis using call_admin_spend [OF assms(1)] by (auto simp: keeps_spend_simps split: sum.split)
next
  case MetricsText
  then show ?thesis by (simp add: keeps_spend_simps split: prod.split)
qed (use assms in \<open>auto intro!: extracted_spend with_meta_spend [where x = x] handlers_call simp: split_def keeps_spend_simps\<close>)

text \<open>The invariant that keeps the spend growing: a good state of the gateway, with finite non-negative prices and spends.\<close>

definition spend_safe ::
  "sql_ext \<Rightarrow> (sql_db, 'l, 'k, mem_counter) gateway_app \<Rightarrow> (sql_db, 'l, 'k, mem_counter) live_state \<Rightarrow> bool" where
  "spend_safe x app ls \<longleftrightarrow> (case ls of (ph, cfg, s) \<Rightarrow> live_ok x app (ph, cfg, s) \<and> prices_ok (ah_pricing_base (ga_handles app))
     \<and> price_table_ok (sv_meta s) \<and> spend_ok mem_spent (st_counter (sv_stores s)))"

abbreviation live_spend :: "(sql_db, 'l, 'k, mem_counter) live_state \<Rightarrow> mem_counter" where
  "live_spend ls \<equiv> st_counter (sv_stores (snd (snd ls)))"

lemma spend_safe_prices: "spend_safe x app (ph, cfg, s) \<Longrightarrow> prices_ok (sv_pricing s)"
  using merged_prices_ok [of "ah_pricing_base (ga_handles app)" "sv_meta s"] by (simp add: spend_safe_def live_ok_def server_ok_def)

lemma serve_event_spend:
  assumes "ga_metadata app = sq_metadata_ops x" "ga_counter app = mem_counter_ops" "parse_law ex"
    and "prices_ok (sv_pricing s)" "price_table_ok (sv_meta s)" "spend_ok mem_spent (st_counter (sv_stores s))"
  shows "price_table_ok (sv_meta (fst (serve_event ex cy xt app ev s)))
    \<and> spend_grows mem_spent (st_counter (sv_stores s)) (st_counter (sv_stores (fst (serve_event ex cy xt app ev s))))"
proof (cases ev)
  case (EvRequest dw req)
  have "keeps_spend s (fst (serve_request ex cy xt app dw req s))"
    using call_endpoint_spend [OF assms(1,2)] by (auto simp: serve_request_def keeps_spend_simps split: option.split prod.split)
  with assms(5,6) spend_grows_same show ?thesis by (simp add: EvRequest keeps_spend_def)
next
  case (EvTask tc accept t)
  have app: "as_counter (proxy_app app (sv_pricing s)) = mem_counter_ops" "prices_ok (as_pricing (proxy_app app (sv_pricing s)))"
    using assms(2,4) by (simp_all add: proxy_app_def)
  from run_task_grows [OF app assms(3,6)] assms(5) show ?thesis by (simp add: EvTask)
qed

lemma live_step_spend:
  assumes "ga_metadata app = sq_metadata_ops x" "ga_counter app = mem_counter_ops" "parse_law ex" "spend_safe x app ls"
  shows "spend_safe x app (fst (live_step ex cy xt re app ev ls))
    \<and> spend_grows mem_spent (live_spend ls) (live_spend (fst (live_step ex cy xt re app ev ls)))"
proof -
  obtain ph cfg s where ls: "ls = (ph, cfg, s)" by (cases ls)
  note safe = assms(4) [unfolded ls]
  have live: "live_ok x app (fst (live_step ex cy xt re app ev ls))"
    using live_step_ok [OF assms(1)] assms(4) by (simp add: ls spend_safe_def)
  have parts: "price_table_ok (sv_meta s)" "spend_ok mem_spent (st_counter (sv_stores s))" "prices_ok (ah_pricing_base (ga_handles app))"
    using safe by (simp_all add: spend_safe_def)
  show ?thesis
  proof (cases ev)
    case (Serve e)
    have app: "ga_metadata (with_config cfg app) = sq_metadata_ops x" "ga_counter (with_config cfg app) = mem_counter_ops" using assms(1,2) by simp_all
    from serve_event_spend [OF app assms(3) spend_safe_prices [OF safe] parts(1,2), of cy xt e] live parts(3)
    show ?thesis by (auto simp: ls Serve spend_safe_def spend_grows_def split: prod.splits)
  next
    case (ReloadStep rd now)
    obtain ph' cfg' m where r: "reload_step re (ga_metadata app) rd now (ph, cfg, sv_meta s) = (ph', cfg', m)" by (metis prod.collapse)
    have "price_table_ok m"
      using called_table [OF reload_step_called [OF r, unfolded assms(1)]] parts(1) by simp
    with live parts mem_counter.spend_grows_refl [OF parts(2)] show ?thesis by (simp add: ls ReloadStep r spend_safe_def)
  qed
qed

lemma live_all_spend:
  assumes "ga_metadata app = sq_metadata_ops x" "ga_counter app = mem_counter_ops" "parse_law ex"
  shows "spend_safe x app ls \<Longrightarrow> spend_safe x app (fst (live_all ex cy xt re app evs ls))
    \<and> spend_grows mem_spent (live_spend ls) (live_spend (fst (live_all ex cy xt re app evs ls)))"
proof (induction evs arbitrary: ls)
  case Nil
  then show ?case by (auto simp: spend_safe_def mem_counter.spend_grows_refl split: prod.splits)
next
  case (Cons ev evs)
  note one = live_step_spend [OF assms Cons.prems, of cy xt re ev]
  from Cons.IH [OF conjunct1 [OF one]] one mem_counter.spend_grows_trans show ?case by (simp add: split_def) blast
qed

section \<open>An exhausted budget holds\<close>

lemma check_block_period:
  "\<forall>b \<in> set bs. period_start_for mday t (bc_period b) = period_start_for mday now (bc_period b) \<Longrightarrow>
     check_block_loop mday ops t st bs = check_block_loop mday ops now st bs"
  by (induction bs) (simp_all add: Let_def)

lemma blocked_caller_refused:
  assumes "proxied_as ex cy xt app dw req s p" "wr_body req = Inr b"
    and "check_block (ex_mday ex) (ga_counter app) (ah_config (ga_handles app)) (ck_budget (dw_clocks dw)) (gp_project_id p) (gp_key_id p)
      (st_counter (sv_stores s))"
  shows "\<exists>h body. snd (serve_request ex cy xt app dw req s) = Proxied (Whole h body) (Failed (Gateway RateLimited)) \<and> rh_status h = 429"
  using assms
  by (auto simp: proxied_as_def proxy_handler_def proxy_inner_def read_body_def proxy_app_def error_head_def valid_status_def with_request_id_def Let_def)


lemma demo_spend_safe: "spend_safe demo_ext demo_gateway (Waiting, demo_budget_config, demo_state\<lparr>sv_meta := old_tables\<rparr>)"
proof -
  have "validate demo_budget_config = Inr ()" by (simp add: validate_def demo_budget_config_def)
  with demo_live_ok have "live_ok demo_ext demo_gateway (Waiting, demo_budget_config, demo_state\<lparr>sv_meta := old_tables\<rparr>)"
    by (simp add: live_ok_def)
  then show ?thesis
    by (simp add: spend_safe_def prices_ok_def price_table_ok_def spend_ok_def mem_spent_def demo_gateway_def demo_state_def demo_stores_def
        catalog_default_def old_tables_def demo_tables_def sql_db_new_def)
qed

text \<open>After one request with the key, the next one still reaches the handler as that key.\<close>

lemma demo_proxied_again:
  assumes "live_all demo_externals demo_crypto demo_xt demo_reload demo_gateway [Serve (EvRequest demo_draws old_request)]
      (Waiting, demo_budget_config, demo_state\<lparr>sv_meta := old_tables\<rparr>) = ((ph', cfg', s'), answers)"
  shows "cfg' = demo_budget_config \<and> proxied_as demo_externals demo_crypto demo_xt (with_config cfg' demo_gateway) demo_draws old_request s'
      \<lparr>gp_key_id = ''old'', gp_project_id = ''default''\<rparr>"
proof -
  let ?s = "demo_state\<lparr>sv_meta := old_tables\<rparr>"
  have app: "ga_metadata demo_gateway = sq_metadata_ops demo_ext" by (simp add: demo_gateway_def)
  have "list_all (live_outside demo_externals demo_crypto demo_gateway) [Serve (EvRequest demo_draws old_request)]" using old_outside by simp
  from sq_seed.live_all_view [OF app this refl assms] have v: "cfg' = demo_budget_config" "sq_untouched (sv_meta s') = sq_untouched old_tables"
    by (auto simp: reload_alone_def)
  note same = sq_key_same [OF v(2), of demo_ext]
  have w: "sq_working demo_ext (sv_meta s')"
    using live_all_ok [OF app, of "(Waiting, demo_budget_config, ?s)" demo_externals demo_crypto demo_xt demo_reload
        "[Serve (EvRequest demo_draws old_request)]"] demo_spend_safe assms
    by (simp add: spend_safe_def live_ok_def server_ok_def)
  obtain r where r: "sq_key demo_ext (sv_meta s') ''old'' = Some r" "forget_use r = forget_use (key_row demo_ext old_key)"
    using same [of "''old''" "key_row demo_ext old_key"] by (auto simp: old_keys)
  have fields: "kr_hash r = ''sk-gw-test-old''" "kr_project_id r = ''default''" "row_usable t r" for t
    using forget_use_fields [OF r(2), of t] by (simp_all add: key_row_def old_key_def row_usable_def)
  have only: "j = ''old''" if "sq_key demo_ext (sv_meta s') j = Some r'" for j r'
    using same [of j r'] that by (auto simp: old_keys split: if_splits)
  have "parse_gateway_key ''sk-gw-test-old'' \<noteq> None"
    by (simp add: parse_gateway_key_def starts_with_def PREFIX_LIVE_def PREFIX_TEST_def)
  moreover have "kr_hash r = derive_hash (cy_keyed_hash demo_crypto) (ah_master_key (ga_handles (with_config cfg' demo_gateway))) ''sk-gw-test-old''"
    by (simp add: fields derive_hash_def demo_crypto_def)
  ultimately show ?thesis
    using sq_bearer_proxied [OF _ w r(1) _ _ fields(3) old_bears, of "with_config cfg' demo_gateway" demo_crypto demo_draws] app only fields(2) v(1)
    by auto
qed


end
