(* ===== verification/Revocation.thy ===== *)
theory Revocation
  imports Spend
begin

text \<open>
  Revocation over the life of the whole gateway: whatever is done to the metadata store is done by calls of its interface, and no call of the
  interface makes a revoked key of an administrator valid again. So a revoked key stays out, through any requests and reloads.
\<close>

section \<open>Runs are sequences of calls\<close>

inductive meta_reach :: "'m metadata_ops \<Rightarrow> 'm \<Rightarrow> 'm \<Rightarrow> bool" for ops st where
  start: "meta_reach ops st st"
| call: "meta_reach ops st st1 \<Longrightarrow> meta_reach ops st (fst (run_call ops st1 c))"

lemma reach_trans: "meta_reach ops b c \<Longrightarrow> meta_reach ops a b \<Longrightarrow> meta_reach ops a c"
  by (induction rule: meta_reach.induct) (auto intro: meta_reach.call)

lemma called_reach: "called ops a b \<Longrightarrow> meta_reach ops a b"
  by (auto elim!: called.cases intro: meta_reach.intros)

lemma price_handlers_reach:
  "meta_reach ops m (fst (fst (admin_upsert_pricing ops base body (m, cat))))"
  "meta_reach ops m (fst (fst (admin_delete_pricing ops base prov model (m, cat))))"
proof -
  have up: "meta_reach ops m (fst (upsert_pricing ops m row))" "meta_reach ops m (fst (delete_pricing ops m prov model))" for row
    using meta_reach.call [OF meta_reach.start, of ops m "UpsertPricing row"] meta_reach.call [OF meta_reach.start, of ops m "DeletePricing prov model"]
    by simp_all
  have refresh: "fst (fst (refresh_pricing ops base (m1, cat))) = m1" for m1
    by (simp add: refresh_pricing_def split: sum.split)
  show "meta_reach ops m (fst (fst (admin_upsert_pricing ops base body (m, cat))))"
    using up(1) refresh by (auto simp: admin_upsert_pricing_def Let_def intro: meta_reach.start split: prod.splits sum.splits) (metis fst_conv)+
  show "meta_reach ops m (fst (fst (admin_delete_pricing ops base prov model (m, cat))))"
    using up(2) refresh by (auto simp: admin_delete_pricing_def split: prod.splits sum.splits) (metis fst_conv)+
qed

abbreviation reaches :: "'m metadata_ops \<Rightarrow> ('m, 'l, 'k, 'c) server_state \<Rightarrow> ('m, 'l, 'k, 'c) server_state \<Rightarrow> bool" where
  "reaches ops s s' \<equiv> meta_reach ops (sv_meta s) (sv_meta s')"

lemma with_reach:
  "called ops (sv_meta s) (fst r) \<Longrightarrow> reaches ops s (fst (with_meta f s r))"
  "meta_reach ops (sv_meta s) (fst (fst q)) \<Longrightarrow> reaches ops s (fst (with_prices s q))"
  by (simp_all add: with_meta_def with_prices_def called_reach)

lemma extracted_reach: "(\<And>y. reaches ops s (fst (f y))) \<Longrightarrow> reaches ops s (fst (extracted v f s))"
  by (simp add: extracted_def meta_reach.start split: sum.split)

lemma call_admin_reach: "reaches (ga_metadata app) s (fst (call_admin ex cy xt app dw ep p ps req s))"
proof (cases ep)
  case EpRecomputeCosts
  then show ?thesis by (simp add: meta_reach.start split: prod.split)
qed (auto intro!: extracted_reach with_reach handlers_call price_handlers_reach simp: split_def meta_reach.start)

lemma call_endpoint_reach: "reaches (ga_metadata app) s (fst (call_endpoint ex cy xt app dw ep ps req s))"
proof (cases ep)
  case ProxyCall
  let ?auth = "gateway_key_auth (ex_to_str ex) (cy_keyed_hash cy) (ga_metadata app) (ah_master_key (ga_handles app)) (sv_meta s) (dw_ms dw) (wr_headers req)"
  have "meta_reach (ga_metadata app) (sv_meta s) (fst ?auth)" by (rule called_reach [OF handlers_call(5)])
  then show ?thesis by (cases ?auth) (auto simp: ProxyCall extracted_def split_def Let_def split: sum.split)
next
  case (Admin e)
  then show ?thesis using call_admin_reach by (auto intro: meta_reach.start split: sum.split)
next
  case MetricsText
  then show ?thesis by (simp add: meta_reach.start split: prod.split)
qed (auto intro!: extracted_reach with_reach handlers_call simp: split_def meta_reach.start)

lemma live_step_reach: "reaches (ga_metadata app) (snd (snd ls)) (snd (snd (fst (live_step ex cy xt re app ev ls))))"
proof -
  obtain ph cfg s where ls: "ls = (ph, cfg, s)" by (cases ls)
  show ?thesis
  proof (cases ev)
    case (Serve e)
    have "reaches (ga_metadata app) s (fst (serve_event ex cy xt (with_config cfg app) e s))"
      using call_endpoint_reach [of "with_config cfg app"]
      by (cases e) (auto simp: serve_request_def meta_reach.start split: option.split prod.split)
    then show ?thesis by (auto simp: ls Serve split: prod.split)
  next
    case (ReloadStep rd now)
    then show ?thesis using called_reach [OF reload_step_called] by (auto simp: ls split: prod.split)
  qed
qed

lemma live_all_reach: "reaches (ga_metadata app) (snd (snd ls)) (snd (snd (fst (live_all ex cy xt re app evs ls))))"
proof (induction evs arbitrary: ls)
  case (Cons ev evs)
  from reach_trans [OF Cons.IH live_step_reach] show ?case by (simp add: split_def)
qed (simp add: meta_reach.start)

section \<open>No call revives a revoked key\<close>

text \<open>A key of an administrator, with this hash, that is not active.\<close>

definition retired :: "sql_ext \<Rightarrow> string \<Rightarrow> bytes \<Rightarrow> sql_db \<Rightarrow> bool" where
  "retired x i h db \<longleftrightarrow> (\<exists>row. sq_key x db i = Some row \<and> kr_status row \<noteq> ''active'' \<and> admin_managed row \<and> kr_hash row = h)"

lemma sq_other_writes_keys:
  "t_keys (fst (sq_create_project x db now p)) = t_keys db"
  "t_keys (fst (sq_upsert_routes x db now q cfg v)) = t_keys db"
  "t_keys (fst (sq_upsert_budget x db b)) = t_keys db"
  "t_keys (fst (sq_upsert_pricing x db r)) = t_keys db"
  "t_keys (fst (sq_delete_pricing x db prov model)) = t_keys db"
  "t_keys (fst (sq_touch_admin_last_login x db i t)) = t_keys db"
  unfolding sq_write_defs Let_def
  by (rule executed_keeps, auto simp: sql_statement_defs split: if_splits sum.splits)+

lemma sq_create_admin_keys: "t_keys (fst (sq_create_admin_user x db now u)) = t_keys db"
  by (auto simp: sq_create_admin_user_def execute_def sql_statement_defs Let_def split: sum.splits prod.splits option.splits sql_error.splits if_splits)

lemma find_append: "List.find P (xs @ ys) = (case List.find P xs of None \<Rightarrow> List.find P ys | Some v \<Rightarrow> Some v)"
  by (induction xs) auto

lemma sq_key_find: "sq_key x db i = map_option (key_row x) (List.find (\<lambda>r. kt_id r = i) (t_keys db))"
  by (simp add: sq_key_def mem_key_def sq_abs_def)

lemma create_key_retired: "retired x i h db \<Longrightarrow> retired x i h (fst (sq_create_key x db now k))"
  by (auto simp: retired_def sq_key_find sq_create_key_def executed_def execute_def insert_key_def find_append split: option.splits sum.splits if_splits)

lemma touch_key_retired: "retired x i h db \<Longrightarrow> retired x i h (fst (sq_touch_key_last_used x db j t))"
proof -
  assume "retired x i h db"
  then obtain row where row: "sq_key x db i = Some row" "kr_status row \<noteq> ''active''" "admin_managed row" "kr_hash row = h"
    by (auto simp: retired_def)
  have "sq_untouched (fst (sq_touch_key_last_used x db j t)) = sq_untouched db"
    using sq_touch.touch_key_view [of x db j t] by (simp add: sq_metadata_ops_def)
  from sq_key_same [OF this, of x i row] row(1) obtain r where r: "sq_key x (fst (sq_touch_key_last_used x db j t)) i = Some r" "forget_use r = forget_use row"
    by auto
  from r(2) have "kr_status r = kr_status row" "kr_origin r = kr_origin row" "kr_hash r = kr_hash row"
    by (cases r; cases row; simp)+
  with r(1) row show ?thesis by (simp add: retired_def admin_managed_def)
qed

lemma seeding_retired:
  assumes "sq_working x db" "retired x i h db"
  shows "retired x i h (fst (sq_revoke_key x db now j))" "retired x i h (fst (sq_upsert_seeded_key x db now k))"
    "retired x i h (fst (sq_prune_seeded_keys_not_in x db q keep))"
proof -
  obtain row where row: "sq_key x db i = Some row" "kr_status row \<noteq> ''active''" "admin_managed row" "kr_hash row = h"
    using assms(2) by (auto simp: retired_def)
  have calls: "revoke_key (sq_metadata_ops x) = sq_revoke_key x" "upsert_seeded_key (sq_metadata_ops x) = sq_upsert_seeded_key x"
      "prune_seeded_keys_not_in (sq_metadata_ops x) = sq_prune_seeded_keys_not_in x" by (simp_all add: sq_metadata_ops_def)
  show "retired x i h (fst (sq_revoke_key x db now j))"
    using sq_keys.revoke_result [OF assms(1) prod.collapse [symmetric], of now j] row
    by (auto simp: calls retired_def admin_managed_def split: sum.splits)
  show "retired x i h (fst (sq_upsert_seeded_key x db now k))"
    using sq_keys.upsert_seeded_result [OF assms(1) prod.collapse [symmetric], of now k] row
    by (auto simp: calls retired_def admin_managed_def split: sum.splits)
  show "retired x i h (fst (sq_prune_seeded_keys_not_in x db q keep))"
    using sq_keys.prune_result [OF assms(1) prod.collapse [symmetric], of q keep] row
    by (auto simp: calls retired_def admin_managed_def split: sum.splits)
qed

lemma keys_kept_retired: "t_keys db' = t_keys db \<Longrightarrow> retired x i h db' = retired x i h db"
  using sq_key_find [of x db' i] sq_key_find [of x db i] by (simp add: retired_def)

lemmas other_writes_retired = sq_other_writes_keys [THEN keys_kept_retired] sq_create_admin_keys [THEN keys_kept_retired]

lemma call_retired:
  assumes "sq_working x db" "retired x i h db"
  shows "retired x i h (fst (run_call (sq_metadata_ops x) db c))"
  using assms(2) seeding_retired [OF assms] create_key_retired [OF assms(2)] touch_key_retired [OF assms(2)]
  by (cases c) (simp_all add: sq_metadata_ops_def other_writes_retired)

lemma reach_retired:
  "meta_reach (sq_metadata_ops x) db db' \<Longrightarrow> sq_working x db \<Longrightarrow> retired x i h db \<Longrightarrow> sq_working x db' \<and> retired x i h db'"
  by (induction rule: meta_reach.induct) (auto intro: sq_call_working call_retired)

section \<open>A revoked key stays out\<close>

lemma sq_get_key_answers:
  assumes "sq_working x db"
  shows "get_key (sq_metadata_ops x) db i = Inr (sq_key x db i)"
proof -
  have "row_to_gateway_key x r = Inr (key_row x r)" if "List.find (\<lambda>r. kt_id r = i) (t_keys db) = Some r" for r
    using assms find_in_set [OF that] by (simp add: sq_working_def sql_ok_def row_to_gateway_key_ok)
  then show ?thesis
    using assms by (auto simp: sq_metadata_ops_def sq_get_key_def fetched_def fetch_def select_key_def transpose_row_def sq_key_find sq_working_def
        split: option.split)
qed

text \<open>What lies behind an acknowledged revocation.\<close>

lemma revocation_acknowledged:
  assumes "ga_metadata app = sq_metadata_ops x" "sq_working x (sv_meta s0)"
    and "xt_route xt (remdups (map fst build_router)) (wr_path r0) = Some (''/admin/keys/:id'', ps)" "xt_accepts xt OnDelete (wr_method r0)"
    and "xt_path1 xt ps = Inr i" "serve_request ex cy xt app dw r0 s0 = (s, Reply a)"
  shows "\<exists>row. sq_key x (sv_meta s0) i = Some row \<and> retired x i (kr_hash row) (sv_meta s) \<and> sq_working x (sv_meta s)"
proof -
  have "find (\<lambda>(p, m, ep). p = ''/admin/keys/:id'' \<and> xt_accepts xt m (wr_method r0)) build_router = Some (''/admin/keys/:id'', OnDelete, Admin EpRevokeKey)"
    using assms(4) by (simp add: build_router_def nest_def admin_routes_def)
  with assms(3) have "serve_request ex cy xt app dw r0 s0 = call_endpoint ex cy xt app dw (Admin EpRevokeKey) ps r0 s0"
    by (simp add: serve_request_def)
  with assms(1,5,6) obtain db v where rv: "admin_revoke_key (sq_metadata_ops x) (dw_ms dw) i (sv_meta s0) = (db, Inr v)" "sv_meta s = db"
    by (auto simp: extracted_def with_meta_def answer_of_def split: sum.splits) (metis prod.collapse)
  then have "revoke_key (sq_metadata_ops x) (sv_meta s0) (dw_ms dw) i = (db, Inr ())"
      "\<forall>row. sq_key x (sv_meta s0) i = Some row \<longrightarrow> admin_managed row"
    by (auto simp: admin_revoke_key_def sq_get_key_answers [OF assms(2)] admin_managed_def split: sum.splits prod.splits if_splits option.splits)
  with sq_keys.revoke_result [OF assms(2), of "dw_ms dw" i db "Inr ()"] sq_call_working [OF assms(2), of "RevokeKey (dw_ms dw) i"] rv(2)
  show ?thesis by (auto simp: retired_def admin_managed_def)
qed

lemma retired_refused:
  assumes "ga_metadata app = sq_metadata_ops x" "sq_working x (sv_meta s)" "bears ex xt req token"
    and "retired x i (derive_hash (cy_keyed_hash cy) (ah_master_key (ga_handles app)) token) (sv_meta s)"
    and "\<forall>j r. sq_key x (sv_meta s) j = Some r \<and> kr_hash r = derive_hash (cy_keyed_hash cy) (ah_master_key (ga_handles app)) token \<longrightarrow> j = i"
  shows "snd (serve_request ex cy xt app dw req s) = Refused ApiUnauthorized"
proof -
  let ?h = "derive_hash (cy_keyed_hash cy) (ah_master_key (ga_handles app)) token"
  obtain r where r: "find_key_by_hash (sq_metadata_ops x) (sv_meta s) ?h = Inr r" using sq_find_answers [OF assms(2)] by blast
  have "kr_status row \<noteq> ''active''" if "r = Some row" for row
  proof -
    from sq_keys.find_sound [OF assms(2)] r that have "kr_hash row = ?h" "sq_key x (sv_meta s) (kr_id row) = Some row" by auto
    with assms(4,5) show ?thesis by (auto simp: retired_def)
  qed
  moreover from assms(3) obtain ps where "extract_bearer (ex_to_str ex) (wr_headers req) = Some token" "xt_accepts xt OnAny (wr_method req)"
      "xt_route xt (remdups (map fst build_router)) (wr_path req) = Some (''/v1/:namespace/*tail'', ps)" by (auto simp: bears_def)
  ultimately show ?thesis
    using r assms(1) proxy_route_found [of xt "wr_method req"]
    by (auto simp: serve_request_def gateway_key_auth_def split: option.split)
qed

text \<open>C10: Revocation is final. An administrator's request to revoke a key was answered with success, on a working SQLite database. Whatever the
  gateway then serves, to administrators too, interleaved with streaming tasks and with hot reloads of any configuration, a request
  that bears the secret of that key is refused as unauthorized, provided no other stored key has the same keyed hash.\<close>

theorem revocation_is_final:
  assumes "ga_metadata app = sq_metadata_ops x" "sq_working x (sv_meta s0)"
    and "xt_route xt (remdups (map fst build_router)) (wr_path r0) = Some (''/admin/keys/:id'', ps)" "xt_accepts xt OnDelete (wr_method r0)"
    and "xt_path1 xt ps = Inr i" "serve_request ex cy xt (with_config cfg app) dw0 r0 s0 = (s, Reply a)"
    and "sq_key x (sv_meta s0) i = Some row" "kr_hash row = derive_hash (cy_keyed_hash cy) (ah_master_key (ga_handles app)) token"
    and "live_all ex cy xt re app evs (ph, cfg, s) = ((ph', cfg', s'), answers)" "bears ex xt req token"
    and "\<forall>j r. sq_key x (sv_meta s') j = Some r \<and> kr_hash r = kr_hash row \<longrightarrow> j = i"
  shows "snd (serve_request ex cy xt (with_config cfg' app) dw req s') = Refused ApiUnauthorized"
proof -
  have app: "ga_metadata (with_config c app) = sq_metadata_ops x" for c using assms(1) by simp
  from revocation_acknowledged [OF app assms(2-6)] assms(7) have "retired x i (kr_hash row) (sv_meta s)" "sq_working x (sv_meta s)" by auto
  moreover have "meta_reach (sq_metadata_ops x) (sv_meta s) (sv_meta s')"
    using live_all_reach [of app "(ph, cfg, s)" ex cy xt re evs] assms(1,9) by simp
  ultimately have "sq_working x (sv_meta s')" "retired x i (kr_hash row) (sv_meta s')" using reach_retired by blast+
  then show ?thesis using assms(8,11) by (intro retired_refused [OF app _ assms(10)]) simp_all
qed

section \<open>A concrete revocation\<close>

text \<open>The key of \<open>old_tables\<close>, here of an administrator, a router that knows the path of that key, and the request that revokes it.\<close>

definition made_tables :: sql_db where
  "made_tables = demo_tables\<lparr>t_keys := [old_key\<lparr>kt_origin := KEY_ORIGIN_ADMIN\<rparr>]\<rparr>"

definition keys_xt :: extractors where
  "keys_xt = demo_xt\<lparr>xt_route := (\<lambda>paths p. if p = ''/admin/keys/old'' then Some (''/admin/keys/:id'', [''old'']) else xt_route demo_xt paths p)\<rparr>"

definition revoke_request :: wire_request where
  "revoke_request = (demo_wire ''/admin/keys/old'' [(''authorization'', ''Bearer tok'')])\<lparr>wr_method := ''DELETE''\<rparr>"

definition revoked_tables :: sql_db where
  "revoked_tables = demo_tables\<lparr>t_keys := [old_key\<lparr>kt_origin := KEY_ORIGIN_ADMIN, kt_status := ''revoked'', kt_revoked_at := Some 0\<rparr>]\<rparr>"

lemma made_tables_working: "sq_working demo_ext made_tables"
  using demo_ext_codec
  by (simp add: sq_working_def sql_ok_def made_tables_def old_key_def demo_tables_def sql_db_new_def project_exists_def has_where_def demo_ext_def)

lemma made_keys:
  "sq_key demo_ext made_tables j = (if j = ''old'' then Some (key_row demo_ext (old_key\<lparr>kt_origin := KEY_ORIGIN_ADMIN\<rparr>)) else None)"
  "sq_key demo_ext revoked_tables j \<noteq> None \<Longrightarrow> j = ''old''"
  by (auto simp: sq_key_find made_tables_def revoked_tables_def old_key_def split: if_splits)

lemma keys_bears: "bears demo_externals keys_xt old_request ''sk-gw-test-old''"
  using old_bears by (simp add: bears_def keys_xt_def old_request_def demo_wire_def)

lemma demo_revoked:
  "serve_request demo_externals demo_crypto keys_xt (with_config demo_config demo_gateway) demo_draws revoke_request (demo_state\<lparr>sv_meta := made_tables\<rparr>)
     = (demo_state\<lparr>sv_meta := revoked_tables\<rparr>, Reply (JsonReply (JObject [(''id'', JString ''old''), (''status'', JString ''revoked'')])))"
proof -
  let ?s = "demo_state\<lparr>sv_meta := made_tables\<rparr>" and ?app = "with_config demo_config demo_gateway"
  have "trim ''tok'' = ''tok''" by (simp add: trim_def is_whitespace_def is_cont_byte_def byte_def)
  from bearer_of [OF this] have bearer: "extract_bearer Some (wr_headers revoke_request) = Some ''tok''" by (simp add: revoke_request_def demo_wire_def)
  have "find (\<lambda>(p, m, ep). p = ''/admin/keys/:id'' \<and> xt_accepts keys_xt m ''DELETE'') build_router
      = Some (''/admin/keys/:id'', OnDelete, Admin EpRevokeKey)"
    by (simp add: build_router_def nest_def admin_routes_def keys_xt_def demo_xt_def)
  then have "serve_request demo_externals demo_crypto keys_xt ?app demo_draws revoke_request ?s
      = call_endpoint demo_externals demo_crypto keys_xt ?app demo_draws (Admin EpRevokeKey) [''old''] revoke_request ?s"
    by (simp add: serve_request_def keys_xt_def revoke_request_def demo_wire_def)
  moreover have "admin_revoke_key (sq_metadata_ops demo_ext) 0 ''old'' made_tables
      = (revoked_tables, Inr (JObject [(''id'', JString ''old''), (''status'', JString ''revoked'')]))"
    using sq_get_key_answers [OF made_tables_working, of "''old''"]
    by (simp add: admin_revoke_key_def made_keys key_row_def KEY_ORIGIN_ADMIN_def KEY_ORIGIN_CONFIG_def)
      (simp add: sq_metadata_ops_def sq_revoke_key_def executed_def execute_def update_keys_def upd_where_def made_tables_def revoked_tables_def
        old_key_def demo_tables_def sql_db_new_def)
  ultimately show ?thesis
    using bearer
    by (simp add: demo_gateway_def demo_state_def demo_crypto_def demo_draws_def demo_externals_def extracted_def with_meta_def answer_of_def
        admin_auth_def token_verify_def keys_xt_def demo_xt_def)
qed

theorem revocation_is_final_witness:
  "\<exists>s' answers. live_all demo_externals demo_crypto keys_xt demo_reload demo_gateway [Serve (EvRequest demo_draws old_request)]
       (Waiting, demo_config, fst (serve_request demo_externals demo_crypto keys_xt (with_config demo_config demo_gateway) demo_draws revoke_request
          (demo_state\<lparr>sv_meta := made_tables\<rparr>))) = ((Waiting, demo_config, s'), answers)
     \<and> snd (serve_request demo_externals demo_crypto keys_xt (with_config demo_config demo_gateway) demo_draws old_request s') = Refused ApiUnauthorized"
proof -
  let ?evs = "[Serve (EvRequest demo_draws old_request)]" and ?s = "demo_state\<lparr>sv_meta := revoked_tables\<rparr>"
  have app: "ga_metadata demo_gateway = sq_metadata_ops demo_ext" by (simp add: demo_gateway_def)
  obtain ph' cfg' s' answers where
    run: "live_all demo_externals demo_crypto keys_xt demo_reload demo_gateway ?evs (Waiting, demo_config, ?s) = ((ph', cfg', s'), answers)"
    by (metis prod.collapse)
  then have same: "ph' = Waiting" "cfg' = demo_config" by (auto split: prod.splits)
  have "list_all (live_outside demo_externals demo_crypto demo_gateway) ?evs" using old_outside by simp
  from sq_seed.live_all_view [OF app this refl run] have "sq_untouched (sv_meta s') = sq_untouched revoked_tables" by (auto simp: reload_alone_def)
  then have only: "j = ''old''" if "sq_key demo_ext (sv_meta s') j = Some r" for j r
    using sq_key_same [of revoked_tables "sv_meta s'" demo_ext j r] made_keys(2) [of j] that by auto
  have "snd (serve_request demo_externals demo_crypto keys_xt (with_config cfg' demo_gateway) demo_draws old_request s') = Refused ApiUnauthorized"
    by (rule revocation_is_final [OF app _ _ _ _ demo_revoked _ _ run keys_bears,
          where ps = "[''old'']" and i = "''old''" and row = "key_row demo_ext (old_key\<lparr>kt_origin := KEY_ORIGIN_ADMIN\<rparr>)"])
      (use only made_tables_working in \<open>simp_all add: made_keys key_row_def old_key_def keys_xt_def demo_xt_def revoke_request_def demo_wire_def
          derive_hash_def demo_crypto_def\<close>)
  with run same show ?thesis by (simp add: demo_revoked)
qed

end
