(* ===== verification/Price_Race.thy ===== *)
theory Price_Race
  imports Server_Invariant
begin

text \<open>
  Two price changes at once. \<open>upsert_pricing\<close> of \<open>gateway-api/src/routes/admin/pricing.rs\<close> awaits the store twice, for the write and for the
  list of all overrides, before it swaps the catalog; nothing keeps another request from running in between. The handler is
  cut at these points here. Run on its own it is the handler of \<open>Admin_Api\<close>.
\<close>

section \<open>The handler in steps\<close>

datatype price_task =
    PriceWrite pricing_row
  | PriceRead
  | PriceSwap "pricing_row list"
  | PriceDone "api_error + json"

definition price_start :: "pricing_row \<Rightarrow> price_task" where
  "price_start body =
     (let provider = trim (pr_provider body); model = trim (pr_model body) in
      if provider = [] \<or> model = [] then PriceDone (Inl (ApiBadRequest ''provider and model are required''))
      else if \<not> valid_price (pr_input_per_1k body) \<or> \<not> valid_price (pr_output_per_1k body)
              \<or> \<not> (case pr_cached_input_per_1k body of None \<Rightarrow> True | Some c \<Rightarrow> valid_price c)
      then PriceDone (Inl (ApiBadRequest ''prices must be non-negative numbers''))
      else PriceWrite (body\<lparr>pr_provider := provider, pr_model := model\<rparr>))"

fun price_step ::
  "'m metadata_ops \<Rightarrow> pricing_catalog \<Rightarrow> price_task \<Rightarrow> 'm \<times> pricing_catalog \<Rightarrow> price_task \<times> 'm \<times> pricing_catalog" where
  "price_step ops base (PriceWrite row) (m, cat) =
     (case upsert_pricing ops m row of
        (m1, Inl e) \<Rightarrow> (PriceDone (Inl (ApiStorage e)), m1, cat)
      | (m1, Inr _) \<Rightarrow> (PriceRead, m1, cat))"
| "price_step ops base PriceRead (m, cat) =
     (case list_pricing ops m of
        Inl e \<Rightarrow> (PriceDone (Inl (ApiStorage e)), m, cat)
      | Inr rows \<Rightarrow> (PriceSwap rows, m, cat))"
| "price_step ops base (PriceSwap rows) (m, cat) = (PriceDone (Inr json_ok), m, merged_catalog base rows)"
| "price_step ops base (PriceDone r) (m, cat) = (PriceDone r, m, cat)"

text \<open>Two handlers at once; the schedule says which one takes the next step.\<close>

fun price_run ::
  "'m metadata_ops \<Rightarrow> pricing_catalog \<Rightarrow> bool list \<Rightarrow> price_task \<times> price_task \<Rightarrow> 'm \<times> pricing_catalog
     \<Rightarrow> (price_task \<times> price_task) \<times> 'm \<times> pricing_catalog" where
  "price_run ops base [] ts s = (ts, s)"
| "price_run ops base (second # sched) (t1, t2) s =
     (if second then (case price_step ops base t2 s of (t2', s') \<Rightarrow> price_run ops base sched (t1, t2') s')
      else (case price_step ops base t1 s of (t1', s') \<Rightarrow> price_run ops base sched (t1', t2) s'))"

section \<open>One at a time\<close>

lemma price_task_runs:
  "(let (t1, s1) = price_step ops base (price_start body) s; (t2, s2) = price_step ops base t1 s1; (t3, s3) = price_step ops base t2 s2
    in (s3, t3)) = map_prod id PriceDone (admin_upsert_pricing ops base body s)"
  by (cases s) (auto simp: price_start_def admin_upsert_pricing_def refresh_pricing_def Let_def split: prod.split sum.split)

lemma price_done_stays: "price_step ops base (PriceDone r) s = (PriceDone r, s)"
  by (cases s) simp

text \<open>When the two handlers do not overlap, the catalog is the one of the last list of overrides.\<close>

lemma price_changes_in_turn:
  assumes "upsert_pricing ops m r1 = (m1, Inr u1)" "list_pricing ops m1 = Inr rows1"
    and "upsert_pricing ops m1 r2 = (m2, Inr u2)" "list_pricing ops m2 = Inr rows2"
  shows "price_run ops base [False, False, False, True, True, True] (PriceWrite r1, PriceWrite r2) (m, cat)
    = ((PriceDone (Inr json_ok), PriceDone (Inr json_ok)), m2, merged_catalog base rows2)"
  using assms by simp

section \<open>Overlapping\<close>

text \<open>When the first handler has listed the overrides and is overtaken before it swaps, both changes are stored and acknowledged, and
  the catalog in force lacks the second one.\<close>

lemma price_changes_race:
  assumes "upsert_pricing ops m r1 = (m1, Inr u1)" "list_pricing ops m1 = Inr rows1"
    and "upsert_pricing ops m1 r2 = (m2, Inr u2)" "list_pricing ops m2 = Inr rows2"
  shows "price_run ops base [False, False, True, True, True, False] (PriceWrite r1, PriceWrite r2) (m, cat)
    = ((PriceDone (Inr json_ok), PriceDone (Inr json_ok)), m2, merged_catalog base rows1)"
  using assms by simp

definition demo_price :: "string \<Rightarrow> pricing_row" where
  "demo_price model = \<lparr>pr_provider = ''openai'', pr_model = model, pr_input_per_1k = Finite 1, pr_output_per_1k = Finite 2,
     pr_cached_input_per_1k = None\<rparr>"

text \<open>So the invariant of the server, which holds when handlers run in one piece, is lost: a stored price is not in force.\<close>

lemma price_race_loses_update:
  "\<exists>db2 cat. price_run (sq_metadata_ops demo_ext) catalog_default [False, False, True, True, True, False]
       (price_start (demo_price ''a''), price_start (demo_price ''b'')) (demo_tables, catalog_default)
     = ((PriceDone (Inr json_ok), PriceDone (Inr json_ok)), db2, cat)
   \<and> map (\<lambda>r. pr_model (pt_row r)) (t_pricing db2) = [''a'', ''b''] \<and> lookup cat ''openai'' ''b'' = None"
proof -
  have start: "price_start (demo_price m) = PriceWrite (demo_price m)" if "m = ''a'' \<or> m = ''b''" for m
    using that by (auto simp: price_start_def demo_price_def trim_def is_whitespace_def is_cont_byte_def byte_def valid_price_def)
  let ?t = "\<lambda>m. \<lparr>pt_row = demo_price m, pt_effective_from = 0\<rparr>"
  have "upsert_pricing (sq_metadata_ops demo_ext) demo_tables (demo_price ''a'') = (demo_tables\<lparr>t_pricing := [?t ''a'']\<rparr>, Inr ())"
    "upsert_pricing (sq_metadata_ops demo_ext) (demo_tables\<lparr>t_pricing := [?t ''a'']\<rparr>) (demo_price ''b'')
      = (demo_tables\<lparr>t_pricing := [?t ''a'', ?t ''b'']\<rparr>, Inr ())"
    by (simp_all add: sq_metadata_ops_def sq_upsert_pricing_def sq_real_def sq_opt_real_def demo_price_def executed_def execute_def
        demo_tables_def sql_db_new_def upsert_pricing_row_def has_where_def pricing_key_def)
  moreover have "list_pricing (sq_metadata_ops demo_ext) (demo_tables\<lparr>t_pricing := ts\<rparr>) = Inr (map pt_row ts)" for ts
    by (simp add: sq_metadata_ops_def sq_list_pricing_def fetched_def fetch_def demo_tables_def sql_db_new_def)
  ultimately have "price_run (sq_metadata_ops demo_ext) catalog_default [False, False, True, True, True, False]
       (PriceWrite (demo_price ''a''), PriceWrite (demo_price ''b'')) (demo_tables, catalog_default)
     = ((PriceDone (Inr json_ok), PriceDone (Inr json_ok)), demo_tables\<lparr>t_pricing := [?t ''a'', ?t ''b'']\<rparr>,
        merged_catalog catalog_default [demo_price ''a''])"
    by (intro price_changes_race) simp_all
  moreover have "lookup (merged_catalog catalog_default [demo_price ''a'']) ''openai'' ''b'' = None"
    by (simp add: lookup_def merged_catalog_def with_overrides_def insert_entries_def row_to_entry_def demo_price_def catalog_default_def
        hm_get_def hm_insert_def or_else_def openrouter_lookup_def openrouter_entry_def strip_date_def rsplit_once_def split_once_def)
  ultimately show ?thesis using start by (simp add: demo_price_def)
qed

end
