(* ===== verification/Spec2Isabelle.thy ===== *)
theory Spec2Isabelle
  imports Tee_Stream Log_Correct Sqlite_Kv Redis_Store Connections Revocation Price_Race
begin

text \<open>
  \<^bold>\<open>sag, an LLM gateway: verification library\<close>

  The program is an HTTP gateway written in Rust (\<open>src/crates\<close>). A client presents a gateway key and calls
  \<open>/v1/{namespace}/{tail}\<close>; the gateway authenticates the key, checks budgets and rate limits, picks a route by
  namespace and model, answers from the response cache or forwards the request along the route's chain of
  providers with retries and fallbacks, streams the answer back, and then stores it, settles token limits and
  budgets, computes the cost and writes one log record. Keys can be seeded from the configuration file,
  which is reloaded while the gateway runs; administrators manage keys, prices and accounts and read the logs through
  \<open>/admin\<close>. The stores behind it are in memory, SQLite with in-memory counters, or PostgreSQL with Redis.

  \<^bold>\<open>Conventions.\<close> A Rust string or byte vector is its list of bytes. A struct is a record, an enum a datatype;
  a \<open>HashMap\<close> is an association list with distinct keys (\<open>hmap\<close>), so that iteration order is explicit. A \<open>Result\<close>
  is a sum with the error on the left. A panic is \<^const>\<open>None\<close> of an option, or an outcome of its own in the
  proxy handler. Unsigned counters are \<^typ>\<open>nat\<close> with saturation and casts written out; \<open>i64\<close> values are \<^typ>\<open>int\<close> with
  \<open>wrap_i64\<close>; \<open>f64\<close> is a datatype of finite rationals, infinities and NaN with round-to-nearest-even on
  every operation (theory F64). Asynchronous code is state passing: a store is a record of operations over
  a state, each clock reading is an argument, and a spawned task is a value that is run on the state of the
  stores at the time it runs, so that any interleaving of requests and tasks is an order of such steps.
  Library code (the JSON parser and printer, hash functions, codecs, the HTTP client, argon2, JWT, the
  calendar's day of the month, moka's cache, the Redis server) is a parameter of the definitions that use it, and what the
  code relies on is a hypothesis (\<open>sql_codec\<close>, \<open>l1_law\<close>, \<open>redis_law\<close>). A database is its tables and the effect of each
  statement of the code on them, with the failures of the connection chosen by the environment.

  \<^bold>\<open>Theories and sources.\<close>
  \<^item> Prelude, F64, Json, Utf8: the parts of Rust's standard library and of serde's value type that the code uses.
  \<^item> Errors: the error enums, their statuses, classes and responses (\<open>error.rs\<close> of the three crates).
  \<^item> Config: \<open>gateway-core/src/config.rs\<close>. Validation accepts exactly the well-formed configurations.
  \<^item> Engine: \<open>gateway-core/src/providers\<close> and \<open>proxy/engine.rs\<close>. Client credentials and gateway headers
    never reach a provider; every outcome of \<open>forward\<close>; a valid configuration gives an engine for each of its routes.
  \<^item> Executor: \<open>proxy/retry.rs\<close>, \<open>fallback.rs\<close>, \<open>executor.rs\<close>. The order and number of attempts, which response
    is returned, when a chain stops, the bound on the backoff.
  \<^item> Tee_Stream: \<open>proxy/stream.rs\<close>. The tee passes every poll through and captures a prefix.
  \<^item> Fingerprint, Cache_Policy: \<open>gateway-core/src/cache\<close>. The hash input is injective on requests of one
    namespace, endpoint and scope, and does not depend on field order; the stored form is read back unchanged.
  \<^item> Pricing: \<open>gateway-core/src/pricing\<close>. Well-formed catalogs, lookup precedence, non-negative and monotone costs.
  \<^item> Security, Auth: \<open>gateway-core/src/security\<close>, \<open>gateway-api/src/auth.rs\<close>. Who is let in, exactly.
  \<^item> Storage_Models: \<open>gateway-storage/src/models.rs\<close> and \<open>traits.rs\<close>, with the contracts that clients rely on as the
    locales \<open>kv_contract\<close>, \<open>counter_contract\<close> and \<open>key_store_contract\<close>.
  \<^item> Memory_Store: \<open>gateway-storage/src/memory/mod.rs\<close>, every operation; the interpretations \<open>mem_kv\<close>, \<open>mem_counter\<close> and
    \<open>mem_keys\<close> show that it keeps the contracts.
  \<^item> Seed_Keys: \<open>gateway-api/src/seed_keys.rs\<close> and \<open>reload.rs\<close>. What seeding changes, and that it never touches a
    key made by an administrator.
  \<^item> Rate_Limit: \<open>gateway-api/src/ratelimit.rs\<close>. Concurrency is bounded in every reachable state (a step relation
    over admissions and releases), the request quota of a window is exact.
  \<^item> Budget: \<open>gateway-api/src/budget.rs\<close>. Spending is exact and never shrinks, a block stays, a threshold fires once.
  \<^item> Tokens: \<open>gateway-api/src/tokens.rs\<close>. The loops compute the last value of each field over the events.
  \<^item> Request_Log: \<open>gateway-api/src/logging.rs\<close> and the redaction and clipping part of \<open>routes/proxy.rs\<close>.
  \<^item> Proxy_Handler: the handler and the streaming task of \<open>gateway-api/src/routes/proxy.rs\<close>, every branch.
  \<^item> Proxy_Stream: what the task sends, captures, stores, logs and releases.
  \<^item> Proxy_Correct: which requests reach an upstream, permits, logs, the cache, and the replay of a stored
    response, through the contracts of the stores.

  \<^item> Admin_Api: \<open>gateway-api/src/routes/admin\<close> without the logs, and the readiness probe. A minted key opens the gateway, a
    login is a session of that administrator, a price change takes effect, repricing reaches every priced line.
  \<^item> Sql: the tables of \<open>migrations\<close> and the statements of the SQL stores, with constraints and failures.
  \<^item> Sqlite_Metadata, Sql_Refinement: \<open>gateway-storage/src/sqlite/metadata.rs\<close>; it refines the in-memory store, and the
    interpretation \<open>sq_keys\<close> gives it the contract of the key table, with everything proved from that.
  \<^item> Postgres_Metadata, Sql_Correct: \<open>gateway-storage/src/postgres/metadata.rs\<close> agrees with SQLite; the tables keep
    their constraints under any calls and failures; authentication on SQLite; which keys the foreign keys refuse; a race
    of the PostgreSQL seeding.
  \<^item> Batch_Log, Sqlite_Logs, Postgres_Logs, Log_Correct: \<open>sqlite/logs.rs\<close> and \<open>postgres/logs.rs\<close>. A step relation for request
    threads, the bounded channel and the batching worker: accepted records reach the table and are read back
    unchanged, paging ends and is complete, aggregates count every line once.
  \<^item> Log_Views: \<open>routes/admin/logs.rs\<close>. What the log list shows, and how long a preview can be.
  \<^item> Sqlite_Kv: \<open>sqlite/kv.rs\<close>. How long the two-level cache serves an entry.
  \<^item> Redis_Store: \<open>gateway-storage/src/redis\<close>. The concurrency limit across processes, exact windows, and
    the counter below zero.
  \<^item> Startup: \<open>gateway-bin/src/main.rs\<close> and the watcher loop of \<open>reload.rs\<close>. When a start succeeds, what a started gateway
    serves, and that the running configuration converges to the file.
  \<^item> Sqlite_Pool: \<open>sqlite/pool.rs\<close> and \<open>sqlite/mod.rs\<close>. What is checked before the database is opened, and with which options.
  \<^item> Connections: \<open>postgres/mod.rs\<close>, \<open>redis/mod.rs\<close> and \<open>build_stores\<close>. Which database each store of the bundle
    is opened on, in which order, and which failures stop the start.
  \<^item> Server: \<open>gateway-api/src/server.rs\<close> with the signatures of the handlers, the probes and the metrics endpoint: the route
    table, and one function that serves a request on the state that all handlers share.
  \<^item> Server_Correct: the whole server. The locale \<open>touch_contract\<close> says what the writes of an unauthenticated request may
    change; the interpretations \<open>mem_touch\<close>, \<open>sq_touch\<close> and \<open>pg_touch\<close> discharge it for the three metadata stores. Callers without
    credentials change nothing but two kinds of timestamps; a login leads to a key, and the key to a proxied request.
  \<^item> Settings: which settings of the file have no effect, at the start, while serving and in the chain of providers.
  \<^item> Server_Invariant: the invariant of the server, that the tables keep their constraints and the prices in force are the base
    catalog with the stored rows on top; it holds after the start, and every handler and task keeps it.
  \<^item> Reload: \<open>try_reload\<close> with \<open>apply\<close> inlined, one call of the store per step. Run on its own it is the function of Seed_Keys. The
    locale \<open>seed_view_contract\<close> extends \<open>touch_contract\<close> by what makes it independent of traffic; the interpretations \<open>mem_seed\<close>,
    \<open>sq_seed\<close> and \<open>pg_seed\<close> discharge it for the three stores.
  \<^item> Live: requests, tasks and reload steps in any order. The invariant of the running gateway; a reload is not disturbed by
    traffic; after it the configuration file has the last word on its keys; what a reload leaves alone.
  \<^item> Spend: what a running gateway has spent. Charges of the streaming tasks and price changes keep every spend finite and growing, so a
    budget that blocks a caller keeps blocking until its period ends.
  \<^item> Revocation: whatever a run does to the metadata store is a sequence of calls of its interface, and none of them revives a
    revoked key of an administrator; so revocation is final.
  \<^item> Price_Race: the handler for price changes cut at its awaits; two of them that overlap can lose one in the catalog.

  \<^bold>\<open>Termination and bounds.\<close> No fuel is used: every loop of the code is over a list or has a measure (the retry
  loop runs at most \<open>max_attempts\<close> times, and once when that is 0; \<open>write_all\<close> shortens its buffer; redaction and
  hashing descend into the JSON value; a round of the debounce loop consumes an event). The client that follows the cursor of the
  log list is bounded by a number of pages, and one more than the number of matching lines is proved enough. The limits of the code are kept as constants: 64 KiB of logged body, 20 MB
  of cached body, windows of one minute, backoff of at most ten seconds.

  \<^bold>\<open>Not modelled.\<close> Calls that only hand over to a library: the drivers' connects and the migrations they run (their outcomes are the
  parameter \<open>drivers\<close>), matching of paths and decoding of bodies by the web framework (fields of \<open>extractors\<close>), the listener and
  its shutdown, argument parsing, tracing, and the increments of single metrics. An operation of a store
  is atomic, except where its statements are written as separate steps (the PostgreSQL seeding); the SQLite stores serialise their
  writes with a lock, PostgreSQL does not. In a run of the server a request takes effect as one step and its streaming task as
  another, while a reload takes one step per call of the store; that a request is one step is a restriction where handlers overlap,
  and Price_Race shows the case in which it matters for the invariant. A webhook is an event in the result.
\<close>

end
